(* ===== verification/Prelude.thy ===== *)
theory Prelude
  imports Main "HOL-Library.Word"
begin

text \<open>
  Shared vocabulary of the SkadiCore development: machine integers and byte strings, the
  outcome of a Rust computation (a value, an error, a panic, or a future that never becomes
  ready), checked indexing and slicing, big-endian integers, UTF-8 validation as performed by
  \<open>std::str::from_utf8\<close>, and the generic lemmas the component theories use.
\<close>

section \<open>Collections of facts\<close>

named_theorems outcome_simps \<open>evaluation of outcomes under their guards\<close>
named_theorems wire_simps \<open>shape of encoded messages\<close>

section \<open>Types\<close>

type_synonym u8 = "8 word"
type_synonym u16 = "16 word"
type_synonym u32 = "32 word"
type_synonym u64 = "64 word"
type_synonym bytes = "u8 list"

text \<open>A Rust \<open>String\<close> is its UTF-8 byte sequence; string literals of the source are ASCII.\<close>

type_synonym rstring = bytes

definition lit :: "string \<Rightarrow> rstring" where
  "lit s = map of_char s"

section \<open>Outcomes\<close>

text \<open>
  \<open>Ok\<close> and \<open>Err\<close> are the constructors of \<open>Result\<close>. \<open>Panic\<close> is an aborting panic (an index
  or a slice out of range, an \<open>expect\<close> on \<open>None\<close>). \<open>Pending\<close> is an \<open>await\<close> that never becomes
  ready because the peer neither sends nor closes.
\<close>

datatype ('a, 'e) outcome = Ok 'a | Err 'e | Panic | Pending

text \<open>The \<open>?\<close> operator.\<close>

fun ebind :: "('a, 'e) outcome \<Rightarrow> ('a \<Rightarrow> ('b, 'e) outcome) \<Rightarrow> ('b, 'e) outcome" where
  "ebind (Ok x) f = f x"
| "ebind (Err e) f = Err e"
| "ebind Panic f = Panic"
| "ebind Pending f = Pending"

text \<open>\<open>Result::map_err\<close>.\<close>

fun map_err :: "('e \<Rightarrow> 'f) \<Rightarrow> ('a, 'e) outcome \<Rightarrow> ('a, 'f) outcome" where
  "map_err f (Ok x) = Ok x"
| "map_err f (Err e) = Err (f e)"
| "map_err f Panic = Panic"
| "map_err f Pending = Pending"

text \<open>The computation returns a \<open>Result\<close>: it neither panics nor blocks for ever.\<close>

fun returns :: "('a, 'e) outcome \<Rightarrow> bool" where
  "returns (Ok x) = True"
| "returns (Err e) = True"
| "returns Panic = False"
| "returns Pending = False"

text \<open>
  Case analysis on which branch produced an outcome: \<open>simp only: outcome_cases split: if_split_asm\<close>
  after one unfolding in the assumption. The injectivity facts are oriented so that the
  result is replaced by what the branch computed.
\<close>

lemma outcome_inject_sym:
  "(Err x = Err e) = (e = x)"
  "(Ok z = Ok y) = (y = z)"
  by auto

lemmas outcome_cases = outcome.distinct outcome_inject_sym

lemma ebind_eq_Ok_conv:
  "ebind r f = Ok y \<longleftrightarrow> (\<exists>x. r = Ok x \<and> f x = Ok y)"
  by (cases r) auto

lemma ebind_eq_Err_conv:
  "ebind r f = Err e \<longleftrightarrow> r = Err e \<or> (\<exists>x. r = Ok x \<and> f x = Err e)"
  by (cases r) auto

lemma ebind_cong [fundef_cong]:
  "r = r' \<Longrightarrow> (\<And>x. r' = Ok x \<Longrightarrow> f x = g x) \<Longrightarrow> ebind r f = ebind r' g"
  by (cases r) auto

lemma map_err_eq_Ok_conv [simp]: "map_err f r = Ok x \<longleftrightarrow> r = Ok x"
  by (cases r) auto

lemma map_err_eq_Err_conv: "map_err f r = Err e \<longleftrightarrow> (\<exists>e'. r = Err e' \<and> e = f e')"
  by (cases r) auto

lemma returns_map_err [simp]: "returns (map_err f r) = returns r"
  by (cases r) auto

lemma returns_ebind:
  "returns r \<Longrightarrow> (\<And>x. r = Ok x \<Longrightarrow> returns (f x)) \<Longrightarrow> returns (ebind r f)"
  by (cases r) auto

lemma returns_cases:
  assumes "returns r"
  obtains x where "r = Ok x" | e where "r = Err e"
  using assms by (cases r) auto

lemma returnsI_Ok: "r = Ok x \<Longrightarrow> returns r"
  by simp

section \<open>Checked indexing and slicing\<close>

text \<open>\<open>xs[i]\<close> panics when \<open>i\<close> is out of range, \<open>xs[a..b]\<close> unless \<open>a <= b <= xs.len()\<close>.\<close>

definition idx :: "'a list \<Rightarrow> nat \<Rightarrow> ('a, 'e) outcome" where
  "idx xs i = (if i < length xs then Ok (xs ! i) else Panic)"

definition slice :: "'a list \<Rightarrow> nat \<Rightarrow> nat \<Rightarrow> ('a list, 'e) outcome" where
  "slice xs a b = (if a \<le> b \<and> b \<le> length xs then Ok (take (b - a) (drop a xs)) else Panic)"

lemma idx_ok [outcome_simps]: "i < length xs \<Longrightarrow> idx xs i = Ok (xs ! i)"
  by (simp add: idx_def)

lemma slice_ok [outcome_simps]:
  "a \<le> b \<Longrightarrow> b \<le> length xs \<Longrightarrow> slice xs a b = Ok (take (b - a) (drop a xs))"
  by (simp add: slice_def)

lemma idx_eq_Ok: "idx xs i = Ok x \<longleftrightarrow> i < length xs \<and> x = xs ! i"
  by (auto simp: idx_def)

lemma slice_eq_Ok:
  "slice xs a b = Ok ys \<longleftrightarrow> a \<le> b \<and> b \<le> length xs \<and> ys = take (b - a) (drop a xs)"
  by (auto simp: slice_def)

lemma idx_append: "i < length xs \<Longrightarrow> idx (xs @ ys) i = idx xs i"
  by (simp add: idx_def nth_append)

lemma slice_append: "b \<le> length xs \<Longrightarrow> slice (xs @ ys) a b = slice xs a b"
  by (simp add: slice_def)

lemma nth_append_lt: "i < length xs \<Longrightarrow> (xs @ ys) ! i = xs ! i"
  by (simp add: nth_append)

lemma nth0_append_le: "Suc 0 \<le> length xs \<Longrightarrow> (xs @ ys) ! 0 = xs ! 0"
  by (cases xs) auto

lemmas nth_app = nth_append_lt nth0_append_le

lemma take_drop_append_lt:
  "a + n \<le> length xs \<Longrightarrow> take n (drop a (xs @ ys)) = take n (drop a xs)"
  by simp

section \<open>Big-endian integers\<close>

text \<open>\<open>u16::from_be_bytes\<close> and \<open>u16::to_be_bytes\<close>.\<close>

definition u16_from_be :: "u8 \<Rightarrow> u8 \<Rightarrow> u16" where
  "u16_from_be hi lo = word_of_nat (unat hi * 256 + unat lo)"

definition u16_to_be :: "u16 \<Rightarrow> bytes" where
  "u16_to_be w = [word_of_nat (unat w div 256), word_of_nat (unat w mod 256)]"

lemma unat_u8_bound [simp]: "unat (b::u8) < 256"
  using unsigned_less [of b] by simp

lemma unat_u16_bound [simp]: "unat (w::u16) < 65536"
  using unsigned_less [of w] by simp

lemma unat_u8_le [simp]: "unat (b::u8) \<le> 255"
  using unat_u8_bound [of b] by linarith

lemma unat_u8_not_above [simp]: "\<not> 255 < unat (b::u8)" "\<not> 512 < unat (b::u8)"
  using unat_u8_bound [of b] by linarith+

lemma be16_value_bound: "unat (hi::u8) * 256 + unat (lo::u8) < 65536"
  using unat_u8_bound [of hi] unat_u8_bound [of lo] by linarith

lemma unat_word_of_nat_lt: "n < 2 ^ LENGTH('a) \<Longrightarrow> unat (word_of_nat n :: 'a::len word) = n"
  by (simp add: unat_of_nat)

lemma unat_u16_from_be [simp]: "unat (u16_from_be hi lo) = unat hi * 256 + unat lo"
  unfolding u16_from_be_def using be16_value_bound [of hi lo]
  by (intro unat_word_of_nat_lt) simp

lemma length_u16_to_be [simp]: "length (u16_to_be w) = 2"
  by (simp add: u16_to_be_def)

lemma u16_from_to_be [simp]:
  "u16_from_be (word_of_nat (unat w div 256)) (word_of_nat (unat w mod 256)) = w"
proof -
  have "unat w div 256 < 256" using unat_u16_bound [of w] by linarith
  then have "unat (word_of_nat (unat w div 256) :: u8) = unat w div 256"
    by (intro unat_word_of_nat_lt) simp
  moreover have "unat (word_of_nat (unat w mod 256) :: u8) = unat w mod 256"
    by (intro unat_word_of_nat_lt) simp
  ultimately show ?thesis
    by (simp add: word_unat_eq_iff)
qed

lemma u16_to_from_be [simp]: "u16_to_be (u16_from_be hi lo) = [hi, lo]"
  by (simp add: u16_to_be_def)

lemma u16_from_be_hd: "u16_from_be (u16_to_be w ! 0) (u16_to_be w ! Suc 0) = w"
  by (simp add: u16_to_be_def)

lemma unat_succ_below: "(c::u32) < k \<Longrightarrow> unat (c + 1) = Suc (unat c) \<and> c + 1 \<le> k"
proof -
  assume "c < k"
  moreover have "unat k < 4294967296" using unsigned_less [of k] by simp
  ultimately show ?thesis by (auto simp: word_less_nat_alt word_le_nat_alt unat_word_ariths)
qed

lemma u16_of_nat_inverse [simp]: "n < 65536 \<Longrightarrow> unat (word_of_nat n :: u16) = n"
  by (simp add: unat_word_of_nat_lt)

lemma u8_of_nat_inverse [simp]: "n < 256 \<Longrightarrow> unat (word_of_nat n :: u8) = n"
  by (simp add: unat_word_of_nat_lt)

text \<open>The two bytes at a position of a buffer, as a number.\<close>

definition be16_at :: "bytes \<Rightarrow> nat \<Rightarrow> nat" where
  "be16_at xs i = unat (u16_from_be (xs ! i) (xs ! Suc i))"

lemma be16_at_append [simp]: "Suc i < length xs \<Longrightarrow> be16_at (xs @ ys) i = be16_at xs i"
  by (simp add: be16_at_def nth_append)

lemma be16_at_take [simp]: "Suc i < n \<Longrightarrow> be16_at (take n xs) i = be16_at xs i"
  by (simp add: be16_at_def)

lemma be16_at_encoded [simp]: "be16_at (u16_to_be w @ xs) 0 = unat w"
  by (simp add: be16_at_def u16_to_be_def)

lemma be16_at_skip [simp]: "be16_at (xs @ ys) (length xs) = be16_at ys 0"
  by (simp add: be16_at_def nth_append)

lemma be16_at_bound: "be16_at xs i < 65536"
  unfolding be16_at_def by (rule unat_u16_bound)

section \<open>UTF-8\<close>

text \<open>
  \<open>std::str::from_utf8\<close> accepts exactly the well-formed byte sequences of the Unicode
  standard (Table 3-7). \<open>utf8_step\<close> removes one scalar value, \<open>utf8_valid\<close> iterates it.
\<close>

definition between :: "u8 \<Rightarrow> u8 \<Rightarrow> u8 \<Rightarrow> bool" where
  "between lo hi b \<longleftrightarrow> lo \<le> b \<and> b \<le> hi"

definition cont :: "u8 \<Rightarrow> bool" where
  "cont b \<longleftrightarrow> between 0x80 0xBF b"

fun utf8_step :: "bytes \<Rightarrow> bytes option" where
  "utf8_step [] = None"
| "utf8_step (b0 # bs) =
    (if b0 < 0x80 then Some bs
     else if between 0xC2 0xDF b0 then
       (case bs of b1 # r \<Rightarrow> if cont b1 then Some r else None | _ \<Rightarrow> None)
     else if between 0xE0 0xEF b0 then
       (case bs of b1 # b2 # r \<Rightarrow>
          if (if b0 = 0xE0 then between 0xA0 0xBF b1
              else if b0 = 0xED then between 0x80 0x9F b1 else cont b1) \<and> cont b2
          then Some r else None
        | _ \<Rightarrow> None)
     else if between 0xF0 0xF4 b0 then
       (case bs of b1 # b2 # b3 # r \<Rightarrow>
          if (if b0 = 0xF0 then between 0x90 0xBF b1
              else if b0 = 0xF4 then between 0x80 0x8F b1 else cont b1) \<and> cont b2 \<and> cont b3
          then Some r else None
        | _ \<Rightarrow> None)
     else None)"

lemma utf8_step_shorter: "utf8_step bs = Some r \<Longrightarrow> length r < length bs"
  by (cases bs) (auto split: if_splits list.splits)

function utf8_valid :: "bytes \<Rightarrow> bool" where
  "utf8_valid bs =
     (if bs = [] then True
      else case utf8_step bs of None \<Rightarrow> False | Some r \<Rightarrow> utf8_valid r)"
  by pat_completeness auto
termination
  by (relation "measure length") (auto dest: utf8_step_shorter)

declare utf8_valid.simps [simp del]

lemma utf8_valid_Nil [simp]: "utf8_valid []"
  by (simp add: utf8_valid.simps)

lemma utf8_valid_ascii_Cons [simp]: "b < 0x80 \<Longrightarrow> utf8_valid (b # bs) = utf8_valid bs"
  by (simp add: utf8_valid.simps [of "b # bs"])

definition is_ascii :: "bytes \<Rightarrow> bool" where
  "is_ascii bs \<longleftrightarrow> list_all (\<lambda>b. b < 0x80) bs"

lemma is_ascii_simps [simp]:
  "is_ascii []"
  "is_ascii (b # bs) \<longleftrightarrow> b < 0x80 \<and> is_ascii bs"
  "is_ascii (xs @ ys) \<longleftrightarrow> is_ascii xs \<and> is_ascii ys"
  by (simp_all add: is_ascii_def)

lemma ascii_utf8_valid: "is_ascii bs \<Longrightarrow> utf8_valid bs"
  by (induction bs) auto

text \<open>\<open>std::str::from_utf8(..).map_err(|_| e)\<close> followed by \<open>to_string\<close>.\<close>

definition from_utf8 :: "'e \<Rightarrow> bytes \<Rightarrow> (rstring, 'e) outcome" where
  "from_utf8 e bs = (if utf8_valid bs then Ok bs else Err e)"

lemma from_utf8_eq_Ok [simp]: "from_utf8 e bs = Ok s \<longleftrightarrow> utf8_valid bs \<and> s = bs"
  by (auto simp: from_utf8_def)

lemma returns_from_utf8 [simp]: "returns (from_utf8 e bs)"
  by (simp add: from_utf8_def)

section \<open>Constant-time comparison\<close>

text \<open>
  \<open>subtle::ConstantTimeEq::ct_eq\<close> is a parameter of the code that compares secrets. Its documented
  result on slices of the same length is their equality.
\<close>

type_synonym ct_eq = "bytes \<Rightarrow> bytes \<Rightarrow> bool"

definition ct_eq_spec :: "ct_eq \<Rightarrow> bool" where
  "ct_eq_spec ct \<longleftrightarrow> (\<forall>a b. length a = length b \<longrightarrow> ct a b = (a = b))"

lemma ct_eq_specD: "ct_eq_spec ct \<Longrightarrow> length a = length b \<Longrightarrow> ct a b = (a = b)"
  by (simp add: ct_eq_spec_def)

lemma ct_eq_spec_eq [simp]: "ct_eq_spec (=)"
  by (simp add: ct_eq_spec_def)

end
