(* ===== verification/Endpoint.thy ===== *)
theory Endpoint
  imports Prelude
begin

text \<open>
  The shared types of \<open>crates/skadi-core\<close>: addresses and endpoints (\<open>endpoint.rs\<close>), the error
  type (\<open>error.rs\<close>), and the outbound address policy that keeps the proxy from being used to
  reach private networks. The classification predicates of \<open>std::net\<close> are written out.
\<close>

unbundle bit_operations_syntax

section \<open>Addresses\<close>

datatype ipv4 = Ipv4 u8 u8 u8 u8

text \<open>An IPv6 address is its eight 16-bit segments.\<close>

datatype ipv6 = Ipv6 u16 u16 u16 u16 u16 u16 u16 u16

datatype ip_addr = V4 ipv4 | V6 ipv6

text \<open>\<open>SocketAddrV6\<close> carries a flow label and a scope id besides address and port.\<close>

datatype socket_addr = SockV4 ipv4 u16 | SockV6 ipv6 u16 u32 u32

datatype endpoint = EpIp socket_addr | EpDomain rstring u16

fun sock_ip :: "socket_addr \<Rightarrow> ip_addr" where
  "sock_ip (SockV4 ip _) = V4 ip"
| "sock_ip (SockV6 ip _ _ _) = V6 ip"

fun sock_port :: "socket_addr \<Rightarrow> u16" where
  "sock_port (SockV4 _ p) = p"
| "sock_port (SockV6 _ p _ _) = p"

text \<open>\<open>SocketAddr::new\<close>.\<close>

fun sock_new :: "ip_addr \<Rightarrow> u16 \<Rightarrow> socket_addr" where
  "sock_new (V4 ip) p = SockV4 ip p"
| "sock_new (V6 ip) p = SockV6 ip p 0 0"

fun is_ipv4 :: "socket_addr \<Rightarrow> bool" where
  "is_ipv4 (SockV4 _ _) = True"
| "is_ipv4 (SockV6 _ _ _ _) = False"

fun ipv4_octets :: "ipv4 \<Rightarrow> bytes" where
  "ipv4_octets (Ipv4 a b c d) = [a, b, c, d]"

fun ipv6_octets :: "ipv6 \<Rightarrow> bytes" where
  "ipv6_octets (Ipv6 s0 s1 s2 s3 s4 s5 s6 s7) =
     u16_to_be s0 @ u16_to_be s1 @ u16_to_be s2 @ u16_to_be s3 @
     u16_to_be s4 @ u16_to_be s5 @ u16_to_be s6 @ u16_to_be s7"

text \<open>\<open>Ipv6Addr::from([u8; 16])\<close>.\<close>

definition ipv6_from_octets :: "bytes \<Rightarrow> ipv6" where
  "ipv6_from_octets bs = Ipv6
     (u16_from_be (bs ! 0) (bs ! 1)) (u16_from_be (bs ! 2) (bs ! 3))
     (u16_from_be (bs ! 4) (bs ! 5)) (u16_from_be (bs ! 6) (bs ! 7))
     (u16_from_be (bs ! 8) (bs ! 9)) (u16_from_be (bs ! 10) (bs ! 11))
     (u16_from_be (bs ! 12) (bs ! 13)) (u16_from_be (bs ! 14) (bs ! 15))"

lemma length_ipv4_octets [simp]: "length (ipv4_octets ip) = 4"
  by (cases ip) simp

lemma length_ipv6_octets [simp]: "length (ipv6_octets ip) = 16"
  by (cases ip) simp

lemma ipv6_from_octets_octets [simp]: "ipv6_from_octets (ipv6_octets ip) = ip"
  by (cases ip) (simp add: ipv6_from_octets_def u16_to_be_def)

lemma length_16_cases:
  assumes "length bs = 16"
  obtains b0 b1 b2 b3 b4 b5 b6 b7 b8 b9 b10 b11 b12 b13 b14 b15
  where "bs = [b0, b1, b2, b3, b4, b5, b6, b7, b8, b9, b10, b11, b12, b13, b14, b15]"
  using assms by (auto simp: numeral_eq_Suc length_Suc_conv)

lemma ipv6_octets_from_octets: "length bs = 16 \<Longrightarrow> ipv6_octets (ipv6_from_octets bs) = bs"
  by (erule length_16_cases) (simp add: ipv6_from_octets_def)

text \<open>
  The endpoints a wire format can carry: no flow label or scope id, and a domain name of 1 to
  255 bytes of UTF-8.
\<close>

fun wire_endpoint :: "endpoint \<Rightarrow> bool" where
  "wire_endpoint (EpIp (SockV4 ip port)) \<longleftrightarrow> True"
| "wire_endpoint (EpIp (SockV6 ip port flowinfo scope_id)) \<longleftrightarrow> flowinfo = 0 \<and> scope_id = 0"
| "wire_endpoint (EpDomain host port) \<longleftrightarrow> host \<noteq> [] \<and> length host \<le> 255 \<and> utf8_valid host"

section \<open>Errors\<close>

datatype io_kind =
    UnexpectedEof | BrokenPipe | InvalidData | TimedOut | NotConnected | ConnectionRefused | HostUnreachable | OtherIo

text \<open>
  \<open>ForbiddenDestination\<close> carries the textual rendering of the address; the model keeps the
  address itself.
\<close>

datatype core_error =
    Io io_kind
  | Protocol rstring
  | AuthFailed
  | UnknownUser rstring
  | Timeout
  | TooManyConnections
  | Config rstring
  | UnknownProtocolByte u8
  | DisabledProtocol string
  | ForbiddenDestination socket_addr

section \<open>Address classes of \<open>std::net\<close>\<close>

fun v4_is_private :: "ipv4 \<Rightarrow> bool" where
  "v4_is_private (Ipv4 a b c d) \<longleftrightarrow>
     a = 10 \<or> (a = 172 \<and> 16 \<le> b \<and> b \<le> 31) \<or> (a = 192 \<and> b = 168)"

fun v4_is_loopback :: "ipv4 \<Rightarrow> bool" where
  "v4_is_loopback (Ipv4 a b c d) \<longleftrightarrow> a = 127"

fun v4_is_link_local :: "ipv4 \<Rightarrow> bool" where
  "v4_is_link_local (Ipv4 a b c d) \<longleftrightarrow> a = 169 \<and> b = 254"

fun v4_is_broadcast :: "ipv4 \<Rightarrow> bool" where
  "v4_is_broadcast (Ipv4 a b c d) \<longleftrightarrow> a = 255 \<and> b = 255 \<and> c = 255 \<and> d = 255"

fun v4_is_documentation :: "ipv4 \<Rightarrow> bool" where
  "v4_is_documentation (Ipv4 a b c d) \<longleftrightarrow>
     (a = 192 \<and> b = 0 \<and> c = 2) \<or> (a = 198 \<and> b = 51 \<and> c = 100) \<or> (a = 203 \<and> b = 0 \<and> c = 113)"

fun v4_is_unspecified :: "ipv4 \<Rightarrow> bool" where
  "v4_is_unspecified (Ipv4 a b c d) \<longleftrightarrow> a = 0 \<and> b = 0 \<and> c = 0 \<and> d = 0"

fun v4_is_multicast :: "ipv4 \<Rightarrow> bool" where
  "v4_is_multicast (Ipv4 a b c d) \<longleftrightarrow> 224 \<le> a \<and> a \<le> 239"

fun v6_to_ipv4_mapped :: "ipv6 \<Rightarrow> ipv4 option" where
  "v6_to_ipv4_mapped (Ipv6 s0 s1 s2 s3 s4 s5 s6 s7) =
     (if s0 = 0 \<and> s1 = 0 \<and> s2 = 0 \<and> s3 = 0 \<and> s4 = 0 \<and> s5 = 0xFFFF
      then Some (Ipv4 (u16_to_be s6 ! 0) (u16_to_be s6 ! 1) (u16_to_be s7 ! 0) (u16_to_be s7 ! 1))
      else None)"

fun v6_is_loopback :: "ipv6 \<Rightarrow> bool" where
  "v6_is_loopback ip \<longleftrightarrow> ip = Ipv6 0 0 0 0 0 0 0 1"

fun v6_is_unspecified :: "ipv6 \<Rightarrow> bool" where
  "v6_is_unspecified ip \<longleftrightarrow> ip = Ipv6 0 0 0 0 0 0 0 0"

fun v6_is_unique_local :: "ipv6 \<Rightarrow> bool" where
  "v6_is_unique_local (Ipv6 s0 s1 s2 s3 s4 s5 s6 s7) \<longleftrightarrow> s0 AND 0xFE00 = 0xFC00"

fun v6_is_unicast_link_local :: "ipv6 \<Rightarrow> bool" where
  "v6_is_unicast_link_local (Ipv6 s0 s1 s2 s3 s4 s5 s6 s7) \<longleftrightarrow> s0 AND 0xFFC0 = 0xFE80"

fun v6_is_multicast :: "ipv6 \<Rightarrow> bool" where
  "v6_is_multicast (Ipv6 s0 s1 s2 s3 s4 s5 s6 s7) \<longleftrightarrow> s0 AND 0xFF00 = 0xFF00"

section \<open>Outbound policy (\<open>endpoint.rs\<close>)\<close>

fun is_carrier_grade_nat :: "ipv4 \<Rightarrow> bool" where
  "is_carrier_grade_nat (Ipv4 a b c d) \<longleftrightarrow> a = 100 \<and> 64 \<le> b \<and> b < 128"

fun is_benchmarking_ipv4 :: "ipv4 \<Rightarrow> bool" where
  "is_benchmarking_ipv4 (Ipv4 a b c d) \<longleftrightarrow> a = 198 \<and> 18 \<le> b \<and> b < 20"

definition is_forbidden_ipv4 :: "ipv4 \<Rightarrow> bool" where
  "is_forbidden_ipv4 ip \<longleftrightarrow>
     v4_is_private ip \<or> v4_is_loopback ip \<or> v4_is_link_local ip \<or> v4_is_broadcast ip \<or>
     v4_is_documentation ip \<or> v4_is_unspecified ip \<or> v4_is_multicast ip \<or>
     is_carrier_grade_nat ip \<or> is_benchmarking_ipv4 ip \<or> ipv4_octets ip ! 0 = 0"

definition is_forbidden_ipv6 :: "ipv6 \<Rightarrow> bool" where
  "is_forbidden_ipv6 ip =
     (case v6_to_ipv4_mapped ip of
        Some v4 \<Rightarrow> is_forbidden_ipv4 v4
      | None \<Rightarrow> v6_is_loopback ip \<or> v6_is_unspecified ip \<or> v6_is_unique_local ip \<or>
                v6_is_unicast_link_local ip \<or> v6_is_multicast ip)"

fun is_forbidden_ip :: "ip_addr \<Rightarrow> bool" where
  "is_forbidden_ip (V4 v4) = is_forbidden_ipv4 v4"
| "is_forbidden_ip (V6 v6) = is_forbidden_ipv6 v6"

definition validate_outbound_literal :: "endpoint \<Rightarrow> bool \<Rightarrow> (unit, core_error) outcome" where
  "validate_outbound_literal ep allow_private =
     (if allow_private then Ok ()
      else case ep of
          EpIp addr \<Rightarrow> if is_forbidden_ip (sock_ip addr) then Err (ForbiddenDestination addr) else Ok ()
        | EpDomain _ _ \<Rightarrow> Ok ())"

text \<open>The \<open>for\<close> loop of \<open>validate_resolved_addrs\<close>.\<close>

fun check_resolved :: "socket_addr list \<Rightarrow> (unit, core_error) outcome" where
  "check_resolved [] = Ok ()"
| "check_resolved (addr # addrs) =
     (if is_forbidden_ip (sock_ip addr) then Err (ForbiddenDestination addr)
      else check_resolved addrs)"

definition validate_resolved_addrs ::
  "socket_addr list \<Rightarrow> bool \<Rightarrow> (unit, core_error) outcome" where
  "validate_resolved_addrs addrs allow_private =
     (if allow_private then Ok () else check_resolved addrs)"

section \<open>Reference: the blocked IPv4 prefixes\<close>

text \<open>A CIDR block is a network address with a prefix length.\<close>

fun ipv4_nat :: "ipv4 \<Rightarrow> nat" where
  "ipv4_nat (Ipv4 a b c d) = ((unat a * 256 + unat b) * 256 + unat c) * 256 + unat d"

definition cidr_contains :: "ipv4 \<times> nat \<Rightarrow> ipv4 \<Rightarrow> bool" where
  "cidr_contains blk ip \<longleftrightarrow>
     ipv4_nat ip div 2 ^ (32 - snd blk) = ipv4_nat (fst blk) div 2 ^ (32 - snd blk)"

definition blocked_v4_prefixes :: "(ipv4 \<times> nat) list" where
  "blocked_v4_prefixes =
     [(Ipv4 0 0 0 0, 8), (Ipv4 10 0 0 0, 8), (Ipv4 100 64 0 0, 10), (Ipv4 127 0 0 0, 8),
      (Ipv4 169 254 0 0, 16), (Ipv4 172 16 0 0, 12), (Ipv4 192 0 2 0, 24),
      (Ipv4 192 168 0 0, 16), (Ipv4 198 18 0 0, 15), (Ipv4 198 51 100 0, 24),
      (Ipv4 203 0 113 0, 24), (Ipv4 224 0 0 0, 4), (Ipv4 255 255 255 255, 32)]"

text \<open>Leading digits of the base-256 value.\<close>

lemma ipv4_nat_div:
  "ipv4_nat (Ipv4 a b c d) div 256 = (unat a * 256 + unat b) * 256 + unat c"
  "ipv4_nat (Ipv4 a b c d) div 65536 = unat a * 256 + unat b"
  "ipv4_nat (Ipv4 a b c d) div 16777216 = unat a"
  "ipv4_nat (Ipv4 a b c d) div 131072 = (unat a * 256 + unat b) div 2"
  "ipv4_nat (Ipv4 a b c d) div 1048576 = (unat a * 256 + unat b) div 16"
  "ipv4_nat (Ipv4 a b c d) div 4194304 = (unat a * 256 + unat b) div 64"
  "ipv4_nat (Ipv4 a b c d) div 268435456 = unat a div 16"
  using unat_u8_bound [of b] unat_u8_bound [of c] unat_u8_bound [of d]
  by (simp_all, linarith+)

lemma digit_eq:
  fixes x y b b' :: nat
  assumes "b < k" and "b' < k"
  shows "x * k + b = y * k + b' \<longleftrightarrow> x = y \<and> b = b'"
proof
  assume eq: "x * k + b = y * k + b'"
  have "(x * k + b) div k = (y * k + b') div k" and "(x * k + b) mod k = (y * k + b') mod k"
    by (simp_all only: eq)
  with assms show "x = y \<and> b = b'" by simp
qed simp

lemma cidr_contains_octets:
  "cidr_contains (Ipv4 n0 n1 n2 n3, 8) (Ipv4 a b c d) \<longleftrightarrow> a = n0"
  "cidr_contains (Ipv4 n0 n1 n2 n3, 16) (Ipv4 a b c d) \<longleftrightarrow> a = n0 \<and> b = n1"
  "cidr_contains (Ipv4 n0 n1 n2 n3, 24) (Ipv4 a b c d) \<longleftrightarrow> a = n0 \<and> b = n1 \<and> c = n2"
  "cidr_contains (Ipv4 n0 n1 n2 n3, 32) (Ipv4 a b c d) \<longleftrightarrow> a = n0 \<and> b = n1 \<and> c = n2 \<and> d = n3"
  "cidr_contains (Ipv4 n0 n1 n2 n3, 4) (Ipv4 a b c d) \<longleftrightarrow> unat a div 16 = unat n0 div 16"
proof -
  note dig = digit_eq [where k = 256, OF unat_u8_bound unat_u8_bound]
  show
    "cidr_contains (Ipv4 n0 n1 n2 n3, 8) (Ipv4 a b c d) \<longleftrightarrow> a = n0"
    "cidr_contains (Ipv4 n0 n1 n2 n3, 4) (Ipv4 a b c d) \<longleftrightarrow> unat a div 16 = unat n0 div 16"
    by (simp_all add: cidr_contains_def ipv4_nat_div word_unat_eq_iff del: ipv4_nat.simps)
  have p: "32 - snd (Ipv4 n0 n1 n2 n3, 16::nat) = 16" "32 - snd (Ipv4 n0 n1 n2 n3, 24::nat) = 8"
    "32 - snd (Ipv4 n0 n1 n2 n3, 32::nat) = 0" "(2::nat) ^ 16 = 65536" "(2::nat) ^ 8 = 256"
    "(2::nat) ^ 0 = 1"
    by simp_all
  show
    "cidr_contains (Ipv4 n0 n1 n2 n3, 16) (Ipv4 a b c d) \<longleftrightarrow> a = n0 \<and> b = n1"
    "cidr_contains (Ipv4 n0 n1 n2 n3, 24) (Ipv4 a b c d) \<longleftrightarrow> a = n0 \<and> b = n1 \<and> c = n2"
    "cidr_contains (Ipv4 n0 n1 n2 n3, 32) (Ipv4 a b c d) \<longleftrightarrow>
       a = n0 \<and> b = n1 \<and> c = n2 \<and> d = n3"
    unfolding cidr_contains_def p fst_conv ipv4_nat_div
    by (simp_all only: ipv4_nat.simps div_by_1 dig word_unat_eq_iff conj_assoc)
qed

lemma cidr_contains_partial:
  "cidr_contains (Ipv4 n0 n1 n2 n3, 10) (Ipv4 a b c d) \<longleftrightarrow>
     a = n0 \<and> unat b div 64 = unat n1 div 64"
  "cidr_contains (Ipv4 n0 n1 n2 n3, 12) (Ipv4 a b c d) \<longleftrightarrow>
     a = n0 \<and> unat b div 16 = unat n1 div 16"
  "cidr_contains (Ipv4 n0 n1 n2 n3, 15) (Ipv4 a b c d) \<longleftrightarrow>
     a = n0 \<and> unat b div 2 = unat n1 div 2"
proof -
  have step: "(x * (m * k) + y) div k = x * m + y div k" if "k \<noteq> 0" for x m k y :: nat
    using div_mult_self3 [OF that, of "x * m" y] by (simp only: mult.assoc)
  have n: "4 * 64 = (256::nat)" "16 * 16 = (256::nat)" "128 * 2 = (256::nat)"
    "(64::nat) \<noteq> 0" "(16::nat) \<noteq> 0" "(2::nat) \<noteq> 0"
    by simp_all
  note div = step [of 64 _ 4, unfolded n(1), OF n(4)] step [of 16 _ 16, unfolded n(2), OF n(5)]
    step [of 2 _ 128, unfolded n(3), OF n(6)]
  have bound: "unat z div 64 < 4" "unat z div 16 < 16" "unat z div 2 < 128" for z :: u8
    using unat_u8_bound [of z] by (simp_all add: div_less_iff_less_mult)
  show
    "cidr_contains (Ipv4 n0 n1 n2 n3, 10) (Ipv4 a b c d) \<longleftrightarrow>
       a = n0 \<and> unat b div 64 = unat n1 div 64"
    "cidr_contains (Ipv4 n0 n1 n2 n3, 12) (Ipv4 a b c d) \<longleftrightarrow>
       a = n0 \<and> unat b div 16 = unat n1 div 16"
    "cidr_contains (Ipv4 n0 n1 n2 n3, 15) (Ipv4 a b c d) \<longleftrightarrow>
       a = n0 \<and> unat b div 2 = unat n1 div 2"
    by (simp_all add: cidr_contains_def ipv4_nat_div div digit_eq bound word_unat_eq_iff
        del: ipv4_nat.simps)
qed

lemma u8_div_ranges:
  "unat b div 64 = Suc 0 \<longleftrightarrow> 64 \<le> b \<and> b < (128::u8)"
  "unat b div 16 = Suc 0 \<longleftrightarrow> 16 \<le> b \<and> b \<le> (31::u8)"
  "unat b div 2 = 9 \<longleftrightarrow> 18 \<le> b \<and> b < (20::u8)"
  "unat b div 16 = 14 \<longleftrightarrow> 224 \<le> b \<and> b \<le> (239::u8)"
  by (simp_all add: word_le_nat_alt word_less_nat_alt) arith+

lemma is_forbidden_ipv4_blocks:
  "is_forbidden_ipv4 ip \<longleftrightarrow> list_ex (\<lambda>blk. cidr_contains blk ip) blocked_v4_prefixes"
proof (cases ip)
  case (Ipv4 a b c d)
  show ?thesis
    unfolding Ipv4 is_forbidden_ipv4_def blocked_v4_prefixes_def
    by (simp add: cidr_contains_octets cidr_contains_partial u8_div_ranges)
      argo
qed

section \<open>The policy checks\<close>

lemma validate_outbound_literal_Ok:
  "validate_outbound_literal ep allow = Ok () \<longleftrightarrow>
     allow \<or> (\<forall>addr. ep = EpIp addr \<longrightarrow> \<not> is_forbidden_ip (sock_ip addr))"
  by (auto simp: validate_outbound_literal_def split: endpoint.splits)

lemma check_resolved_Ok:
  "check_resolved addrs = Ok () \<longleftrightarrow> (\<forall>addr \<in> set addrs. \<not> is_forbidden_ip (sock_ip addr))"
  by (induction addrs) auto

lemma check_resolved_find:
  "check_resolved addrs =
     (case find (\<lambda>addr. is_forbidden_ip (sock_ip addr)) addrs of
        None \<Rightarrow> Ok () | Some addr \<Rightarrow> Err (ForbiddenDestination addr))"
  by (induction addrs) auto

lemma returns_validate_outbound_literal [simp]: "returns (validate_outbound_literal ep allow)"
  by (auto simp: validate_outbound_literal_def split: endpoint.splits)

lemma returns_check_resolved [simp]: "returns (check_resolved addrs)"
  by (induction addrs) auto

lemma returns_validate_resolved_addrs [simp]: "returns (validate_resolved_addrs addrs allow)"
  by (simp add: validate_resolved_addrs_def)

section \<open>IPv4-mapped addresses\<close>

text \<open>The address \<open>::ffff:a.b.c.d\<close>.\<close>

fun mapped :: "ipv4 \<Rightarrow> ipv6" where
  "mapped (Ipv4 a b c d) = Ipv6 0 0 0 0 0 0xFFFF (u16_from_be a b) (u16_from_be c d)"

lemma v6_to_ipv4_mapped_mapped: "v6_to_ipv4_mapped (mapped ip) = Some ip"
  by (cases ip) simp

lemma v6_to_ipv4_mapped_Some: "v6_to_ipv4_mapped v6 = Some ip \<longleftrightarrow> v6 = mapped ip"
  by (cases v6; cases ip) (auto simp: u16_to_be_def split: if_splits)

section \<open>Properties\<close>

text \<open>The IPv4 addresses the outbound policy forbids are exactly those of a fixed list of CIDR
  blocks (this network, private, carrier-grade NAT, loopback, link-local, documentation,
  benchmarking, multicast and the broadcast address).\<close>
lemma forbidden_ipv4_is_cidr_list:
  "is_forbidden_ipv4 ip \<longleftrightarrow> (\<exists>blk. blk \<in> set blocked_v4_prefixes \<and> cidr_contains blk ip)"
  unfolding is_forbidden_ipv4_blocks by (auto simp: list_ex_iff)

text \<open>Writing an IPv4 address in IPv4-mapped IPv6 form does not change the policy's verdict, and
  no other IPv6 address is judged as an IPv4 address.\<close>
lemma mapped_ipv6_cannot_bypass:
  "is_forbidden_ip (V6 (mapped ip)) = is_forbidden_ip (V4 ip) \<and>
   (v6_to_ipv4_mapped v6 = Some ip) = (v6 = mapped ip)"
  by (simp add: is_forbidden_ipv6_def v6_to_ipv4_mapped_mapped v6_to_ipv4_mapped_Some)

end
