(* ===== verification/Wire.thy ===== *)
theory Wire
  imports Prelude "HOL-Library.Sublist"
begin

text \<open>
  The contracts of the wire-format code. A \<open>prefix_parser\<close> reads one message from the front of
  a buffer and reports how many bytes it used; a \<open>streaming_parser\<close> also tells a buffer that is
  too short from a malformed one; a \<open>wire_codec\<close> has an encoder as well. The parsers of the
  SOCKS5, VLESS and Mux components are interpreted against these contracts in their theories,
  and the facts about framing proved here become facts about them.
\<close>

section \<open>Parsing a prefix\<close>

locale prefix_parser =
  fixes parse :: "bytes \<Rightarrow> ('a \<times> nat, 'e) outcome"
  assumes parse_returns: "returns (parse bs)"
    and parse_consumed: "parse bs = Ok (x, n) \<Longrightarrow> 0 < n \<and> n \<le> length bs"
    and parse_extend: "parse bs = Ok (x, n) \<Longrightarrow> parse (bs @ ys) = Ok (x, n)"
    and parse_cut: "parse bs = Ok (x, n) \<Longrightarrow> parse (take n bs) = Ok (x, n)"
begin

text \<open>Only the bytes reported as consumed matter.\<close>

lemma depends_on_consumed:
  assumes "parse bs = Ok (x, n)" and "take n cs = take n bs"
  shows "parse cs = Ok (x, n)"
proof -
  have "parse (take n cs @ drop n cs) = Ok (x, n)"
    using assms parse_cut parse_extend by metis
  then show ?thesis by simp
qed

text \<open>Complete messages form a prefix-free code, so a stream of them splits in one way only.\<close>

lemma prefix_free:
  assumes p: "parse p = Ok (x, length p)" and q: "parse q = Ok (y, length q)"
    and pre: "prefix p q"
  shows "p = q \<and> x = y"
proof -
  from pre obtain r where r: "q = p @ r" by (auto simp: prefix_def)
  from parse_extend [OF p, of r] q r have "x = y \<and> length p = length q" by simp
  with r show ?thesis by simp
qed

end

section \<open>Incremental input\<close>

text \<open>
  \<open>incomplete e\<close> is \<open>Some (need, have)\<close> for the error that asks for more input. Such an error
  is honest (the buffer is shorter than the bytes it asks for, and every buffer still shorter
  gets the same answer); every other error is final.
\<close>

locale streaming_parser = prefix_parser parse
  for parse :: "bytes \<Rightarrow> ('a \<times> nat, 'e) outcome" +
  fixes incomplete :: "'e \<Rightarrow> (nat \<times> nat) option"
  assumes incomplete_honest:
      "parse bs = Err e \<Longrightarrow> incomplete e = Some (need, have) \<Longrightarrow> have = length bs \<and> have < need"
    and incomplete_stable:
      "parse bs = Err e \<Longrightarrow> incomplete e = Some (need, have) \<Longrightarrow> length (bs @ ys) < need \<Longrightarrow>
       \<exists>e'. parse (bs @ ys) = Err e' \<and> incomplete e' = Some (need, length (bs @ ys))"
    and error_final: "parse bs = Err e \<Longrightarrow> incomplete e = None \<Longrightarrow> parse (bs @ ys) = Err e"
begin

text \<open>A message that parses in the end is never rejected on the way.\<close>

lemma incremental:
  assumes "parse (bs @ ys) = Ok (x, n)"
  shows "parse bs = Ok (x, n) \<or>
    (\<exists>e need. parse bs = Err e \<and> incomplete e = Some (need, length bs) \<and>
       length bs < need \<and> need \<le> length (bs @ ys))"
proof (cases "parse bs")
  case (Ok z)
  moreover obtain x' n' where "z = (x', n')" by (cases z)
  ultimately show ?thesis using parse_extend [of bs x' n' ys] assms by simp
next
  case (Err e)
  with assms error_final [of bs e ys] have "incomplete e \<noteq> None" by force
  then obtain need h where inc: "incomplete e = Some (need, h)" by fast
  with Err have hv: "h = length bs" "length bs < need"
    using incomplete_honest by blast+
  from incomplete_stable [OF Err inc, of ys] assms have "need \<le> length (bs @ ys)"
    by (cases "length (bs @ ys) < need") auto
  with Err inc hv show ?thesis by blast
next
  case Panic
  with parse_returns [of bs] show ?thesis by simp
next
  case Pending
  with parse_returns [of bs] show ?thesis by simp
qed

end

section \<open>Codecs\<close>

locale wire_codec = prefix_parser parse
  for parse :: "bytes \<Rightarrow> ('a \<times> nat, 'e) outcome" +
  fixes encode :: "'a \<Rightarrow> bytes" and wf :: "'a \<Rightarrow> bool"
  assumes encode_parse: "wf x \<Longrightarrow> parse (encode x) = Ok (x, length (encode x))"
begin

lemma encode_parse_stream: "wf x \<Longrightarrow> parse (encode x @ rest) = Ok (x, length (encode x))"
  by (rule parse_extend [OF encode_parse])

lemma encode_stream_inj:
  assumes "wf x" and "wf y" and "encode x @ r = encode y @ s"
  shows "x = y \<and> r = s"
proof -
  have "Ok (x, length (encode x)) = (Ok (y, length (encode y)) :: ('a \<times> nat, 'e) outcome)"
    using encode_parse_stream [OF \<open>wf x\<close>, of r] encode_parse_stream [OF \<open>wf y\<close>, of s] assms(3)
    by simp
  then show ?thesis using assms(3) by simp
qed

lemma encode_nonempty: "wf x \<Longrightarrow> encode x \<noteq> []"
  using encode_parse [of x] parse_consumed [of "encode x" x "length (encode x)"] by auto

text \<open>A sequence of encoded messages determines the messages.\<close>

lemma encode_concat_inj:
  assumes "\<forall>x \<in> set xs. wf x" and "\<forall>y \<in> set ys. wf y"
    and "concat (map encode xs) = concat (map encode ys)"
  shows "xs = ys"
  using assms
proof (induction xs arbitrary: ys)
  case Nil
  show ?case
  proof (cases ys)
    case (Cons y ys')
    with Nil have "encode y = []" and "wf y" by auto
    with encode_nonempty show ?thesis by blast
  qed simp
next
  case (Cons x xs)
  show ?case
  proof (cases ys)
    case Nil
    with Cons.prems have "encode x = []" and "wf x" by auto
    with encode_nonempty show ?thesis by blast
  next
    case (Cons y ys')
    with Cons.prems have wf: "wf x" "wf y"
      and eq: "encode x @ concat (map encode xs) = encode y @ concat (map encode ys')"
      by simp_all
    from encode_stream_inj [OF wf eq] have xy: "x = y" "concat (map encode xs) = concat (map encode ys')"
      by simp_all
    have "xs = ys'" by (rule Cons.IH) (use Cons Cons.prems xy in simp_all)
    with Cons xy show ?thesis by simp
  qed
qed

end

end
