(* ===== verification/Vless_Parse.thy ===== *)
theory Vless_Parse
  imports Endpoint Wire
begin

text \<open>
  The pure VLESS parsers and builders of \<open>crates/skadi-protocol/src/vless/parse.rs\<close> and the
  endpoint request builders of \<open>vless/client.rs\<close>: the request header, the \<open>PORT + ATYP + ADDR\<close>
  form that the Mux sub-protocol shares, and the encoders of the client side.
\<close>

section \<open>Constants and data\<close>

definition VLESS_VERSION :: u8 where [simp]: "VLESS_VERSION = 0x00"
definition CMD_TCP :: u8 where [simp]: "CMD_TCP = 0x01"
definition CMD_UDP :: u8 where [simp]: "CMD_UDP = 0x02"
definition CMD_MUX :: u8 where [simp]: "CMD_MUX = 0x03"
definition MUX_PLACEHOLDER_HOST :: rstring where "MUX_PLACEHOLDER_HOST = lit ''v1.mux.cool''"
definition VLESS_ATYP_IPV4 :: u8 where [simp]: "VLESS_ATYP_IPV4 = 0x01"
definition VLESS_ATYP_DOMAIN :: u8 where [simp]: "VLESS_ATYP_DOMAIN = 0x02"
definition VLESS_ATYP_IPV6 :: u8 where [simp]: "VLESS_ATYP_IPV6 = 0x03"
definition MAX_ADDONS :: nat where [simp]: "MAX_ADDONS = 512"
definition MAX_DOMAIN :: nat where [simp]: "MAX_DOMAIN = 255"

datatype vless_parse_error =
    VIncomplete nat nat
  | VBadVersion u8
  | VAddonsTooLarge nat
  | VUnsupportedCommand u8
  | VUnsupportedAddressType u8
  | VEmptyDomain
  | VInvalidUtf8 string

record vless_request =
  vr_uuid :: bytes
  vr_command :: u8
  vr_addons :: bytes
  vr_target :: endpoint

fun vincomplete :: "vless_parse_error \<Rightarrow> (nat \<times> nat) option" where
  "vincomplete (VIncomplete need have) = Some (need, have)"
| "vincomplete _ = None"

section \<open>Parsers\<close>

definition parse_port_address :: "bytes \<Rightarrow> (endpoint \<times> nat, vless_parse_error) outcome" where
  "parse_port_address input =
    (if length input < 3 then Err (VIncomplete 3 (length input)) else
     ebind (idx input 0) (\<lambda>p0.
     ebind (idx input 1) (\<lambda>p1.
     ebind (idx input 2) (\<lambda>atyp.
     let port = u16_from_be p0 p1; addr_start = 3 in
     ebind
      (if atyp = VLESS_ATYP_IPV4 then
         (if length input < addr_start + 4 then Err (VIncomplete (addr_start + 4) (length input))
          else
            ebind (idx input addr_start) (\<lambda>a.
            ebind (idx input (addr_start + 1)) (\<lambda>b.
            ebind (idx input (addr_start + 2)) (\<lambda>c.
            ebind (idx input (addr_start + 3)) (\<lambda>d.
            Ok (EpIp (sock_new (V4 (Ipv4 a b c d)) port), 4))))))
       else if atyp = VLESS_ATYP_DOMAIN then
         (if length input < addr_start + 1 then Err (VIncomplete (addr_start + 1) (length input))
          else
            ebind (idx input addr_start) (\<lambda>db.
            let dlen = unat db in
            if dlen = 0 then Err VEmptyDomain
            else if dlen > MAX_DOMAIN then Err (VIncomplete (addr_start + 1 + dlen) (length input))
            else
              let domain_end = addr_start + 1 + dlen in
              if length input < domain_end then Err (VIncomplete domain_end (length input))
              else
                ebind (slice input (addr_start + 1) domain_end) (\<lambda>dbs.
                ebind (from_utf8 (VInvalidUtf8 ''domain'') dbs) (\<lambda>domain.
                Ok (EpDomain domain port, 1 + dlen)))))
       else if atyp = VLESS_ATYP_IPV6 then
         (if length input < addr_start + 16 then Err (VIncomplete (addr_start + 16) (length input))
          else
            ebind (slice input addr_start (addr_start + 16)) (\<lambda>octets.
            Ok (EpIp (sock_new (V6 (ipv6_from_octets octets)) port), 16)))
       else Err (VUnsupportedAddressType atyp)) (\<lambda>r.
     Ok (fst r, addr_start + snd r))))))"

definition vless_parse_request :: "bytes \<Rightarrow> (vless_request \<times> nat, vless_parse_error) outcome" where
  "vless_parse_request input =
    (if length input < 18 then Err (VIncomplete 18 (length input)) else
     ebind (idx input 0) (\<lambda>version.
     if version \<noteq> VLESS_VERSION then Err (VBadVersion version) else
     ebind (slice input 1 17) (\<lambda>uuid.
     ebind (idx input 17) (\<lambda>ab.
     let addons_len = unat ab in
     if addons_len > MAX_ADDONS then Err (VAddonsTooLarge addons_len) else
     let addons_end = 18 + addons_len in
     if length input < addons_end + 1 then Err (VIncomplete (addons_end + 1) (length input)) else
     ebind (slice input 18 addons_end) (\<lambda>addons.
     ebind (idx input addons_end) (\<lambda>command.
     if command \<noteq> CMD_TCP \<and> command \<noteq> CMD_UDP \<and> command \<noteq> CMD_MUX
       then Err (VUnsupportedCommand command)
     else if command = CMD_MUX then
       Ok (\<lparr>vr_uuid = uuid, vr_command = command, vr_addons = addons,
            vr_target = EpDomain MUX_PLACEHOLDER_HOST 0\<rparr>, addons_end + 1)
     else
       let after_cmd = addons_end + 1 in
       if length input < after_cmd + 3 then Err (VIncomplete (after_cmd + 3) (length input)) else
       ebind (slice input after_cmd (length input)) (\<lambda>rest.
       ebind (parse_port_address rest) (\<lambda>(target, consumed).
       Ok (\<lparr>vr_uuid = uuid, vr_command = command, vr_addons = addons, vr_target = target\<rparr>,
           after_cmd + consumed)))))))))"

section \<open>Encoders\<close>

definition encode_port_address :: "endpoint \<Rightarrow> bytes" where
  "encode_port_address ep =
     (case ep of
        EpIp addr \<Rightarrow>
          u16_to_be (sock_port addr) @
          (case sock_ip addr of
             V4 ip \<Rightarrow> [VLESS_ATYP_IPV4] @ ipv4_octets ip
           | V6 ip \<Rightarrow> [VLESS_ATYP_IPV6] @ ipv6_octets ip)
      | EpDomain domain port \<Rightarrow>
          u16_to_be port @ [VLESS_ATYP_DOMAIN] @ [word_of_nat (length domain)] @ domain)"

definition build_mux_request :: "bytes \<Rightarrow> bytes" where
  "build_mux_request uuid = [VLESS_VERSION] @ uuid @ [0] @ [CMD_MUX]"

definition build_response_header :: "u8 \<Rightarrow> bytes" where
  "build_response_header version = [version, 0x00]"

definition build_tcp_request :: "bytes \<Rightarrow> ipv4 \<Rightarrow> u16 \<Rightarrow> bytes" where
  "build_tcp_request uuid addr port =
     [VLESS_VERSION] @ uuid @ [0] @ [CMD_TCP] @ u16_to_be port @ [VLESS_ATYP_IPV4] @ ipv4_octets addr"

definition build_udp_request :: "bytes \<Rightarrow> ipv4 \<Rightarrow> u16 \<Rightarrow> bytes" where
  "build_udp_request uuid addr port =
     [VLESS_VERSION] @ uuid @ [0] @ [CMD_UDP] @ u16_to_be port @ [VLESS_ATYP_IPV4] @ ipv4_octets addr"

definition build_udp_domain_request :: "bytes \<Rightarrow> rstring \<Rightarrow> u16 \<Rightarrow> bytes" where
  "build_udp_domain_request uuid domain port =
     [VLESS_VERSION] @ uuid @ [0] @ [CMD_UDP] @ u16_to_be port @ [VLESS_ATYP_DOMAIN] @
     [word_of_nat (length domain)] @ domain"

definition build_tcp_domain_request :: "bytes \<Rightarrow> rstring \<Rightarrow> u16 \<Rightarrow> bytes" where
  "build_tcp_domain_request uuid domain port =
     [VLESS_VERSION] @ uuid @ [0] @ [CMD_TCP] @ u16_to_be port @ [VLESS_ATYP_DOMAIN] @
     [word_of_nat (length domain)] @ domain"

definition build_tcp_endpoint_request :: "bytes \<Rightarrow> endpoint \<Rightarrow> bytes" where
  "build_tcp_endpoint_request uuid target =
     (case target of
        EpIp addr \<Rightarrow>
          (case sock_ip addr of
             V4 ip \<Rightarrow> build_tcp_request uuid ip (sock_port addr)
           | V6 _ \<Rightarrow> [VLESS_VERSION] @ uuid @ [0] @ [CMD_TCP] @ encode_port_address target)
      | EpDomain domain port \<Rightarrow> build_tcp_domain_request uuid domain port)"

definition build_udp_endpoint_request :: "bytes \<Rightarrow> endpoint \<Rightarrow> bytes" where
  "build_udp_endpoint_request uuid target =
     (case target of
        EpIp addr \<Rightarrow>
          (case sock_ip addr of
             V4 ip \<Rightarrow> build_udp_request uuid ip (sock_port addr)
           | V6 _ \<Rightarrow> [VLESS_VERSION] @ uuid @ [0] @ [CMD_UDP] @ encode_port_address target)
      | EpDomain domain port \<Rightarrow> build_udp_domain_request uuid domain port)"

section \<open>The parsers without their accesses\<close>

lemma parse_port_address_flat:
  "parse_port_address input =
    (if length input < 3 then Err (VIncomplete 3 (length input))
     else if input ! 2 = 1 then
       if length input < 7 then Err (VIncomplete 7 (length input))
       else Ok (EpIp (SockV4 (Ipv4 (input ! 3) (input ! 4) (input ! 5) (input ! 6))
              (u16_from_be (input ! 0) (input ! 1))), 7)
     else if input ! 2 = 2 then
       if length input < 4 then Err (VIncomplete 4 (length input))
       else if unat (input ! 3) = 0 then Err VEmptyDomain
       else if length input < 4 + unat (input ! 3)
         then Err (VIncomplete (4 + unat (input ! 3)) (length input))
       else if \<not> utf8_valid (take (unat (input ! 3)) (drop 4 input))
         then Err (VInvalidUtf8 ''domain'')
       else Ok (EpDomain (take (unat (input ! 3)) (drop 4 input))
              (u16_from_be (input ! 0) (input ! 1)), 4 + unat (input ! 3))
     else if input ! 2 = 3 then
       if length input < 19 then Err (VIncomplete 19 (length input))
       else Ok (EpIp (SockV6 (ipv6_from_octets (take 16 (drop 3 input)))
              (u16_from_be (input ! 0) (input ! 1)) 0 0), 19)
     else Err (VUnsupportedAddressType (input ! 2)))"
  by (simp add: parse_port_address_def Let_def idx_def slice_def from_utf8_def)

lemma returns_parse_port_address [simp]: "returns (parse_port_address input)"
  by (simp add: parse_port_address_flat)

interpretation port_address: streaming_parser parse_port_address vincomplete
proof unfold_locales
  fix bs ys :: bytes and x n e need h
  show "returns (parse_port_address bs)" by simp
  show "parse_port_address bs = Ok (x, n) \<Longrightarrow> 0 < n \<and> n \<le> length bs"
    by (subst (asm) parse_port_address_flat, simp only: outcome_cases split: if_split_asm)
      (simp_all add: parse_port_address_flat nth_app)
  show "parse_port_address bs = Ok (x, n) \<Longrightarrow> parse_port_address (bs @ ys) = Ok (x, n)"
    by (subst (asm) parse_port_address_flat, simp only: outcome_cases split: if_split_asm)
      (simp_all add: parse_port_address_flat nth_app)
  show "parse_port_address bs = Ok (x, n) \<Longrightarrow> parse_port_address (take n bs) = Ok (x, n)"
    by (subst (asm) parse_port_address_flat, simp only: outcome_cases split: if_split_asm)
      (simp_all add: parse_port_address_flat min_absorb2 drop_take)
  show "parse_port_address bs = Err e \<Longrightarrow> vincomplete e = Some (need, h) \<Longrightarrow> h = length bs \<and> h < need"
    by (subst (asm) parse_port_address_flat, simp only: outcome_cases split: if_split_asm)
      (simp_all add: parse_port_address_flat nth_app)
  show "parse_port_address bs = Err e \<Longrightarrow> vincomplete e = Some (need, h) \<Longrightarrow>
      length (bs @ ys) < need \<Longrightarrow>
      \<exists>e'. parse_port_address (bs @ ys) = Err e' \<and> vincomplete e' = Some (need, length (bs @ ys))"
    by (subst (asm) parse_port_address_flat, simp only: outcome_cases split: if_split_asm)
      (simp_all add: parse_port_address_flat nth_app)
  show "parse_port_address bs = Err e \<Longrightarrow> vincomplete e = None \<Longrightarrow> parse_port_address (bs @ ys) = Err e"
    by (subst (asm) parse_port_address_flat, simp only: outcome_cases split: if_split_asm)
      (simp_all add: parse_port_address_flat nth_app)
qed

lemma vless_parse_request_flat:
  "vless_parse_request input =
    (if length input < 18 then Err (VIncomplete 18 (length input))
     else if input ! 0 \<noteq> 0 then Err (VBadVersion (input ! 0))
     else let a = unat (input ! 17); c = input ! (18 + a);
              req = \<lparr>vr_uuid = take 16 (drop 1 input), vr_command = c,
                     vr_addons = take a (drop 18 input), vr_target = EpDomain MUX_PLACEHOLDER_HOST 0\<rparr>
       in if length input < 19 + a then Err (VIncomplete (19 + a) (length input))
          else if c \<noteq> 1 \<and> c \<noteq> 2 \<and> c \<noteq> 3 then Err (VUnsupportedCommand c)
          else if c = 3 then Ok (req, 19 + a)
          else if length input < 22 + a then Err (VIncomplete (22 + a) (length input))
          else ebind (parse_port_address (drop (19 + a) input))
                 (\<lambda>(target, n). Ok (req\<lparr>vr_target := target\<rparr>, 19 + a + n)))"
  by (simp add: vless_parse_request_def Let_def idx_def slice_def add_ac)

lemma vless_parse_request_Ok:
  "vless_parse_request bs = Ok (r, n) \<longleftrightarrow>
     (let a = unat (bs ! 17) in
      19 + a \<le> length bs \<and> bs ! 0 = 0 \<and> vr_uuid r = take 16 (drop 1 bs) \<and>
      vr_addons r = take a (drop 18 bs) \<and> vr_command r = bs ! (18 + a) \<and>
      (vr_command r = 3 \<and> vr_target r = EpDomain MUX_PLACEHOLDER_HOST 0 \<and> n = 19 + a \<or>
       vr_command r \<in> {1, 2} \<and>
       (\<exists>k. parse_port_address (drop (19 + a) bs) = Ok (vr_target r, k) \<and> n = 19 + a + k)))"
proof -
  have len: "parse_port_address (drop (19 + a) bs) = Ok (t, k) \<Longrightarrow> 22 + a \<le> length bs" for a t k
    by (subst (asm) parse_port_address_flat, simp only: outcome_cases split: if_split_asm) simp_all
  show ?thesis
    by (cases r) (auto simp: vless_parse_request_flat Let_def ebind_eq_Ok_conv dest: len)
qed

interpretation vless_req: prefix_parser vless_parse_request
proof unfold_locales
  fix bs ys :: bytes and x n
  show "returns (vless_parse_request bs)"
    by (auto simp: vless_parse_request_flat Let_def intro: returns_ebind)
  assume p: "vless_parse_request bs = Ok (x, n)"
  then have a: "19 + unat (bs ! 17) \<le> n" "n \<le> length bs"
    by (auto simp: vless_parse_request_Ok Let_def dest: port_address.parse_consumed)
  then show "0 < n \<and> n \<le> length bs" by simp
  show "vless_parse_request (bs @ ys) = Ok (x, n)"
    using p a by (auto simp: vless_parse_request_Ok Let_def nth_app port_address.parse_extend)
  have "parse_port_address (drop (19 + unat (bs ! 17)) bs) = Ok (t, k) \<Longrightarrow>
      parse_port_address (drop (19 + unat (bs ! 17)) (take (19 + unat (bs ! 17) + k) bs)) = Ok (t, k)"
    for t k
    by (simp add: drop_take port_address.parse_cut)
  then show "vless_parse_request (take n bs) = Ok (x, n)"
    using p a by (auto simp: vless_parse_request_Ok Let_def drop_take)
qed

section \<open>Round trips\<close>

lemma parse_encode_port_address:
  assumes "wire_endpoint t"
  shows "parse_port_address (encode_port_address t) = Ok (t, length (encode_port_address t))"
proof (cases t)
  case (EpIp sa)
  show ?thesis
  proof (cases sa)
    case (SockV4 ip port)
    then show ?thesis
      using EpIp by (cases ip)
        (simp add: parse_port_address_flat encode_port_address_def u16_to_be_def)
  next
    case (SockV6 ip port f s)
    with EpIp assms show ?thesis
      by (simp add: parse_port_address_flat encode_port_address_def u16_to_be_def)
  qed
next
  case (EpDomain host port)
  with assms have "host \<noteq> []" "length host \<le> 255" "utf8_valid host" by simp_all
  then show ?thesis
    using EpDomain by (simp add: parse_port_address_flat encode_port_address_def u16_to_be_def)
qed

interpretation port_address_codec: wire_codec parse_port_address encode_port_address wire_endpoint
  by unfold_locales (rule parse_encode_port_address)

text \<open>All the client's builders write the same layout.\<close>

definition request_header :: "bytes \<Rightarrow> u8 \<Rightarrow> bytes" where
  "request_header uuid cmd = 0 # uuid @ [0, cmd]"

lemma build_requests:
  "build_tcp_endpoint_request uuid t = request_header uuid 1 @ encode_port_address t"
  "build_udp_endpoint_request uuid t = request_header uuid 2 @ encode_port_address t"
  "build_mux_request uuid = request_header uuid 3"
  by (auto simp: build_tcp_endpoint_request_def build_udp_endpoint_request_def build_mux_request_def
      request_header_def encode_port_address_def build_tcp_request_def build_udp_request_def
      build_tcp_domain_request_def build_udp_domain_request_def
      split: endpoint.split ip_addr.split)

lemma parse_request_header:
  assumes "length uuid = 16" "cmd = 1 \<or> cmd = 2" "wire_endpoint t"
  shows "vless_parse_request (request_header uuid cmd @ encode_port_address t) =
    Ok (\<lparr>vr_uuid = uuid, vr_command = cmd, vr_addons = [], vr_target = t\<rparr>,
        length (request_header uuid cmd @ encode_port_address t))"
  using assms parse_encode_port_address [OF assms(3)]
  by (auto simp: vless_parse_request_Ok request_header_def nth_append Let_def)

lemma parse_mux_header:
  "length uuid = 16 \<Longrightarrow> vless_parse_request (request_header uuid 3) =
    Ok (\<lparr>vr_uuid = uuid, vr_command = 3, vr_addons = [], vr_target = EpDomain MUX_PLACEHOLDER_HOST 0\<rparr>, 19)"
  by (simp add: vless_parse_request_Ok request_header_def nth_append Let_def)

text \<open>The requests the client can send, and how it sends each.\<close>

definition client_request :: "vless_request \<Rightarrow> bool" where
  "client_request r \<longleftrightarrow>
     length (vr_uuid r) = 16 \<and> vr_addons r = [] \<and>
     (vr_command r = 3 \<and> vr_target r = EpDomain MUX_PLACEHOLDER_HOST 0 \<or>
      (vr_command r = 1 \<or> vr_command r = 2) \<and> wire_endpoint (vr_target r))"

definition build_request :: "vless_request \<Rightarrow> bytes" where
  "build_request r =
     (if vr_command r = CMD_MUX then build_mux_request (vr_uuid r)
      else if vr_command r = CMD_TCP then build_tcp_endpoint_request (vr_uuid r) (vr_target r)
      else build_udp_endpoint_request (vr_uuid r) (vr_target r))"

lemma parse_build_request:
  assumes "client_request r"
  shows "vless_parse_request (build_request r) = Ok (r, length (build_request r))"
proof -
  have "r = \<lparr>vr_uuid = vr_uuid r, vr_command = vr_command r, vr_addons = [], vr_target = vr_target r\<rparr>"
    using assms by (cases r) (simp add: client_request_def)
  with assms parse_request_header [of "vr_uuid r" "vr_command r" "vr_target r"]
    parse_mux_header [of "vr_uuid r"]
  show ?thesis
    by (auto simp: client_request_def build_request_def build_requests request_header_def)
qed

interpretation vless_codec: wire_codec vless_parse_request build_request client_request
  by unfold_locales (rule parse_build_request)

section \<open>Properties\<close>

text \<open>Every request the client builds (TCP or UDP to any endpoint the format can carry, or Mux)
  parses on the server to the same identifier, command and target, even with more bytes behind it,
  and the parser consumes exactly the request.\<close>
lemma vless_request_roundtrip:
  assumes "client_request r"
  shows "vless_parse_request (build_request r @ rest) = Ok (r, length (build_request r))"
  by (rule vless_codec.encode_parse_stream [OF assms])

text \<open>A domain of 256 bytes or more is not representable: the length byte of the encoded
  address is the length modulo 256, so the encoder's output announces a shorter domain than it
  carries.\<close>
lemma long_domain_wraps:
  "unat (encode_port_address (EpDomain domain port) ! 3) = length domain mod 256"
  by (simp add: encode_port_address_def u16_to_be_def unat_of_nat)

end
