(* ===== verification/Vless_Addons.thy ===== *)
theory Vless_Addons
  imports Prelude
begin

text \<open>
  The protobuf reader for VLESS addons (\<open>crates/skadi-protocol/src/vless/addons.rs\<close>): varints,
  length-delimited fields, the nested flow message, and the check of the requested flow against
  the user's. The two field loops terminate because every field takes at least its tag byte.
\<close>

unbundle bit_operations_syntax

section \<open>Data\<close>

definition FLOW_XTLS_VISION :: rstring where "FLOW_XTLS_VISION = lit ''xtls-rprx-vision''"
definition MAX_NESTED :: nat where [simp]: "MAX_NESTED = 128"
definition MAX_SEED :: nat where [simp]: "MAX_SEED = 64"
definition MAX_ADDONS_SKIP :: nat where [simp]: "MAX_ADDONS_SKIP = 512"

record vless_addons =
  ad_flow :: "rstring option"
  ad_seed :: "bytes option"

definition addons_default :: vless_addons where
  "addons_default = \<lparr>ad_flow = None, ad_seed = None\<rparr>"

datatype addons_error =
    Truncated
  | InvalidWireType u8
  | FlowTooLarge nat
  | SeedTooLarge nat

datatype unsupported_flow =
    Vision
  | UnknownFlow rstring
  | FlowMismatch rstring "rstring option"

section \<open>Fields\<close>

function read_varint_loop :: "bytes \<Rightarrow> u64 \<Rightarrow> nat \<Rightarrow> nat \<Rightarrow> (u64 \<times> nat, addons_error) outcome" where
  "read_varint_loop data result shift pos =
     (if pos < length data then
        let byte = data ! pos;
            result = result OR push_bit shift (ucast (byte AND 0x7F))
        in if byte AND 0x80 = 0 then Ok (result, pos + 1)
           else if shift + 7 > 63 then Err Truncated
           else read_varint_loop data result (shift + 7) (pos + 1)
      else Err Truncated)"
  by pat_completeness auto
termination
  by (relation "measure (\<lambda>(data, _, _, pos). length data - pos)") auto

declare read_varint_loop.simps [simp del]

definition read_varint :: "bytes \<Rightarrow> nat \<Rightarrow> (u64 \<times> nat, addons_error) outcome" where
  "read_varint data offset = read_varint_loop data 0 0 offset"

definition skip_varint :: "bytes \<Rightarrow> nat \<Rightarrow> (nat, addons_error) outcome" where
  "skip_varint data offset = ebind (read_varint data offset) (\<lambda>(_, next). Ok next)"

definition read_tag :: "bytes \<Rightarrow> nat \<Rightarrow> (u32 \<times> u8 \<times> nat, addons_error) outcome" where
  "read_tag data offset =
     ebind (read_varint data offset) (\<lambda>(value, next).
     let wire_type = ucast (value AND 0x07); tag = ucast (drop_bit 3 value)
     in Ok (tag, wire_type, next))"

definition read_length_delimited ::
  "bytes \<Rightarrow> nat \<Rightarrow> nat \<Rightarrow> (bytes \<times> nat, addons_error) outcome" where
  "read_length_delimited data offset max_len =
     ebind (read_varint data offset) (\<lambda>(v, next).
     let len = unat v in
     if len > max_len then Err (if max_len = MAX_SEED then SeedTooLarge len else FlowTooLarge len)
     else
       let end_pos = next + len in
       if end_pos > length data then Err Truncated
       else ebind (slice data next end_pos) (\<lambda>body. Ok (body, end_pos)))"

text \<open>A varint takes at least one byte and stays inside the buffer.\<close>

lemma read_varint_loop_next:
  "read_varint_loop data result shift pos = Ok (v, next) \<Longrightarrow> pos < next \<and> next \<le> length data"
proof (induction data result shift pos rule: read_varint_loop.induct)
  case (1 data result shift pos)
  show ?case
    using 1(2) unfolding read_varint_loop.simps [of data result shift pos]
    by (auto simp: Let_def split: if_split_asm dest: 1(1) [OF _ refl refl])
qed

lemma read_varint_next: "read_varint data offset = Ok (v, next) \<Longrightarrow> offset < next \<and> next \<le> length data"
  by (simp add: read_varint_def read_varint_loop_next)

lemma read_tag_next: "read_tag data offset = Ok (t, w, next) \<Longrightarrow> offset < next \<and> next \<le> length data"
  by (auto simp: read_tag_def ebind_eq_Ok_conv Let_def dest: read_varint_next)

lemma skip_varint_next: "skip_varint data offset = Ok next \<Longrightarrow> offset < next \<and> next \<le> length data"
  by (auto simp: skip_varint_def ebind_eq_Ok_conv dest: read_varint_next)

lemma read_length_delimited_next:
  "read_length_delimited data offset m = Ok (body, next) \<Longrightarrow>
     offset < next \<and> next \<le> length data \<and> length body \<le> m"
  by (auto simp: read_length_delimited_def ebind_eq_Ok_conv Let_def slice_eq_Ok
      split: if_split_asm dest!: read_varint_next)

lemmas field_next = read_tag_next skip_varint_next read_length_delimited_next

section \<open>The two field loops\<close>

function flow_loop :: "bytes \<Rightarrow> nat \<Rightarrow> rstring \<Rightarrow> (rstring, addons_error) outcome" where
  "flow_loop data offset flow_type =
     (if offset < length data then
        ebind (read_tag data offset) (\<lambda>(tag, wire_type, next).
        if tag = 1 \<and> wire_type = 2 then
          ebind (read_length_delimited data next MAX_NESTED) (\<lambda>(value, next').
          ebind (from_utf8 Truncated value) (\<lambda>s. flow_loop data next' s))
        else if wire_type = 0 then
          ebind (skip_varint data next) (\<lambda>next'. flow_loop data next' flow_type)
        else if wire_type = 1 then flow_loop data (next + 8) flow_type
        else if wire_type = 2 then
          ebind (read_length_delimited data next MAX_NESTED) (\<lambda>(_, next').
          flow_loop data next' flow_type)
        else if wire_type = 5 then flow_loop data (next + 4) flow_type
        else Err (InvalidWireType wire_type))
      else Ok flow_type)"
  by pat_completeness auto
termination
  by (relation "measure (\<lambda>(data, offset, _). length data - offset)") (auto dest!: field_next)

declare flow_loop.simps [simp del]

definition parse_flow_message :: "bytes \<Rightarrow> (rstring, addons_error) outcome" where
  "parse_flow_message data = flow_loop data 0 []"

function addons_loop :: "bytes \<Rightarrow> nat \<Rightarrow> vless_addons \<Rightarrow> (vless_addons, addons_error) outcome" where
  "addons_loop data offset addons =
     (if offset < length data then
        ebind (read_tag data offset) (\<lambda>(tag, wire_type, next).
        if tag = 1 \<and> wire_type = 2 then
          ebind (read_length_delimited data next MAX_NESTED) (\<lambda>(nested, next').
          ebind (parse_flow_message nested) (\<lambda>flow.
          addons_loop data next' (addons\<lparr>ad_flow := Some flow\<rparr>)))
        else if tag = 2 \<and> wire_type = 2 then
          ebind (read_length_delimited data next MAX_SEED) (\<lambda>(seed, next').
          addons_loop data next' (addons\<lparr>ad_seed := Some seed\<rparr>))
        else if wire_type = 0 then
          ebind (skip_varint data next) (\<lambda>next'. addons_loop data next' addons)
        else if wire_type = 1 then addons_loop data (next + 8) addons
        else if wire_type = 2 then
          ebind (read_length_delimited data next MAX_ADDONS_SKIP) (\<lambda>(_, next').
          addons_loop data next' addons)
        else if wire_type = 5 then addons_loop data (next + 4) addons
        else Err (InvalidWireType wire_type))
      else Ok addons)"
  by pat_completeness auto
termination
  by (relation "measure (\<lambda>(data, offset, _). length data - offset)") (auto dest!: field_next)

declare addons_loop.simps [simp del]

definition parse_addons :: "bytes \<Rightarrow> (vless_addons, addons_error) outcome" where
  "parse_addons data =
     (if data = [] then Ok addons_default else addons_loop data 0 addons_default)"

section \<open>Flow validation and builders\<close>

definition validate_flow ::
  "rstring option \<Rightarrow> rstring option \<Rightarrow> (unit, unsupported_flow) outcome" where
  "validate_flow flow user_flow =
     (let later =
        (case user_flow of
           Some expected \<Rightarrow>
             if expected \<noteq> [] \<and> flow \<noteq> Some expected then Err (FlowMismatch expected flow) else Ok ()
         | None \<Rightarrow> Ok ())
      in case flow of
           Some f \<Rightarrow>
             if f = FLOW_XTLS_VISION then Err Vision
             else if f \<noteq> [] then Err (UnknownFlow f)
             else later
         | None \<Rightarrow> later)"

definition build_flow_message :: "rstring \<Rightarrow> bytes" where
  "build_flow_message flow = [0x0A] @ [word_of_nat (length flow)] @ flow"

definition build_addons_with_flow :: "rstring \<Rightarrow> bytes" where
  "build_addons_with_flow flow =
     (let flow_msg = build_flow_message flow in [0x0A] @ [word_of_nat (length flow_msg)] @ flow_msg)"

section \<open>Every input gets an answer\<close>

lemma returns_read_varint_loop [simp]: "returns (read_varint_loop data result shift pos)"
proof (induction data result shift pos rule: read_varint_loop.induct)
  case (1 data result shift pos)
  show ?case
    using 1 [OF _ refl refl] by (subst read_varint_loop.simps) (simp add: Let_def)
qed

lemma returns_fields [simp]:
  "returns (read_varint data offset)" "returns (skip_varint data offset)"
  "returns (read_tag data offset)"
  by (auto simp: read_varint_def skip_varint_def read_tag_def Let_def intro!: returns_ebind)

lemma returns_read_length_delimited [simp]: "returns (read_length_delimited data offset m)"
  unfolding read_length_delimited_def
  by (rule returns_ebind) (auto simp: Let_def slice_def)

lemma returns_flow_loop [simp]: "returns (flow_loop data offset t)"
proof (induction data offset t rule: flow_loop.induct)
  case (1 data offset t)
  show ?case
    using 1 by (subst flow_loop.simps) (auto intro!: returns_ebind)
qed

lemma returns_addons_loop [simp]: "returns (addons_loop data offset a)"
proof (induction data offset a rule: addons_loop.induct)
  case (1 data offset a)
  show ?case
    using 1 by (subst addons_loop.simps) (auto simp: parse_flow_message_def intro!: returns_ebind)
qed

lemma returns_parse_addons [simp]: "returns (parse_addons data)"
  by (simp add: parse_addons_def)

section \<open>Varints as numbers\<close>

text \<open>The value of a base-128 sequence, least significant group first, without the machine width.\<close>

fun leb128 :: "bytes \<Rightarrow> nat" where
  "leb128 [] = 0"
| "leb128 (b # bs) = unat b mod 128 + 128 * leb128 bs"

definition varint_shape :: "bytes \<Rightarrow> bool" where
  "varint_shape bs \<longleftrightarrow> bs \<noteq> [] \<and> last bs < 128 \<and> (\<forall>b \<in> set (butlast bs). 128 \<le> b)"

lemma byte_low7: "unat (ucast ((b::u8) AND 0x7F) :: u64) = unat b mod 128"
proof -
  have "b AND 0x7F = take_bit 7 b" by (simp add: take_bit_eq_mask mask_eq_exp_minus_1)
  then have "unat (ucast (b AND 0x7F) :: u64) = take_bit 7 (unat b)"
    by (simp add: unsigned_ucast_eq unsigned_take_bit_eq)
  then show ?thesis by (simp add: take_bit_eq_mod)
qed

lemma byte_high: "((b::u8) AND 0x80 = 0) = (b < 128)"
proof -
  have "b AND 0x80 = 0 \<longleftrightarrow> \<not> bit b 7"
    using and_exp_eq_0_iff_not_bit [of b 7] by simp
  also have "bit b 7 = bit (unat b) 7" by (simp add: bit_unsigned_iff)
  also have "(\<not> bit (unat b) 7) \<longleftrightarrow> even (unat b div 2 ^ 7)" by (simp add: bit_iff_odd)
  also have "\<dots> \<longleftrightarrow> unat b < 128"
  proof (cases "unat b < 128")
    case False
    then have "unat b div 128 = 1" using unat_u8_bound [of b] by (intro div_nat_eqI) simp_all
    with False show ?thesis by simp
  qed simp
  finally show ?thesis by (simp add: word_less_nat_alt)
qed

lemma or_shift:
  assumes "take_bit s r = r"
  shows "r OR push_bit s (x::u64) = r + push_bit s x"
proof -
  have "\<not> bit r n \<or> \<not> bit (push_bit s x) n" for n
    using assms by (metis bit_push_bit_iff bit_take_bit_iff not_le)
  then show ?thesis by (rule disjunctive_add [symmetric])
qed

lemma take_bit_or_shift:
  assumes "take_bit s r = r" "take_bit 7 x = x"
  shows "take_bit (s + 7) (r OR push_bit s (x::u64)) = r OR push_bit s x"
proof (rule bit_word_eqI)
  fix n
  have "bit r n \<Longrightarrow> n < s" using assms(1) by (metis bit_take_bit_iff)
  moreover have "bit x (n - s) \<Longrightarrow> n - s < 7" using assms(2) by (metis bit_take_bit_iff)
  ultimately show "bit (take_bit (s + 7) (r OR push_bit s x)) n = bit (r OR push_bit s x) n"
    by (auto simp: bit_take_bit_iff bit_or_iff bit_push_bit_iff)
qed

lemma push_bit_u64: "push_bit s (x::u64) = word_of_nat (2 ^ s * unat x)"
  by (simp add: push_bit_eq_mult)

lemma low7_take_bit: "take_bit 7 (ucast ((b::u8) AND 0x7F) :: u64) = ucast (b AND 0x7F)"
proof -
  have "unat (take_bit 7 (ucast (b AND 0x7F) :: u64)) = unat b mod 128 mod 128"
    by (simp only: unsigned_take_bit_eq byte_low7) (simp add: take_bit_eq_mod)
  then show ?thesis by (simp add: word_unat_eq_iff byte_low7)
qed

lemma read_varint_loop_value:
  "read_varint_loop data r s pos = Ok (v, next) \<Longrightarrow> take_bit s r = r \<Longrightarrow>
     varint_shape (take (next - pos) (drop pos data)) \<and>
     v = r + word_of_nat (2 ^ s * leb128 (take (next - pos) (drop pos data)))"
proof (induction data r s pos rule: read_varint_loop.induct)
  case (1 data r s pos)
  let ?b = "data ! pos" and ?x = "ucast (data ! pos AND 0x7F) :: u64"
  have run: "pos < length data"
    "if ?b < 128 then v = r OR push_bit s ?x \<and> next = pos + 1
     else s + 7 \<le> 63 \<and> read_varint_loop data (r OR push_bit s ?x) (s + 7) (pos + 1) = Ok (v, next)"
    using 1(2) unfolding read_varint_loop.simps [of data r s pos]
    by (auto simp: Let_def byte_high split: if_split_asm)
  from run(1) have split: "drop pos data = ?b # drop (Suc pos) data" by (simp add: Cons_nth_drop_Suc)
  have or: "r OR push_bit s ?x = r + word_of_nat (2 ^ s * (unat ?b mod 128))"
    using or_shift [OF 1(3), of ?x] by (simp add: push_bit_u64 byte_low7)
  show ?case
  proof (cases "?b < 128")
    case True
    with run split or show ?thesis by (simp add: varint_shape_def)
  next
    case False
    with run have rec: "s + 7 \<le> 63"
      "read_varint_loop data (r OR push_bit s ?x) (s + 7) (pos + 1) = Ok (v, next)" by simp_all
    define bs where "bs = take (next - Suc pos) (drop (Suc pos) data)"
    from rec have nxt: "Suc pos < next" by (auto dest: read_varint_loop_next)
    then have eq: "take (next - pos) (drop pos data) = ?b # bs"
      unfolding split bs_def by (simp add: take_Cons' Suc_diff_Suc)
    have "varint_shape bs \<and> v = (r OR push_bit s ?x) + word_of_nat (2 ^ (s + 7) * leb128 bs)"
      using 1(1) [OF run(1) refl refl _ _ rec(2)] False rec(1) take_bit_or_shift [OF 1(3) low7_take_bit]
      by (simp add: byte_high bs_def)
    with False show ?thesis
      unfolding eq or by (simp add: varint_shape_def power_add algebra_simps)
  qed
qed

lemma read_varint_value:
  assumes "read_varint data pos = Ok (v, next)"
  shows "varint_shape (take (next - pos) (drop pos data)) \<and>
    v = word_of_nat (leb128 (take (next - pos) (drop pos data)))"
  using read_varint_loop_value [of data 0 0 pos v "next"] assms by (simp add: read_varint_def)

lemma read_varint_small [simp]:
  "pos < length data \<Longrightarrow> data ! pos < 128 \<Longrightarrow>
     read_varint data pos = Ok (ucast (data ! pos AND 0x7F), pos + 1)"
  by (simp add: read_varint_def read_varint_loop.simps byte_high)

section \<open>Flows\<close>

lemma ucast_of_nat_u64: "n < 128 \<Longrightarrow> (ucast ((word_of_nat n :: u8) AND 0x7F) :: u64) = word_of_nat n"
  by (simp add: word_unat_eq_iff byte_low7 unat_of_nat)

lemma read_flow_field:
  assumes "length body < 128" "length body \<le> m"
  shows "read_tag (0x0A # word_of_nat (length body) # body) 0 = Ok (1, 2, 1)"
    and "read_length_delimited (0x0A # word_of_nat (length body) # body) 1 m =
      Ok (body, length body + 2)"
proof -
  let ?d = "0x0A # word_of_nat (length body) # body :: bytes"
  have len: "(word_of_nat (length body) :: u8) < 128"
    using assms by (simp add: word_less_nat_alt)
  show "read_tag ?d 0 = Ok (1, 2, 1)"
    by (simp add: read_tag_def Let_def)
  show "read_length_delimited ?d 1 m = Ok (body, length body + 2)"
    using assms len
    by (simp add: read_length_delimited_def Let_def ucast_of_nat_u64 unat_of_nat slice_def)
qed

lemma parse_build_flow_message:
  assumes "utf8_valid flow" "length flow < 128"
  shows "parse_flow_message (build_flow_message flow) = Ok flow"
  using assms read_flow_field [of flow 128]
  by (simp add: parse_flow_message_def build_flow_message_def flow_loop.simps
      from_utf8_def)

lemma parse_build_addons:
  assumes "utf8_valid flow" "length flow \<le> 125"
  shows "parse_addons (build_addons_with_flow flow) = Ok \<lparr>ad_flow = Some flow, ad_seed = None\<rparr>"
  using assms read_flow_field [of "build_flow_message flow" 128] parse_build_flow_message [of flow]
  by (simp add: parse_addons_def build_addons_with_flow_def Let_def addons_loop.simps
      addons_default_def build_flow_message_def)

lemma validate_flow_Ok:
  "validate_flow flow user_flow = Ok () \<longleftrightarrow>
     (flow = None \<or> flow = Some []) \<and> (user_flow = None \<or> user_flow = Some [])"
  by (auto simp: validate_flow_def Let_def FLOW_XTLS_VISION_def lit_def split: option.splits)

lemma returns_validate_flow [simp]: "returns (validate_flow flow user_flow)"
  by (auto simp: validate_flow_def Let_def split: option.splits)

section \<open>Properties\<close>

text \<open>The addons reader answers every input. Its loops over protobuf fields end because each
  field moves the offset past at least one byte, and no slice is out of range.\<close>
lemma parse_addons_total: "returns (parse_addons data)"
  by simp

text \<open>A varint that is read is the base-128 number its bytes spell (little-endian groups of
  seven bits, the continuation bit set on all but the last), reduced to the 64 bits of the result.\<close>
lemma read_varint_is_leb128:
  assumes "read_varint data pos = Ok (v, next)"
  shows "varint_shape (take (next - pos) (drop pos data)) \<and>
    unat v = leb128 (take (next - pos) (drop pos data)) mod 2 ^ 64"
  using read_varint_value [OF assms] by (simp add: unat_of_nat)

text \<open>The only flow the server accepts is none at all, and a user whose configured flow is not
  empty is refused whatever flow the client asks for.\<close>
lemma flow_accepted_iff_empty:
  "validate_flow flow user_flow = Ok () \<longleftrightarrow>
     (flow = None \<or> flow = Some []) \<and> (user_flow = None \<or> user_flow = Some [])"
  by (rule validate_flow_Ok)

end
