(* ===== verification/Text_Format.thy ===== *)
theory Text_Format
  imports Prelude
begin

text \<open>
  The text operations of the standard library that the sources use on \<open>str\<close>: decimal output of
  integers, the UTF-8 encoding of a Latin-1 character, substring tests, trimming of ASCII white
  space and splitting. Strings are their UTF-8 bytes; the patterns of the sources are ASCII.
\<close>

section \<open>Decimal numbers\<close>

fun fmt_dec :: "nat \<Rightarrow> rstring" where
  "fmt_dec n = (if n < 10 then [word_of_nat (0x30 + n)] else fmt_dec (n div 10) @ [word_of_nat (0x30 + n mod 10)])"

declare fmt_dec.simps [simp del]

text \<open>The value of a digit string, most significant digit first.\<close>

fun dec_value :: "nat \<Rightarrow> rstring \<Rightarrow> nat" where
  "dec_value acc [] = acc"
| "dec_value acc (c # cs) = dec_value (acc * 10 + unat (c - 0x30)) cs"

lemma dec_value_append: "dec_value acc (xs @ ys) = dec_value (dec_value acc xs) ys"
  by (induction xs arbitrary: acc) simp_all

lemma unat_digit: "n < 10 \<Longrightarrow> unat (word_of_nat (0x30 + n) - 0x30 :: u8) = n"
  by (simp add: unat_of_nat)

lemma dec_value_fmt_dec: "dec_value 0 (fmt_dec n) = n"
proof (induction n rule: fmt_dec.induct)
  case (1 n)
  show ?case
  proof (cases "n < 10")
    case True
    then show ?thesis by (simp add: fmt_dec.simps [of n] unat_digit del: of_nat_add)
  next
    case False
    with 1 have "dec_value 0 (fmt_dec (n div 10)) = n div 10" by simp
    with False show ?thesis
      by (simp add: fmt_dec.simps [of n] dec_value_append unat_digit del: of_nat_add)
  qed
qed

lemma fmt_dec_inj: "fmt_dec m = fmt_dec n \<Longrightarrow> m = n"
  by (metis dec_value_fmt_dec)

lemma fmt_dec_digits: "c \<in> set (fmt_dec n) \<Longrightarrow> 0x30 \<le> c \<and> c \<le> 0x39"
proof (induction n rule: fmt_dec.induct)
  case (1 n)
  have digit: "0x30 \<le> (word_of_nat (0x30 + k) :: u8) \<and> (word_of_nat (0x30 + k) :: u8) \<le> 0x39" if "k < 10" for k
    using that by (simp add: word_le_nat_alt unat_of_nat del: of_nat_add)
  show ?case
  proof (cases "n < 10")
    case True
    with "1.prems" have "c = word_of_nat (0x30 + n)" by (simp add: fmt_dec.simps [of n])
    with digit [OF True] show ?thesis by blast
  next
    case False
    with "1.prems" have "c \<in> set (fmt_dec (n div 10)) \<or> c = word_of_nat (0x30 + n mod 10)"
      by (auto simp add: fmt_dec.simps [of n] simp del: of_nat_add)
    with False "1.IH" digit [of "n mod 10"] show ?thesis by fastforce
  qed
qed

lemma fmt_dec_not_Nil [simp]: "fmt_dec n \<noteq> []"
  by (subst fmt_dec.simps) simp

section \<open>Hexadecimal digits\<close>

text \<open>\<open>{:02x}\<close> prints two lower-case digits.\<close>

definition hex_digit :: "nat \<Rightarrow> u8" where
  "hex_digit n = (if n < 10 then word_of_nat (0x30 + n) else word_of_nat (0x57 + n))"

definition fmt_02x :: "u8 \<Rightarrow> rstring" where
  "fmt_02x b = [hex_digit (unat b div 16), hex_digit (unat b mod 16)]"

section \<open>Characters\<close>

text \<open>\<open>b as char\<close> is the character with code \<open>b\<close>, written in UTF-8.\<close>

definition fmt_char :: "u8 \<Rightarrow> rstring" where
  "fmt_char b = (if b < 0x80 then [b]
     else [word_of_nat (0xC0 + unat b div 64), word_of_nat (0x80 + unat b mod 64)])"

section \<open>Substrings\<close>

fun starts_with :: "rstring \<Rightarrow> rstring \<Rightarrow> bool" where
  "starts_with s [] = True"
| "starts_with [] (p # ps) = False"
| "starts_with (c # cs) (p # ps) = (c = p \<and> starts_with cs ps)"

fun contains :: "rstring \<Rightarrow> rstring \<Rightarrow> bool" where
  "contains [] p = (p = [])"
| "contains (c # cs) p = (starts_with (c # cs) p \<or> contains cs p)"

lemma starts_with_iff: "starts_with s p \<longleftrightarrow> (\<exists>r. s = p @ r)"
  by (induction s p rule: starts_with.induct) auto

lemma contains_iff: "contains s p \<longleftrightarrow> (\<exists>l r. s = l @ p @ r)"
proof (induction s)
  case (Cons c s)
  show ?case
  proof
    assume "contains (c # s) p"
    then consider "starts_with (c # s) p" | "contains s p" by auto
    then show "\<exists>l r. c # s = l @ p @ r"
    proof cases
      case 1
      then obtain r where "c # s = p @ r" using starts_with_iff by blast
      then have "c # s = [] @ p @ r" by simp
      then show ?thesis by blast
    next
      case 2
      then obtain l r where "s = l @ p @ r" using Cons by blast
      then have "c # s = (c # l) @ p @ r" by simp
      then show ?thesis by blast
    qed
  next
    assume "\<exists>l r. c # s = l @ p @ r"
    then obtain l r where eq: "c # s = l @ p @ r" by blast
    show "contains (c # s) p"
    proof (cases l)
      case Nil
      with eq have "starts_with (c # s) p" by (auto simp: starts_with_iff)
      then show ?thesis by simp
    next
      case (Cons d l')
      with eq Cons.IH show ?thesis by auto
    qed
  qed
qed simp

section \<open>White space\<close>

text \<open>
  The characters with the Unicode property \<open>White_Space\<close>, as UTF-8: how many bytes of one of them
  a string begins with, and how many it ends with (on the reversed string).
\<close>

definition ws_ascii :: "u8 \<Rightarrow> bool" where
  "ws_ascii b \<longleftrightarrow> (0x09 \<le> b \<and> b \<le> 0x0D) \<or> b = 0x20"

definition ws_two :: "u8 \<Rightarrow> u8 \<Rightarrow> bool" where
  "ws_two a b \<longleftrightarrow> a = 0xC2 \<and> (b = 0x85 \<or> b = 0xA0)"

definition ws_three :: "u8 \<Rightarrow> u8 \<Rightarrow> u8 \<Rightarrow> bool" where
  "ws_three a b c \<longleftrightarrow>
     a = 0xE1 \<and> b = 0x9A \<and> c = 0x80 \<or>
     a = 0xE2 \<and> b = 0x80 \<and> (0x80 \<le> c \<and> c \<le> 0x8A \<or> c = 0xA8 \<or> c = 0xA9 \<or> c = 0xAF) \<or>
     a = 0xE2 \<and> b = 0x81 \<and> c = 0x9F \<or>
     a = 0xE3 \<and> b = 0x80 \<and> c = 0x80"

fun trim_start :: "rstring \<Rightarrow> rstring" where
  "trim_start (a # s) =
     (if ws_ascii a then trim_start s
      else case s of
          b # s' \<Rightarrow>
            (if ws_two a b then trim_start s'
             else case s' of c # s'' \<Rightarrow> if ws_three a b c then trim_start s'' else a # s | [] \<Rightarrow> a # s)
        | [] \<Rightarrow> a # s)"
| "trim_start [] = []"

fun trim_end_rev :: "rstring \<Rightarrow> rstring" where
  "trim_end_rev (a # s) =
     (if ws_ascii a then trim_end_rev s
      else case s of
          b # s' \<Rightarrow>
            (if ws_two b a then trim_end_rev s'
             else case s' of c # s'' \<Rightarrow> if ws_three c b a then trim_end_rev s'' else a # s | [] \<Rightarrow> a # s)
        | [] \<Rightarrow> a # s)"
| "trim_end_rev [] = []"

text \<open>\<open>str::trim\<close>.\<close>

definition trim :: "rstring \<Rightarrow> rstring" where
  "trim s = rev (trim_end_rev (rev (trim_start s)))"

lemma trim_Nil [simp]: "trim [] = []"
  by (simp add: trim_def)

section \<open>Searching\<close>

lemma starts_with_prefix [simp]: "starts_with (p @ r) p"
  by (simp add: starts_with_iff)

text \<open>\<open>str::find\<close>: the offset of the first occurrence.\<close>

fun str_find :: "rstring \<Rightarrow> rstring \<Rightarrow> nat option" where
  "str_find [] p = (if p = [] then Some 0 else None)"
| "str_find (c # cs) p = (if starts_with (c # cs) p then Some 0 else map_option Suc (str_find cs p))"

lemma str_find_first:
  "starts_with (drop n s) p \<Longrightarrow> \<forall>i < n. \<not> starts_with (drop i s) p \<Longrightarrow> str_find s p = Some n"
proof (induction s arbitrary: n)
  case Nil
  then show ?case by (cases p; cases n) auto
next
  case (Cons c s)
  show ?case
  proof (cases n)
    case 0
    with Cons.prems show ?thesis by simp
  next
    case (Suc m)
    moreover have "\<forall>i < m. \<not> starts_with (drop i s) p"
    proof (intro allI impI)
      fix i assume "i < m"
      with Suc Cons.prems(2) show "\<not> starts_with (drop i s) p" by (auto dest: spec [of _ "Suc i"])
    qed
    ultimately have "str_find s p = Some m" using Cons by auto
    with Suc Cons.prems(2) show ?thesis by (auto dest: spec [of _ 0])
  qed
qed

lemma str_find_Some: "str_find s p = Some n \<Longrightarrow> i < n \<Longrightarrow> \<not> starts_with (drop i s) p"
proof (induction s arbitrary: n i)
  case (Cons c s)
  then show ?case by (cases i) (auto split: if_splits)
qed (simp split: if_splits)

end
