(* ===== verification/Vless_Auth.thy ===== *)
theory Vless_Auth
  imports Text_Format
begin

text \<open>
  VLESS users (\<open>crates/skadi-protocol/src/vless/config.rs\<close>): the textual form of a UUID and the
  lookup of a user by the 16 bytes a client presents.
\<close>

unbundle bit_operations_syntax

section \<open>UUIDs\<close>

datatype uuid_parse_error = BadLength nat | BadHex u8

definition hex_val :: "u8 \<Rightarrow> (u8, uuid_parse_error) outcome" where
  "hex_val b =
     (if 0x30 \<le> b \<and> b \<le> 0x39 then Ok (b - 0x30)
      else if 0x61 \<le> b \<and> b \<le> 0x66 then Ok (b - 0x61 + 10)
      else if 0x41 \<le> b \<and> b \<le> 0x46 then Ok (b - 0x41 + 10)
      else Err (BadHex b))"

text \<open>The loop over the sixteen bytes: \<open>todo\<close> are the indices still to fill.\<close>

fun uuid_loop :: "bytes \<Rightarrow> nat list \<Rightarrow> (bytes, uuid_parse_error) outcome" where
  "uuid_loop clean [] = Ok []"
| "uuid_loop clean (i # todo) =
     ebind (idx clean (i * 2)) (\<lambda>h.
     ebind (hex_val h) (\<lambda>hi.
     ebind (idx clean (i * 2 + 1)) (\<lambda>l.
     ebind (hex_val l) (\<lambda>lo.
     ebind (uuid_loop clean todo) (\<lambda>rest. Ok ((push_bit 4 hi OR lo) # rest))))))"

definition uuid_parse :: "rstring \<Rightarrow> (bytes, uuid_parse_error) outcome" where
  "uuid_parse s =
     (let clean = filter (\<lambda>c. c \<noteq> 0x2D) s in
      if length clean \<noteq> 32 then Err (BadLength (length clean))
      else uuid_loop clean [0..<16])"

definition uuid_display :: "bytes \<Rightarrow> rstring" where
  "uuid_display b =
     concat (map fmt_02x (take 4 b)) @ [0x2D] @
     concat (map fmt_02x (take 2 (drop 4 b))) @ [0x2D] @
     concat (map fmt_02x (take 2 (drop 6 b))) @ [0x2D] @
     concat (map fmt_02x (take 2 (drop 8 b))) @ [0x2D] @
     concat (map fmt_02x (take 6 (drop 10 b)))"

section \<open>Users\<close>

record vless_user =
  vu_id :: rstring
  vu_email :: "rstring option"
  vu_flow :: "rstring option"

record vless_config =
  vl_enabled :: bool
  vl_users :: "vless_user list"

fun auth_loop :: "ct_eq \<Rightarrow> vless_user list \<Rightarrow> bytes \<Rightarrow> vless_user option" where
  "auth_loop ct [] candidate = None"
| "auth_loop ct (user # users) candidate =
     (case uuid_parse (vu_id user) of
        Ok uuid \<Rightarrow> if ct uuid candidate then Some user else auth_loop ct users candidate
      | _ \<Rightarrow> auth_loop ct users candidate)"

definition authenticate :: "ct_eq \<Rightarrow> vless_config \<Rightarrow> bytes \<Rightarrow> vless_user option" where
  "authenticate ct cfg candidate = auth_loop ct (vl_users cfg) candidate"

section \<open>Parsing\<close>

lemma returns_hex_val [simp]: "returns (hex_val b)"
  by (simp add: hex_val_def)

lemma returns_uuid_loop: "\<forall>i \<in> set todo. i * 2 + 1 < length clean \<Longrightarrow> returns (uuid_loop clean todo)"
  by (induction todo) (auto simp: idx_def intro!: returns_ebind)

lemma returns_uuid_parse [simp]: "returns (uuid_parse s)"
  unfolding uuid_parse_def Let_def
  by (cases "length (filter (\<lambda>c. c \<noteq> 0x2D) s) = 32") (auto intro!: returns_uuid_loop)

lemma length_uuid_loop: "uuid_loop clean todo = Ok u \<Longrightarrow> length u = length todo"
  by (induction todo arbitrary: u) (auto simp: ebind_eq_Ok_conv)

lemma uuid_parse_length: "uuid_parse s = Ok u \<Longrightarrow> length u = 16"
  by (auto simp: uuid_parse_def Let_def dest: length_uuid_loop split: if_split_asm)

section \<open>Printing and parsing\<close>

lemma all_digits:
  "list_all (\<lambda>n. hex_val (hex_digit n) = Ok (word_of_nat n) \<and> hex_digit n \<noteq> 0x2D) [0..<16]"
  by (simp add: upt_rec hex_digit_def hex_val_def)

lemma hex_val_digit: "n < 16 \<Longrightarrow> hex_val (hex_digit n) = Ok (word_of_nat n)"
  using all_digits by (simp add: list_all_iff)

lemma hex_digit_not_dash: "n < 16 \<Longrightarrow> hex_digit n \<noteq> 0x2D"
  using all_digits by (simp add: list_all_iff)

lemma byte_nibbles [simp]: "unat (b::u8) div 16 < 16" "unat b mod 16 < 16"
  using unat_u8_bound [of b] by (simp_all add: less_mult_imp_div_less)

lemma nibbles: "push_bit 4 (word_of_nat (unat b div 16)) OR word_of_nat (unat b mod 16) = (b::u8)"
proof -
  have "word_of_nat (unat b div 16) = drop_bit 4 b"
  proof -
    have "unat (drop_bit 4 b) = unat b div 16"
      by (simp add: drop_bit_eq_div unat_div_distrib)
    then show ?thesis
      by (simp only: word_unat_eq_iff) (simp add: unat_of_nat less_trans [OF byte_nibbles(1)])
  qed
  moreover have "word_of_nat (unat b mod 16) = take_bit 4 b"
    by (simp add: word_unat_eq_iff take_bit_eq_mod unat_mod_distrib)
  ultimately show ?thesis
    by (auto intro!: bit_word_eqI simp: bit_or_iff bit_push_bit_iff bit_drop_bit_eq bit_take_bit_iff)
qed

lemma filter_fmt: "filter (\<lambda>c. c \<noteq> 0x2D) (concat (map fmt_02x bs)) = concat (map fmt_02x bs)"
  by (induction bs) (simp_all add: fmt_02x_def hex_digit_not_dash)

lemma filter_uuid_display:
  assumes "length b = 16"
  shows "filter (\<lambda>c. c \<noteq> 0x2D) (uuid_display b) = concat (map fmt_02x b)"
proof -
  have "b = take 4 b @ take 2 (drop 4 b) @ take 2 (drop 6 b) @ take 2 (drop 8 b) @ take 6 (drop 10 b)"
    using assms take_add [of 4 2 b] take_add [of 6 2 b] take_add [of 8 2 b] take_add [of 10 6 b]
    by simp
  then have "concat (map fmt_02x b) = concat (map fmt_02x (take 4 b @ take 2 (drop 4 b) @
      take 2 (drop 6 b) @ take 2 (drop 8 b) @ take 6 (drop 10 b)))" by simp
  then show ?thesis by (simp add: uuid_display_def filter_fmt)
qed

lemma length_fmt [simp]: "length (concat (map fmt_02x bs)) = 2 * length bs"
  by (induction bs) (simp_all add: fmt_02x_def)

lemma nth_fmt:
  "i < length bs \<Longrightarrow> concat (map fmt_02x bs) ! (i * 2) = hex_digit (unat (bs ! i) div 16) \<and>
     concat (map fmt_02x bs) ! Suc (i * 2) = hex_digit (unat (bs ! i) mod 16)"
proof (induction bs arbitrary: i)
  case (Cons b bs)
  then show ?case by (cases i) (simp_all add: fmt_02x_def)
qed simp

lemma uuid_loop_fmt:
  "\<forall>i \<in> set todo. i < length b \<Longrightarrow>
     uuid_loop (concat (map fmt_02x b)) todo = Ok (map (\<lambda>i. b ! i) todo)"
proof (induction todo)
  case (Cons i todo)
  then have "i < length b" by simp
  with nth_fmt [of i b] Cons show ?case by (simp add: idx_def hex_val_digit nibbles)
qed simp

lemma uuid_parse_display: "length b = 16 \<Longrightarrow> uuid_parse (uuid_display b) = Ok b"
  using map_nth [of b] by (simp add: uuid_parse_def Let_def filter_uuid_display uuid_loop_fmt)

section \<open>Authentication\<close>

lemma auth_loop_find:
  assumes "ct_eq_spec ct" and "length candidate = 16"
  shows "auth_loop ct users candidate = find (\<lambda>u. uuid_parse (vu_id u) = Ok candidate) users"
proof (induction users)
  case (Cons user users)
  have "uuid_parse (vu_id user) = Ok u \<Longrightarrow> ct u candidate = (u = candidate)" for u
    using ct_eq_specD [OF assms(1)] assms(2) by (metis uuid_parse_length)
  with Cons show ?case by (cases "uuid_parse (vu_id user)") auto
qed simp

lemma authenticate_find:
  "ct_eq_spec ct \<Longrightarrow> length candidate = 16 \<Longrightarrow>
     authenticate ct cfg candidate = find (\<lambda>u. uuid_parse (vu_id u) = Ok candidate) (vl_users cfg)"
  by (simp add: authenticate_def auth_loop_find)

end
