(* ===== verification/Stream_IO.thy ===== *)
theory Stream_IO
  imports Endpoint
begin

text \<open>
  Asynchronous byte streams. The handshake code is generic in its stream
  (\<open>S: AsyncRead + AsyncWrite\<close>), so its model takes the two operations it calls, \<open>read_exact\<close> and
  \<open>write_all\<close> of the async runtime, as arguments. What the code relies on is the locale
  \<open>byte_stream\<close>: seen through a view, the operations read from a sequence of bytes and append to
  another. \<open>flat_read\<close> and \<open>flat_write\<close> state that documented behaviour on the view itself. The
  one-byte \<open>PrefixedStream\<close> of \<open>crates/skadi-server/src/prefixed.rs\<close> and the
  \<open>BufferedPrefixStream\<close> of \<open>crates/skadi-transport/src/reality/prefixed.rs\<close> are shown to keep the
  contract.
\<close>

section \<open>Computations on a stream\<close>

type_synonym ('s, 'a, 'e) io = "'s \<Rightarrow> ('a, 'e) outcome \<times> 's"

definition io_bind :: "('s, 'a, 'e) io \<Rightarrow> ('a \<Rightarrow> ('s, 'b, 'e) io) \<Rightarrow> ('s, 'b, 'e) io" where
  "io_bind m f s =
     (case m s of
        (Ok x, s') \<Rightarrow> f x s'
      | (Err e, s') \<Rightarrow> (Err e, s')
      | (Panic, s') \<Rightarrow> (Panic, s')
      | (Pending, s') \<Rightarrow> (Pending, s'))"

definition io_lift :: "('a, 'e) outcome \<Rightarrow> ('s, 'a, 'e) io" where
  "io_lift r s = (r, s)"

definition io_map_err :: "('e \<Rightarrow> 'f) \<Rightarrow> ('s, 'a, 'e) io \<Rightarrow> ('s, 'a, 'f) io" where
  "io_map_err f m s = (map_err f (fst (m s)), snd (m s))"

text \<open>\<open>let _ = m.await;\<close> runs \<open>m\<close> and drops its result, an error included.\<close>

definition io_ignore :: "('s, 'a, 'e) io \<Rightarrow> ('s, unit, 'f) io" where
  "io_ignore m s =
     (case m s of
        (Ok x, s') \<Rightarrow> (Ok (), s')
      | (Err e, s') \<Rightarrow> (Ok (), s')
      | (Panic, s') \<Rightarrow> (Panic, s')
      | (Pending, s') \<Rightarrow> (Pending, s'))"

text \<open>\<open>tokio::time::timeout\<close>: a future that never becomes ready yields the timeout error.\<close>

definition io_timeout :: "'e \<Rightarrow> ('s, 'a, 'e) io \<Rightarrow> ('s, 'a, 'e) io" where
  "io_timeout e m s = (case m s of (Pending, s') \<Rightarrow> (Err e, s') | (r, s') \<Rightarrow> (r, s'))"

lemma io_bind_Ok: "io_bind m f s = (Ok y, t) \<longleftrightarrow> (\<exists>x u. m s = (Ok x, u) \<and> f x u = (Ok y, t))"
  by (auto simp: io_bind_def split: prod.splits outcome.splits)

lemma io_bind_simps [simp]:
  "m s = (Ok x, u) \<Longrightarrow> io_bind m f s = f x u"
  "m s = (Err e, u) \<Longrightarrow> io_bind m f s = (Err e, u)"
  "m s = (Panic, u) \<Longrightarrow> io_bind m f s = (Panic, u)"
  "m s = (Pending, u) \<Longrightarrow> io_bind m f s = (Pending, u)"
  by (simp_all add: io_bind_def)

lemma io_map_err_Ok [simp]: "io_map_err f m s = (Ok x, t) \<longleftrightarrow> m s = (Ok x, t)"
  by (auto simp: io_map_err_def prod_eq_iff)

lemma io_lift_Ok [simp]: "io_lift r s = (Ok x, t) \<longleftrightarrow> r = Ok x \<and> t = s"
  by (auto simp: io_lift_def)

lemma io_timeout_Ok [simp]: "io_timeout e m s = (Ok x, t) \<longleftrightarrow> m s = (Ok x, t)"
  by (auto simp: io_timeout_def split: prod.splits outcome.splits)

lemma io_timeout_not_Pending: "fst (io_timeout e m s) \<noteq> Pending"
  by (auto simp: io_timeout_def split: prod.splits outcome.splits)

section \<open>The byte sequences behind a stream\<close>

text \<open>
  \<open>rx\<close> is what the peer sends before it closes, stalls for longer than any deadline, or the
  connection fails; \<open>tx\<close> is what was written; \<open>tx_room\<close>, when present, is how many more bytes the
  connection accepts before a write fails.
\<close>

datatype rx_end = Closed | Stalled | Failed io_kind

record stream =
  rx :: bytes
  rx_end :: rx_end
  tx :: bytes
  tx_room :: "nat option"

definition flat_read :: "nat \<Rightarrow> (stream, bytes, io_kind) io" where
  "flat_read n s =
     (if n \<le> length (rx s) then (Ok (take n (rx s)), s\<lparr>rx := drop n (rx s)\<rparr>)
      else (case rx_end s of Closed \<Rightarrow> Err UnexpectedEof | Stalled \<Rightarrow> Pending | Failed k \<Rightarrow> Err k,
            s\<lparr>rx := []\<rparr>))"

definition flat_write :: "bytes \<Rightarrow> (stream, unit, io_kind) io" where
  "flat_write bs s =
     (case tx_room s of
        None \<Rightarrow> (Ok (), s\<lparr>tx := tx s @ bs\<rparr>)
      | Some k \<Rightarrow>
          if length bs \<le> k then (Ok (), s\<lparr>tx := tx s @ bs, tx_room := Some (k - length bs)\<rparr>)
          else (Err BrokenPipe, s\<lparr>tx := tx s @ take k bs, tx_room := Some 0\<rparr>))"

lemma flat_read_Ok:
  "flat_read n s = (Ok bs, t) \<longleftrightarrow>
     n \<le> length (rx s) \<and> bs = take n (rx s) \<and> t = s\<lparr>rx := drop n (rx s)\<rparr>"
  by (auto simp: flat_read_def split: rx_end.splits)

lemma flat_read_length: "flat_read n s = (Ok bs, t) \<Longrightarrow> length bs = n \<and> rx s = bs @ rx t \<and> tx t = tx s"
  by (auto simp: flat_read_Ok)

lemma flat_read_append [simp]:
  "flat_read (length p) \<lparr>rx = p @ r, rx_end = e, tx = w, tx_room = k\<rparr> =
     (Ok p, \<lparr>rx = r, rx_end = e, tx = w, tx_room = k\<rparr>)"
  by (simp add: flat_read_def)

text \<open>Running the code's constructs on the view: every equation removes one of them.\<close>

definition short_read :: "(io_kind \<Rightarrow> 'e) \<Rightarrow> rx_end \<Rightarrow> ('a, 'e) outcome" where
  "short_read f e =
     (case e of Closed \<Rightarrow> Err (f UnexpectedEof) | Stalled \<Rightarrow> Pending | Failed k \<Rightarrow> Err (f k))"

lemma short_read_simps [simp]:
  "short_read f e \<noteq> Ok x" "short_read f e \<noteq> Panic" "Ok x \<noteq> short_read f e"
  "short_read f Stalled = Pending" "short_read f Closed = Err (f UnexpectedEof)"
  by (auto simp: short_read_def split: rx_end.splits)

named_theorems run_simps \<open>execution on the view\<close>

lemma run_read [run_simps]:
  "io_bind (io_map_err f (flat_read n)) g s =
     (if n \<le> length (rx s) then g (take n (rx s)) (s\<lparr>rx := drop n (rx s)\<rparr>)
      else (short_read f (rx_end s), s\<lparr>rx := []\<rparr>))"
  by (simp add: io_bind_def io_map_err_def flat_read_def short_read_def split: rx_end.split)

lemma run_write [run_simps]:
  "tx_room s = None \<Longrightarrow>
     io_bind (io_map_err f (flat_write bs)) g s = g () (s\<lparr>tx := tx s @ bs\<rparr>)"
  by (simp add: io_bind_def io_map_err_def flat_write_def)

lemma run_ignore_write [run_simps]:
  "tx_room s = None \<Longrightarrow>
     io_bind (io_ignore (io_map_err f (flat_write bs))) g s = g () (s\<lparr>tx := tx s @ bs\<rparr>)"
  by (simp add: io_bind_def io_ignore_def io_map_err_def flat_write_def)

lemma run_lift [run_simps]:
  "io_bind (io_lift (Ok x)) g s = g x s"
  "io_bind (io_lift (Err e)) g s = (Err e, s)"
  "io_bind (io_lift Panic) g s = (Panic, s)"
  "io_bind (io_lift Pending) g s = (Pending, s)"
  "io_lift r s = (r, s)"
  by (simp_all add: io_bind_def io_lift_def)

lemma run_idx [run_simps]:
  "i < length xs \<Longrightarrow> io_bind (io_lift (idx xs i)) g s = g (xs ! i) s"
  by (simp add: io_bind_def io_lift_def idx_def)

lemma run_parse [run_simps]:
  "io_bind (io_lift (map_err f r)) g s =
     (case r of Ok x \<Rightarrow> g x s | Err e \<Rightarrow> (Err (f e), s) | Panic \<Rightarrow> (Panic, s) | Pending \<Rightarrow> (Pending, s))"
  by (cases r) (simp_all add: io_bind_def io_lift_def)

lemma run_bind_assoc [run_simps]: "io_bind (io_bind m f) g = io_bind m (\<lambda>x. io_bind (f x) g)"
  by (rule ext) (auto simp: io_bind_def split: prod.splits outcome.splits)

lemma run_bind_if [run_simps]: "io_bind (if b then m else n) g = (if b then io_bind m g else io_bind n g)"
  by simp

section \<open>Weakest preconditions\<close>

text \<open>
  \<open>wp m Q E P s\<close>: run from \<open>s\<close>, \<open>m\<close> does not panic; it ends in \<open>Q\<close> when it succeeds, in \<open>E\<close> when
  it fails, and in \<open>P\<close> when it waits for ever. The equations compute it along the code.
\<close>

definition wp ::
  "('s, 'a, 'e) io \<Rightarrow> ('a \<Rightarrow> 's \<Rightarrow> bool) \<Rightarrow> ('e \<Rightarrow> 's \<Rightarrow> bool) \<Rightarrow> ('s \<Rightarrow> bool) \<Rightarrow> 's \<Rightarrow> bool" where
  "wp m Q E P s =
     (case m s of
        (Ok x, t) \<Rightarrow> Q x t
      | (Err e, t) \<Rightarrow> E e t
      | (Panic, t) \<Rightarrow> False
      | (Pending, t) \<Rightarrow> P t)"

named_theorems wp_simps \<open>weakest preconditions of the code's constructs\<close>

lemma wp_bind [wp_simps]: "wp (io_bind m f) Q E P s = wp m (\<lambda>x. wp (f x) Q E P) E P s"
  by (auto simp: wp_def io_bind_def split: prod.splits outcome.splits)

lemma wp_lift [wp_simps]:
  "wp (io_lift (Ok x)) Q E P s = Q x s"
  "wp (io_lift (Err e)) Q E P s = E e s"
  "wp (io_lift Panic) Q E P s = False"
  "wp (io_lift Pending) Q E P s = P s"
  by (simp_all add: wp_def io_lift_def)

lemma wp_map_err [wp_simps]: "wp (io_map_err f m) Q E P s = wp m Q (\<lambda>e. E (f e)) P s"
  by (auto simp: wp_def io_map_err_def split: prod.splits outcome.splits)

lemma wp_ignore [wp_simps]: "wp (io_ignore m) Q E P s = wp m (\<lambda>_. Q ()) (\<lambda>_. Q ()) P s"
  by (auto simp: wp_def io_ignore_def split: prod.splits outcome.splits)

lemma wp_timeout [wp_simps]: "wp (io_timeout e m) Q E P s = wp m Q E (E e) s"
  by (auto simp: wp_def io_timeout_def split: prod.splits outcome.splits)

lemma wp_if [wp_simps]: "wp (if b then m else n) Q E P s = (if b then wp m Q E P s else wp n Q E P s)"
  by simp

lemma wp_flat_read [wp_simps]:
  "wp (flat_read n) Q E P s =
     (if n \<le> length (rx s) then Q (take n (rx s)) (s\<lparr>rx := drop n (rx s)\<rparr>)
      else case rx_end s of
          Closed \<Rightarrow> E UnexpectedEof (s\<lparr>rx := []\<rparr>)
        | Stalled \<Rightarrow> P (s\<lparr>rx := []\<rparr>)
        | Failed k \<Rightarrow> E k (s\<lparr>rx := []\<rparr>))"
  by (simp add: wp_def flat_read_def split: rx_end.split)

lemma wp_mono:
  assumes "wp m Q E P s" and "\<And>x t. Q x t \<Longrightarrow> Q' x t" and "\<And>e t. E e t \<Longrightarrow> E' e t"
    and "\<And>t. P t \<Longrightarrow> P' t"
  shows "wp m Q' E' P' s"
  using assms by (auto simp: wp_def split: prod.splits outcome.splits)

lemma wp_Ok: "wp m Q E P s \<Longrightarrow> m s = (Ok x, t) \<Longrightarrow> Q x t"
  by (simp add: wp_def)

lemma wp_Err: "wp m Q E P s \<Longrightarrow> m s = (Err e, t) \<Longrightarrow> E e t"
  by (simp add: wp_def)

lemma wp_returns: "wp m Q E (\<lambda>_. False) s \<Longrightarrow> returns (fst (m s))"
  by (auto simp: wp_def split: prod.splits outcome.splits)

section \<open>Absence of panics\<close>

definition no_panic :: "('s, 'a, 'e) io \<Rightarrow> bool" where
  "no_panic m \<longleftrightarrow> (\<forall>s t. m s \<noteq> (Panic, t))"

lemma no_panic_lift: "r \<noteq> Panic \<Longrightarrow> no_panic (io_lift r)"
  by (simp add: no_panic_def io_lift_def)

lemma no_panic_returns: "returns r \<Longrightarrow> no_panic (io_lift (map_err f r))"
  by (cases r) (simp_all add: no_panic_def io_lift_def)

lemma no_panic_bind: "no_panic m \<Longrightarrow> (\<And>x. no_panic (f x)) \<Longrightarrow> no_panic (io_bind m f)"
  by (auto simp: no_panic_def io_bind_def split: prod.splits outcome.splits)

lemma no_panic_idx:
  "i < length xs \<Longrightarrow> (\<And>x. no_panic (f x)) \<Longrightarrow> no_panic (io_bind (io_lift (idx xs i)) f)"
  by (simp add: no_panic_def run_idx)

lemma no_panic_fst: "no_panic m \<Longrightarrow> fst (m s) \<noteq> Panic"
  by (metis no_panic_def prod.collapse)

lemma map_err_Panic [simp]: "map_err f r = Panic \<longleftrightarrow> r = Panic"
  by (cases r) simp_all

lemma no_panic_map_err: "no_panic m \<Longrightarrow> no_panic (io_map_err f m)"
  by (simp add: no_panic_def [of "io_map_err f m"] io_map_err_def no_panic_fst)

lemma no_panic_ignore: "no_panic m \<Longrightarrow> no_panic (io_ignore m)"
  by (auto simp: no_panic_def io_ignore_def split: prod.splits outcome.splits)

lemma no_panic_timeout: "no_panic m \<Longrightarrow> no_panic (io_timeout e m)"
  by (auto simp: no_panic_def io_timeout_def split: prod.splits outcome.splits)

lemma no_panic_if: "(b \<Longrightarrow> no_panic m) \<Longrightarrow> (\<not> b \<Longrightarrow> no_panic n) \<Longrightarrow> no_panic (if b then m else n)"
  by simp

lemma no_panic_let: "(\<And>x. no_panic (f x)) \<Longrightarrow> no_panic (Let a f)"
  by simp

lemma no_panic_option:
  "no_panic m \<Longrightarrow> (\<And>x. no_panic (f x)) \<Longrightarrow> no_panic (case a of None \<Rightarrow> m | Some x \<Rightarrow> f x)"
  by (cases a) simp_all

lemmas no_panic_rules = no_panic_returns no_panic_lift no_panic_idx no_panic_bind no_panic_map_err
  no_panic_ignore no_panic_timeout no_panic_if no_panic_let no_panic_option

lemma no_panic_timeout_returns: "no_panic m \<Longrightarrow> returns (fst (io_timeout e m s))"
  using no_panic_fst [OF no_panic_timeout [of m e], of s] io_timeout_not_Pending [of e m s]
  by (cases "fst (io_timeout e m s)") simp_all

lemma no_panic_slice:
  "a \<le> b \<Longrightarrow> b \<le> length xs \<Longrightarrow> (\<And>x. no_panic (f x)) \<Longrightarrow>
     no_panic (io_bind (io_lift (slice xs a b)) f)"
  by (simp add: no_panic_def slice_def run_lift)

section \<open>Computations that send nothing\<close>

definition quiet :: "(stream, 'a, 'e) io \<Rightarrow> bool" where
  "quiet m \<longleftrightarrow> (\<forall>s r t. m s = (r, t) \<longrightarrow> tx t = tx s \<and> tx_room t = tx_room s)"

lemma quietD: "quiet m \<Longrightarrow> m s = (r, t) \<Longrightarrow> tx t = tx s \<and> tx_room t = tx_room s"
  unfolding quiet_def by blast

lemma quiet_read: "quiet (flat_read n)"
  by (auto simp: quiet_def flat_read_def split: rx_end.splits)

lemma quiet_lift: "quiet (io_lift r)"
  by (simp add: quiet_def io_lift_def)

lemma quiet_map_err: "quiet m \<Longrightarrow> quiet (io_map_err f m)"
  unfolding quiet_def io_map_err_def by (metis prod.collapse prod.inject)

lemma quiet_bind:
  assumes "quiet m" and "\<And>x. quiet (f x)"
  shows "quiet (io_bind m f)"
  unfolding quiet_def
proof (intro allI impI)
  fix s r t
  assume run: "io_bind m f s = (r, t)"
  obtain r1 u where m: "m s = (r1, u)" by (cases "m s")
  from run quietD [OF assms(1) m] show "tx t = tx s \<and> tx_room t = tx_room s"
    using quietD [OF assms(2), of _ u r t] m by (cases r1) simp_all
qed

lemma quiet_if: "(b \<Longrightarrow> quiet m) \<Longrightarrow> (\<not> b \<Longrightarrow> quiet n) \<Longrightarrow> quiet (if b then m else n)"
  by simp

lemma quiet_let: "(\<And>x. quiet (f x)) \<Longrightarrow> quiet (Let a f)"
  by simp

lemmas quiet_rules = quiet_read quiet_lift quiet_map_err quiet_bind quiet_if quiet_let

section \<open>The contract\<close>

text \<open>Two computations agree through a view of the first one's stream.\<close>

definition sim :: "('s \<Rightarrow> 't) \<Rightarrow> ('s, 'a, 'e) io \<Rightarrow> ('t, 'a, 'e) io \<Rightarrow> bool" where
  "sim view m m' \<longleftrightarrow> (\<forall>s. (fst (m s), view (snd (m s))) = m' (view s))"

named_theorems sim_intros \<open>compositionality of simulation\<close>

lemma simD: "sim view m m' \<Longrightarrow> m' (view s) = (fst (m s), view (snd (m s)))"
  by (simp add: sim_def)

lemma sim_run: "sim view m m' \<Longrightarrow> m s = (r, t) \<Longrightarrow> m' (view s) = (r, view t)"
  using simD [of view m m' s] by simp

lemma sim_wp:
  assumes "sim view m m'"
  shows "wp m (\<lambda>x t. Q x (view t)) (\<lambda>e t. E e (view t)) (\<lambda>t. P (view t)) s \<longleftrightarrow> wp m' Q E P (view s)"
proof -
  obtain r t where ms: "m s = (r, t)" by (cases "m s")
  with sim_run [OF assms ms] show ?thesis by (cases r) (simp_all add: wp_def)
qed

lemma sim_bind [sim_intros]:
  assumes m: "sim view m m'" and f: "\<And>x. sim view (f x) (f' x)"
  shows "sim view (io_bind m f) (io_bind m' f')"
  unfolding sim_def
proof
  fix s
  obtain r t where ms: "m s = (r, t)" by (cases "m s")
  from sim_run [OF m this] have "m' (view s) = (r, view t)" .
  with ms show "(fst (io_bind m f s), view (snd (io_bind m f s))) = io_bind m' f' (view s)"
    using simD [OF f] by (cases r) simp_all
qed

lemma sim_lift [sim_intros]: "sim view (io_lift r) (io_lift r)"
  by (simp add: sim_def io_lift_def)

lemma sim_map_err [sim_intros]: "sim view m m' \<Longrightarrow> sim view (io_map_err f m) (io_map_err f m')"
  by (simp add: sim_def [of _ "io_map_err f m"] io_map_err_def simD)

lemma sim_ignore [sim_intros]:
  assumes "sim view m m'"
  shows "sim view (io_ignore m) (io_ignore m')"
  unfolding sim_def
proof
  fix s
  obtain r t where "m s = (r, t)" by (cases "m s")
  with sim_run [OF assms this]
  show "(fst (io_ignore m s), view (snd (io_ignore m s))) = io_ignore m' (view s)"
    by (cases r) (simp_all add: io_ignore_def)
qed

lemma sim_timeout [sim_intros]:
  assumes "sim view m m'"
  shows "sim view (io_timeout e m) (io_timeout e m')"
  unfolding sim_def
proof
  fix s
  obtain r t where "m s = (r, t)" by (cases "m s")
  with sim_run [OF assms this]
  show "(fst (io_timeout e m s), view (snd (io_timeout e m s))) = io_timeout e m' (view s)"
    by (cases r) (simp_all add: io_timeout_def)
qed

lemma sim_if [sim_intros]:
  "(b \<Longrightarrow> sim view m m') \<Longrightarrow> (\<not> b \<Longrightarrow> sim view n n') \<Longrightarrow>
     sim view (if b then m else n) (if b then m' else n')"
  by simp

lemma sim_let [sim_intros]: "(\<And>x. sim view (f x) (f' x)) \<Longrightarrow> sim view (Let a f) (Let a f')"
  by simp

lemma sim_option [sim_intros]:
  "sim view m m' \<Longrightarrow> (\<And>x. sim view (f x) (f' x)) \<Longrightarrow>
     sim view (case a of None \<Rightarrow> m | Some x \<Rightarrow> f x) (case a of None \<Rightarrow> m' | Some x \<Rightarrow> f' x)"
  by (cases a) simp_all

locale byte_stream =
  fixes rd :: "nat \<Rightarrow> ('s, bytes, io_kind) io"
    and wr :: "bytes \<Rightarrow> ('s, unit, io_kind) io"
    and view :: "'s \<Rightarrow> stream"
  assumes read_view [sim_intros]: "sim view (rd n) (flat_read n)"
    and write_view [sim_intros]: "sim view (wr bs) (flat_write bs)"
begin

text \<open>A successful \<open>read_exact\<close> takes exactly the bytes it returns and writes nothing.\<close>

lemma read_exact_spec:
  assumes "rd n s = (Ok bs, t)"
  shows "length bs = n \<and> rx (view s) = bs @ rx (view t) \<and> tx (view t) = tx (view s)"
  using sim_run [OF read_view assms] by (rule flat_read_length)

lemma no_panic_write: "no_panic (wr bs)"
  unfolding no_panic_def
proof (intro allI notI)
  fix s t
  assume "wr bs s = (Panic, t)"
  from sim_run [OF write_view this] show False
    by (auto simp: flat_write_def split: option.splits if_split_asm)
qed

lemma no_panic_rd: "no_panic (rd n)"
  unfolding no_panic_def
proof (intro allI notI)
  fix s t
  assume "rd n s = (Panic, t)"
  from sim_run [OF read_view this] show False
    by (auto simp: flat_read_def split: if_split_asm rx_end.splits)
qed

lemma no_panic_read:
  assumes "\<And>bs. length bs = n \<Longrightarrow> no_panic (f bs)"
  shows "no_panic (io_bind (io_map_err g (rd n)) f)"
  unfolding no_panic_def
proof (intro allI)
  fix s u
  obtain r t where m: "rd n s = (r, t)" by (cases "rd n s")
  from sim_run [OF read_view m] have r: "flat_read n (view s) = (r, view t)" .
  then have "r \<noteq> Panic" by (auto simp: flat_read_def split: if_split_asm rx_end.splits)
  moreover have "r = Ok bs \<Longrightarrow> length bs = n" for bs
    using m by (simp add: read_exact_spec)
  ultimately show "io_bind (io_map_err g (rd n)) f s \<noteq> (Panic, u)"
    using m assms by (cases r) (simp_all add: io_bind_def io_map_err_def no_panic_def)
qed

end

interpretation flat: byte_stream flat_read flat_write "\<lambda>s. s"
  by unfold_locales (simp_all add: sim_def)

section \<open>\<open>PrefixedStream\<close>: one byte read ahead\<close>

record 's prefixed_stream =
  ps_inner :: 's
  ps_prefix :: "u8 option"

text \<open>
  \<open>read_exact\<close> on a \<open>PrefixedStream\<close>: an empty buffer polls nothing; otherwise the first \<open>poll_read\<close>
  hands out the byte and clears it, and the remaining bytes come from the inner stream.
\<close>

definition prefixed_read ::
  "(nat \<Rightarrow> ('s, bytes, io_kind) io) \<Rightarrow> nat \<Rightarrow> ('s prefixed_stream, bytes, io_kind) io" where
  "prefixed_read rd n p =
     (case ps_prefix p of
        Some byte \<Rightarrow>
          if n = 0 then (Ok [], p)
          else (case rd (n - 1) (ps_inner p) of
              (Ok bs, s') \<Rightarrow> (Ok (byte # bs), p\<lparr>ps_inner := s', ps_prefix := None\<rparr>)
            | (Err e, s') \<Rightarrow> (Err e, p\<lparr>ps_inner := s', ps_prefix := None\<rparr>)
            | (Panic, s') \<Rightarrow> (Panic, p\<lparr>ps_inner := s', ps_prefix := None\<rparr>)
            | (Pending, s') \<Rightarrow> (Pending, p\<lparr>ps_inner := s', ps_prefix := None\<rparr>))
      | None \<Rightarrow> (case rd n (ps_inner p) of (r, s') \<Rightarrow> (r, p\<lparr>ps_inner := s'\<rparr>)))"

definition prefixed_write ::
  "(bytes \<Rightarrow> ('s, unit, io_kind) io) \<Rightarrow> bytes \<Rightarrow> ('s prefixed_stream, unit, io_kind) io" where
  "prefixed_write wr bs p = (case wr bs (ps_inner p) of (r, s') \<Rightarrow> (r, p\<lparr>ps_inner := s'\<rparr>))"

definition prefixed_view :: "('s \<Rightarrow> stream) \<Rightarrow> 's prefixed_stream \<Rightarrow> stream" where
  "prefixed_view view p =
     (case ps_prefix p of
        None \<Rightarrow> view (ps_inner p)
      | Some b \<Rightarrow> (view (ps_inner p))\<lparr>rx := b # rx (view (ps_inner p))\<rparr>)"

lemma flat_read_Cons:
  "0 < n \<Longrightarrow> flat_read n (s\<lparr>rx := b # bs\<rparr>) =
     (case flat_read (n - 1) (s\<lparr>rx := bs\<rparr>) of
        (Ok r, t) \<Rightarrow> (Ok (b # r), t) | (r, t) \<Rightarrow> (r, t))"
  by (cases n) (auto simp: flat_read_def split: rx_end.splits)

lemma flat_write_rx:
  "flat_write bs (s\<lparr>rx := r\<rparr>) = (fst (flat_write bs s), (snd (flat_write bs s))\<lparr>rx := r\<rparr>)"
  by (auto simp: flat_write_def split: option.splits)

lemma rx_flat_write [simp]: "rx (snd (flat_write bs s)) = rx s"
  by (auto simp: flat_write_def split: option.splits)

context byte_stream
begin

lemma read_run: "rd n s = (r, t) \<Longrightarrow> flat_read n (view s) = (r, view t)"
  by (rule sim_run [OF read_view])

lemma write_run: "wr bs s = (r, t) \<Longrightarrow> flat_write bs (view s) = (r, view t)"
  by (rule sim_run [OF write_view])

text \<open>A \<open>PrefixedStream\<close> over a stream is the stream with the byte put back.\<close>

lemma prefixed_stream:
  "byte_stream (prefixed_read rd) (prefixed_write wr) (prefixed_view view)"
proof
  fix n bs
  show "sim (prefixed_view view) (prefixed_read rd n) (flat_read n)"
    unfolding sim_def
  proof
    fix p :: "'s prefixed_stream"
    show "(fst (prefixed_read rd n p), prefixed_view view (snd (prefixed_read rd n p))) =
        flat_read n (prefixed_view view p)"
    proof (cases "ps_prefix p")
      case None
      obtain r t where "rd n (ps_inner p) = (r, t)" by (cases "rd n (ps_inner p)")
      with None read_run [OF this] show ?thesis
        by (simp add: prefixed_read_def prefixed_view_def)
    next
      case (Some b)
      obtain r t where m: "rd (n - 1) (ps_inner p) = (r, t)" by (cases "rd (n - 1) (ps_inner p)")
      show ?thesis
      proof (cases "n = 0")
        case True
        with Some show ?thesis by (simp add: prefixed_read_def prefixed_view_def flat_read_def)
      next
        case False
        with Some m read_run [OF m] show ?thesis
          by (cases r) (simp_all add: prefixed_read_def prefixed_view_def flat_read_Cons)
      qed
    qed
  qed
  show "sim (prefixed_view view) (prefixed_write wr bs) (flat_write bs)"
    unfolding sim_def
  proof
    fix p :: "'s prefixed_stream"
    obtain r t where m: "wr bs (ps_inner p) = (r, t)" by (cases "wr bs (ps_inner p)")
    with write_run [OF m] rx_flat_write [of bs "view (ps_inner p)"]
    show "(fst (prefixed_write wr bs p), prefixed_view view (snd (prefixed_write wr bs p))) =
        flat_write bs (prefixed_view view p)"
      by (auto simp: prefixed_write_def prefixed_view_def flat_write_rx split: option.split)
  qed
qed

end

interpretation prefixed: byte_stream "prefixed_read flat_read" "prefixed_write flat_write"
  "prefixed_view (\<lambda>s. s)"
  by (rule flat.prefixed_stream)

section \<open>\<open>BufferedPrefixStream\<close>: a sniffed buffer before the stream\<close>

record 's buffered_stream =
  bp_prefix :: bytes
  bp_pos :: nat
  bp_inner :: 's

definition buffered_new :: "bytes \<Rightarrow> 's \<Rightarrow> 's buffered_stream" where
  "buffered_new prefix inner = \<lparr>bp_prefix = prefix, bp_pos = 0, bp_inner = inner\<rparr>"

text \<open>
  While the cursor is inside the prefix a \<open>poll_read\<close> copies as much of it as fits and advances;
  once it is at the end every poll goes to the inner stream.
\<close>

definition buffered_read ::
  "(nat \<Rightarrow> ('s, bytes, io_kind) io) \<Rightarrow> nat \<Rightarrow> ('s buffered_stream, bytes, io_kind) io" where
  "buffered_read rd n p =
     (if n \<noteq> 0 \<and> bp_pos p < length (bp_prefix p) then
        let data = drop (bp_pos p) (bp_prefix p); k = min n (length data);
            p' = p\<lparr>bp_pos := bp_pos p + k\<rparr>
        in if k = n then (Ok (take k data), p')
           else (case rd (n - k) (bp_inner p) of
               (Ok bs, s') \<Rightarrow> (Ok (take k data @ bs), p'\<lparr>bp_inner := s'\<rparr>)
             | (Err e, s') \<Rightarrow> (Err e, p'\<lparr>bp_inner := s'\<rparr>)
             | (Panic, s') \<Rightarrow> (Panic, p'\<lparr>bp_inner := s'\<rparr>)
             | (Pending, s') \<Rightarrow> (Pending, p'\<lparr>bp_inner := s'\<rparr>))
      else if n = 0 then (Ok [], p)
      else (case rd n (bp_inner p) of (r, s') \<Rightarrow> (r, p\<lparr>bp_inner := s'\<rparr>)))"

definition buffered_write ::
  "(bytes \<Rightarrow> ('s, unit, io_kind) io) \<Rightarrow> bytes \<Rightarrow> ('s buffered_stream, unit, io_kind) io" where
  "buffered_write wr bs p = (case wr bs (bp_inner p) of (r, s') \<Rightarrow> (r, p\<lparr>bp_inner := s'\<rparr>))"

definition buffered_view :: "('s \<Rightarrow> stream) \<Rightarrow> 's buffered_stream \<Rightarrow> stream" where
  "buffered_view view p =
     (view (bp_inner p))\<lparr>rx := drop (bp_pos p) (bp_prefix p) @ rx (view (bp_inner p))\<rparr>"

lemma flat_read_prepend:
  "length p < n \<Longrightarrow> flat_read n (s\<lparr>rx := p @ bs\<rparr>) =
     (case flat_read (n - length p) (s\<lparr>rx := bs\<rparr>) of
        (Ok r, t) \<Rightarrow> (Ok (p @ r), t) | (r, t) \<Rightarrow> (r, t))"
  by (auto simp: flat_read_def split: rx_end.splits)

context byte_stream
begin

lemma buffered_stream:
  "byte_stream (buffered_read rd) (buffered_write wr) (buffered_view view)"
proof
  fix n bs
  show "sim (buffered_view view) (buffered_read rd n) (flat_read n)"
    unfolding sim_def
  proof
    fix p :: "'s buffered_stream"
    let ?d = "drop (bp_pos p) (bp_prefix p)"
    consider (zero) "n = 0" | (inside) "n \<noteq> 0" "bp_pos p < length (bp_prefix p)" "n \<le> length ?d"
      | (cross) "n \<noteq> 0" "bp_pos p < length (bp_prefix p)" "length ?d < n"
      | (past) "n \<noteq> 0" "\<not> bp_pos p < length (bp_prefix p)"
      by linarith
    then show "(fst (buffered_read rd n p), buffered_view view (snd (buffered_read rd n p))) =
        flat_read n (buffered_view view p)"
    proof cases
      case zero
      then show ?thesis by (simp add: buffered_read_def buffered_view_def flat_read_def)
    next
      case inside
      then have "n \<le> length (?d @ rx (view (bp_inner p)))" by simp
      with inside show ?thesis
        by (simp add: buffered_read_def buffered_view_def flat_read_def Let_def min_absorb1 add.commute)
    next
      case cross
      obtain r t where m: "rd (n - length ?d) (bp_inner p) = (r, t)"
        by (cases "rd (n - length ?d) (bp_inner p)")
      with cross read_run [OF m] flat_read_prepend [of ?d n "rx (view (bp_inner p))" "view (bp_inner p)"] show ?thesis
        by (cases r) (simp_all add: buffered_read_def buffered_view_def Let_def min_absorb2)
    next
      case past
      obtain r t where m: "rd n (bp_inner p) = (r, t)" by (cases "rd n (bp_inner p)")
      with past read_run [OF m] show ?thesis
        by (simp add: buffered_read_def buffered_view_def)
    qed
  qed
  show "sim (buffered_view view) (buffered_write wr bs) (flat_write bs)"
    unfolding sim_def
  proof
    fix p :: "'s buffered_stream"
    obtain r t where m: "wr bs (bp_inner p) = (r, t)" by (cases "wr bs (bp_inner p)")
    with write_run [OF m] rx_flat_write [of bs "view (bp_inner p)"]
    show "(fst (buffered_write wr bs p), buffered_view view (snd (buffered_write wr bs p))) =
        flat_write bs (buffered_view view p)"
      by (simp add: buffered_write_def buffered_view_def flat_write_rx)
  qed
qed

end

interpretation buffered: byte_stream "buffered_read flat_read" "buffered_write flat_write"
  "buffered_view (\<lambda>s. s)"
  by (rule flat.buffered_stream)

end
