(* ===== verification/Vless_Handler.thy ===== *)
theory Vless_Handler
  imports Vless_Parse Vless_Addons Vless_Auth Stream_IO
begin

text \<open>
  The VLESS server handshake (\<open>crates/skadi-protocol/src/vless/handler.rs\<close>) and the client's
  (\<open>vless/client.rs\<close>). The server reads the header in pieces, looks the user up, parses the whole
  header, checks the flow and only then answers; a rejected client gets no byte.
\<close>

section \<open>Data\<close>

record vless_handshake =
  vh_command :: u8
  vh_target :: endpoint

text \<open>One constructor per \<open>bail!\<close>, \<open>map_err\<close> and I/O error.\<close>

datatype vless_error =
    VHandshakeTimeout
  | VIo io_kind
  | VUnsupportedVersion u8
  | VAddonsLong nat
  | VAddressType u8
  | VAddressTooLong nat
  | VAuthFailed
  | VParse vless_parse_error
  | VAddons addons_error
  | VUnsupportedFlow unsupported_flow
  | VClientTimeout
  | VUnexpectedResponse u8 u8

section \<open>Server\<close>

text \<open>Lines 45--115: the identifier and the header bytes, read in pieces.\<close>

definition read_header ::
  "(nat \<Rightarrow> ('s, bytes, io_kind) io) \<Rightarrow> ('s, bytes \<times> bytes, vless_error) io" where
  "read_header rd =
     io_bind (io_map_err VIo (rd 18)) (\<lambda>head.
     io_bind (io_lift (idx head 0)) (\<lambda>version.
     if version \<noteq> VLESS_VERSION then io_lift (Err (VUnsupportedVersion version))
     else
     io_bind (io_lift (slice head 1 17)) (\<lambda>uuid.
     io_bind (io_lift (idx head 17)) (\<lambda>ab.
     let addons_len = unat ab in
     if addons_len > MAX_ADDONS then io_lift (Err (VAddonsLong addons_len))
     else
     io_bind (if addons_len > 0 then io_map_err VIo (rd addons_len) else io_lift (Ok [])) (\<lambda>addons.
     io_bind (io_map_err VIo (rd 1)) (\<lambda>command_buf.
     io_bind (io_lift (idx command_buf 0)) (\<lambda>command.
     let full = head @ addons @ [command] in
     if command \<noteq> CMD_MUX then
       io_bind (io_map_err VIo (rd 3)) (\<lambda>port_atyp.
       io_bind (io_lift (idx port_atyp 2)) (\<lambda>atyp.
       let full = full @ port_atyp in
       io_bind
        (if atyp = VLESS_ATYP_IPV4 then io_lift (Ok (4, full))
         else if atyp = VLESS_ATYP_IPV6 then io_lift (Ok (16, full))
         else if atyp = VLESS_ATYP_DOMAIN then
           io_bind (io_map_err VIo (rd 1)) (\<lambda>dlen.
           io_bind (io_lift (idx dlen 0)) (\<lambda>d0. io_lift (Ok (unat d0, full @ [d0]))))
         else io_lift (Err (VAddressType atyp))) (\<lambda>lf.
       if fst lf > MAX_DOMAIN then io_lift (Err (VAddressTooLong (fst lf)))
       else
         io_bind (io_map_err VIo (rd (fst lf))) (\<lambda>addr. io_lift (Ok (uuid, snd lf @ addr))))))
     else io_lift (Ok (uuid, full)))))))))"

text \<open>Lines 117--133: who is asking, and for what.\<close>

definition check_header ::
  "ct_eq \<Rightarrow> vless_config \<Rightarrow> bytes \<Rightarrow> bytes \<Rightarrow> (vless_request, vless_error) outcome" where
  "check_header ct cfg uuid full =
     (case authenticate ct cfg uuid of
        None \<Rightarrow> Err VAuthFailed
      | Some user \<Rightarrow>
          ebind (map_err VParse (vless_parse_request full)) (\<lambda>(request, _).
          ebind (map_err VAddons (parse_addons (vr_addons request))) (\<lambda>addons.
          ebind (map_err VUnsupportedFlow (validate_flow (ad_flow addons) (vu_flow user))) (\<lambda>_.
          Ok request))))"

definition vless_handshake_inner ::
  "ct_eq \<Rightarrow> (nat \<Rightarrow> ('s, bytes, io_kind) io) \<Rightarrow> (bytes \<Rightarrow> ('s, unit, io_kind) io) \<Rightarrow>
   vless_config \<Rightarrow> ('s, vless_handshake, vless_error) io" where
  "vless_handshake_inner ct rd wr cfg =
     io_bind (read_header rd) (\<lambda>uf.
     io_bind (io_lift (check_header ct cfg (fst uf) (snd uf))) (\<lambda>request.
     io_bind (io_map_err VIo (wr (build_response_header VLESS_VERSION))) (\<lambda>_.
     io_lift (Ok \<lparr>vh_command = vr_command request, vh_target = vr_target request\<rparr>))))"

definition vless_server_handshake ::
  "ct_eq \<Rightarrow> (nat \<Rightarrow> ('s, bytes, io_kind) io) \<Rightarrow> (bytes \<Rightarrow> ('s, unit, io_kind) io) \<Rightarrow>
   vless_config \<Rightarrow> ('s, vless_handshake, vless_error) io" where
  "vless_server_handshake ct rd wr cfg =
     io_timeout VHandshakeTimeout (vless_handshake_inner ct rd wr cfg)"

section \<open>Client\<close>

definition client_handshake_inner ::
  "(nat \<Rightarrow> ('s, bytes, io_kind) io) \<Rightarrow> (bytes \<Rightarrow> ('s, unit, io_kind) io) \<Rightarrow>
   bytes \<Rightarrow> ('s, unit, vless_error) io" where
  "client_handshake_inner rd wr request =
     io_bind (io_map_err VIo (wr request)) (\<lambda>_.
     io_bind (io_map_err VIo (rd 2)) (\<lambda>response.
     if response \<noteq> build_response_header VLESS_VERSION then
       io_bind (io_lift (idx response 0)) (\<lambda>r0.
       io_bind (io_lift (idx response 1)) (\<lambda>r1.
       io_lift (Err (VUnexpectedResponse r0 r1))))
     else io_lift (Ok ())))"

definition client_handshake ::
  "(nat \<Rightarrow> ('s, bytes, io_kind) io) \<Rightarrow> (bytes \<Rightarrow> ('s, unit, io_kind) io) \<Rightarrow>
   bytes \<Rightarrow> ('s, unit, vless_error) io" where
  "client_handshake rd wr request = io_timeout VClientTimeout (client_handshake_inner rd wr request)"

definition handshake_tcp ::
  "(nat \<Rightarrow> ('s, bytes, io_kind) io) \<Rightarrow> (bytes \<Rightarrow> ('s, unit, io_kind) io) \<Rightarrow>
   bytes \<Rightarrow> endpoint \<Rightarrow> ('s, unit, vless_error) io" where
  "handshake_tcp rd wr uuid target =
     client_handshake rd wr (build_tcp_endpoint_request uuid target)"

definition handshake_udp ::
  "(nat \<Rightarrow> ('s, bytes, io_kind) io) \<Rightarrow> (bytes \<Rightarrow> ('s, unit, io_kind) io) \<Rightarrow>
   bytes \<Rightarrow> endpoint \<Rightarrow> ('s, unit, vless_error) io" where
  "handshake_udp rd wr uuid target =
     client_handshake rd wr (build_udp_endpoint_request uuid target)"

section \<open>The header read in pieces\<close>

text \<open>The shape of a header, as the reader sees it.\<close>

definition addr_body :: "u8 \<Rightarrow> bytes \<Rightarrow> bool" where
  "addr_body atyp body \<longleftrightarrow>
     atyp = 1 \<and> length body = 4 \<or> atyp = 3 \<and> length body = 16 \<or>
     atyp = 2 \<and> body \<noteq> [] \<and> length body = Suc (unat (body ! 0))"

definition header_frame :: "bytes \<Rightarrow> bool" where
  "header_frame full \<longleftrightarrow>
     (\<exists>h ad. length h = 18 \<and> h ! 0 = 0 \<and> unat (h ! 17) = length ad \<and>
       (full = h @ ad @ [3] \<or>
        (\<exists>c pa body. c \<noteq> 3 \<and> length pa = 3 \<and> addr_body (pa ! 2) body \<and>
           full = h @ ad @ c # pa @ body)))"

lemma run_slice [run_simps]:
  "a \<le> b \<Longrightarrow> b \<le> length xs \<Longrightarrow>
     io_bind (io_lift (slice xs a b)) g s = g (take (b - a) (drop a xs)) s"
  by (simp add: slice_def run_simps)

lemma read_header_mux:
  assumes "length h = 18" "h ! 0 = 0" "unat (h ! 17) = length ad"
    and "rx s = h @ ad @ 3 # rest"
  shows "read_header flat_read s =
    (Ok (take 16 (drop 1 h), h @ ad @ [3]), s\<lparr>rx := rest\<rparr>)"
  using assms by (cases "ad = []") (simp_all add: read_header_def run_simps Let_def)

lemma read_header_addr:
  assumes "length h = 18" "h ! 0 = 0" "unat (h ! 17) = length ad"
    "c \<noteq> 3" "length pa = 3" "addr_body (pa ! 2) body" "rx s = h @ ad @ c # pa @ body @ rest"
  shows "read_header flat_read s =
    (Ok (take 16 (drop 1 h), h @ ad @ c # pa @ body), s\<lparr>rx := rest\<rparr>)"
  using assms(6) unfolding addr_body_def
proof (elim disjE conjE)
  assume "pa ! 2 = 1" "length body = 4"
  with assms(1-5,7) show ?thesis by (cases "ad = []") (simp_all add: read_header_def run_simps Let_def)
next
  assume "pa ! 2 = 3" "length body = 16"
  with assms(1-5,7) show ?thesis by (cases "ad = []") (simp_all add: read_header_def run_simps Let_def)
next
  assume "pa ! 2 = 2" "body \<noteq> []" "length body = Suc (unat (body ! 0))"
  with assms(1-5,7) show ?thesis
    by (cases body; cases "ad = []") (simp_all add: read_header_def run_simps Let_def)
qed

lemma run_read_pieces:
  "io_bind (io_map_err f (flat_read n)) g s = (Ok y, t) \<Longrightarrow>
     \<exists>bs r. length bs = n \<and> rx s = bs @ r \<and> g bs (s\<lparr>rx := r\<rparr>) = (Ok y, t)"
  by (rule exI [of _ "take n (rx s)"], rule exI [of _ "drop n (rx s)"])
    (simp add: run_read split: if_split_asm)

lemma length_one: "length xs = Suc 0 \<longleftrightarrow> (\<exists>x. xs = [x])"
  by (simp add: length_Suc_conv)

lemma header_frame_mux:
  "length h = 18 \<Longrightarrow> h ! 0 = 0 \<Longrightarrow> unat (h ! 17) = length ad \<Longrightarrow> header_frame (h @ ad @ [3])"
  unfolding header_frame_def by blast

lemma header_frame_addr:
  "length h = 18 \<Longrightarrow> h ! 0 = 0 \<Longrightarrow> unat (h ! 17) = length ad \<Longrightarrow> c \<noteq> 3 \<Longrightarrow> length pa = 3 \<Longrightarrow>
     addr_body (pa ! 2) body \<Longrightarrow> header_frame (h @ ad @ c # pa @ body)"
  unfolding header_frame_def by blast

lemmas header_frames = header_frame_mux header_frame_addr
  header_frame_mux [of _ "[]", simplified] header_frame_addr [of _ "[]", simplified]

lemma read_header_Ok:
  "read_header flat_read s = (Ok (u, full), t) \<longleftrightarrow>
     header_frame full \<and> u = take 16 (drop 1 full) \<and> rx s = full @ rx t \<and> t = s\<lparr>rx := rx t\<rparr>"
  (is "?run \<longleftrightarrow> ?frame")
proof
  assume f: ?frame
  then have t: "s\<lparr>rx := rx t\<rparr> = t" by simp
  from f obtain h ad where h: "length h = 18" "h ! 0 = 0" "unat (h ! 17) = length ad"
    and full: "full = h @ ad @ [3] \<or>
      (\<exists>c pa body. c \<noteq> 3 \<and> length pa = 3 \<and> addr_body (pa ! 2) body \<and> full = h @ ad @ c # pa @ body)"
    unfolding header_frame_def by blast
  from full show ?run
  proof (elim disjE exE conjE)
    assume "full = h @ ad @ [3]"
    with f h t read_header_mux [OF h, of s "rx t"] show ?thesis by simp
  next
    fix c pa body
    assume c: "c \<noteq> 3" "length pa = 3" "addr_body (pa ! 2) body" and "full = h @ ad @ c # pa @ body"
    with f h t read_header_addr [OF h c, of s "rx t"] show ?thesis by simp
  qed
next
  assume ?run
  then show ?frame
    unfolding read_header_def
    by (auto simp: run_idx run_slice run_lift run_bind_if run_bind_assoc Let_def length_one
        addr_body_def split: if_split_asm dest!: run_read_pieces intro!: header_frames)
qed

text \<open>The pure parser accepts only such frames, and all of a frame it accepts.\<close>

lemma parse_port_address_frame:
  "parse_port_address bs = Ok (x, k) \<Longrightarrow>
     3 \<le> k \<and> addr_body (bs ! 2) (take (k - 3) (drop 3 bs))"
  by (subst (asm) parse_port_address_flat, simp only: outcome_cases split: if_split_asm)
    (simp_all add: addr_body_def)

lemma vless_parse_request_frame:
  assumes "vless_parse_request bs = Ok (r, n)"
  shows "header_frame (take n bs)"
proof -
  define a where "a = unat (bs ! 17)"
  let ?h = "take 18 bs" and ?ad = "take a (drop 18 bs)"
  from assms have len: "19 + a \<le> length bs" and b0: "bs ! 0 = 0"
    and cases: "bs ! (18 + a) = 3 \<and> n = 19 + a \<or> bs ! (18 + a) \<noteq> 3 \<and>
      (\<exists>t k. parse_port_address (drop (19 + a) bs) = Ok (t, k) \<and> n = 19 + a + k)"
    by (auto simp: vless_parse_request_Ok Let_def a_def)
  have h: "length ?h = 18" "?h ! 0 = 0" "unat (?h ! 17) = length ?ad"
    using len b0 by (simp_all add: a_def)
  have pre: "take (19 + a) bs = ?h @ ?ad @ [bs ! (18 + a)]"
  proof -
    have "take (Suc (18 + a)) bs = take (18 + a) bs @ [bs ! (18 + a)]"
      using len by (intro take_Suc_conv_app_nth) simp
    then show ?thesis by (simp add: take_add)
  qed
  from cases show ?thesis
  proof (elim disjE conjE exE)
    assume "bs ! (18 + a) = 3" "n = 19 + a"
    with header_frame_mux [OF h] pre show ?thesis by simp
  next
    fix t k
    let ?d = "drop (19 + a) bs"
    assume c: "bs ! (18 + a) \<noteq> 3" and p: "parse_port_address ?d = Ok (t, k)" and n: "n = 19 + a + k"
    from parse_port_address_frame [OF p] port_address.parse_consumed [OF p]
    have k: "3 \<le> k" "k \<le> length ?d" and b: "addr_body (?d ! 2) (take (k - 3) (drop 3 ?d))" by simp_all
    have "take k ?d = take 3 ?d @ take (k - 3) (drop 3 ?d)"
      using k(1) by (metis take_add le_add_diff_inverse)
    with n pre have "take n bs = ?h @ ?ad @ bs ! (18 + a) # take 3 ?d @ take (k - 3) (drop 3 ?d)"
      by (simp add: take_add [of "19 + a" k])
    with header_frame_addr [OF h c, of "take 3 ?d" "take (k - 3) (drop 3 ?d)"] k b
    show ?thesis by simp
  qed
qed

lemma vless_parse_frame_all:
  assumes "header_frame full" "vless_parse_request full = Ok (r, k)"
  shows "k = length full"
  using assms(1) unfolding header_frame_def
proof (elim exE conjE disjE)
  fix h ad
  assume "length h = 18" "h ! 0 = 0" "unat (h ! 17) = length ad" "full = h @ ad @ [3]"
  with assms(2) show ?thesis by (auto simp: vless_parse_request_Ok Let_def nth_append)
next
  fix h ad c pa body
  assume h: "length h = 18" "h ! 0 = 0" "unat (h ! 17) = length ad" "c \<noteq> 3" "length pa = 3"
    "addr_body (pa ! 2) body" "full = h @ ad @ c # pa @ body"
  have "parse_port_address (pa @ body) = Ok (t, j) \<Longrightarrow> j = length (pa @ body)" for t j
    using h by (subst (asm) parse_port_address_flat, simp only: outcome_cases split: if_split_asm)
      (auto simp: addr_body_def nth_append)
  with h assms(2) show ?thesis by (auto simp: vless_parse_request_Ok Let_def nth_append)
qed

section \<open>The handshake over every stream that keeps the contract\<close>

context byte_stream
begin

lemma read_header_sim [sim_intros]: "sim view (read_header rd) (read_header flat_read)"
  unfolding read_header_def by (intro sim_intros)

lemma vless_handshake_sim:
  "sim view (vless_server_handshake ct rd wr cfg) (vless_server_handshake ct flat_read flat_write cfg)"
  unfolding vless_server_handshake_def vless_handshake_inner_def by (intro sim_intros)

lemma client_handshake_sim:
  "sim view (client_handshake rd wr request) (client_handshake flat_read flat_write request)"
  unfolding client_handshake_def client_handshake_inner_def by (intro sim_intros)

lemma read_header_no_panic: "no_panic (read_header rd)"
  unfolding read_header_def
  by (rule no_panic_read no_panic_slice no_panic_rd no_panic_rules | simp)+

lemma vless_handshake_no_panic:
  assumes "\<And>uuid full. returns (check_header ct cfg uuid full)"
  shows "no_panic (vless_handshake_inner ct rd wr cfg)"
  unfolding vless_handshake_inner_def
  using assms
  by (intro no_panic_bind no_panic_map_err no_panic_write read_header_no_panic no_panic_lift)
    (metis returns.simps(3), simp)

end

lemma returns_check_header [simp]: "returns (check_header ct cfg uuid full)"
  by (auto simp: check_header_def vless_req.parse_returns split: option.split intro!: returns_ebind)

section \<open>What a successful handshake is\<close>

definition vless_script :: "vless_config \<Rightarrow> bytes \<Rightarrow> (vless_handshake \<times> nat) option" where
  "vless_script cfg bs =
     (case vless_parse_request bs of
        Ok (req, n) \<Rightarrow>
          (case find (\<lambda>u. uuid_parse (vu_id u) = Ok (vr_uuid req)) (vl_users cfg) of
             Some user \<Rightarrow>
               (case parse_addons (vr_addons req) of
                  Ok addons \<Rightarrow>
                    if validate_flow (ad_flow addons) (vu_flow user) = Ok ()
                    then Some (\<lparr>vh_command = vr_command req, vh_target = vr_target req\<rparr>, n)
                    else None
                | _ \<Rightarrow> None)
           | None \<Rightarrow> None)
      | _ \<Rightarrow> None)"

lemma vless_script_Some:
  "vless_script cfg bs = Some (hs, n) \<longleftrightarrow>
     (\<exists>req user addons. vless_parse_request bs = Ok (req, n) \<and>
        find (\<lambda>u. uuid_parse (vu_id u) = Ok (vr_uuid req)) (vl_users cfg) = Some user \<and>
        parse_addons (vr_addons req) = Ok addons \<and>
        validate_flow (ad_flow addons) (vu_flow user) = Ok () \<and>
        hs = \<lparr>vh_command = vr_command req, vh_target = vr_target req\<rparr>)"
  by (auto simp: vless_script_def split: outcome.splits option.splits if_split_asm)

lemma vless_parse_uuid:
  "vless_parse_request bs = Ok (req, n) \<Longrightarrow> length (vr_uuid req) = 16 \<and> vr_uuid req = take 16 (drop 1 bs)"
  by (auto simp: vless_parse_request_Ok Let_def)

lemma read_header_quiet: "quiet (read_header flat_read)"
  unfolding read_header_def by (intro quiet_rules)

lemma vless_handshake_run:
  assumes "tx_room s = None"
  shows "vless_server_handshake ct flat_read flat_write cfg s = (Ok hs, t) \<longleftrightarrow>
    (\<exists>u full w req. read_header flat_read s = (Ok (u, full), w) \<and>
       check_header ct cfg u full = Ok req \<and>
       hs = \<lparr>vh_command = vr_command req, vh_target = vr_target req\<rparr> \<and>
       t = w\<lparr>tx := tx w @ [0, 0]\<rparr>)"
proof -
  define rest where "rest = (\<lambda>uf :: bytes \<times> bytes.
     io_bind (io_lift (check_header ct cfg (fst uf) (snd uf))) (\<lambda>request.
     io_bind (io_map_err VIo (flat_write (build_response_header VLESS_VERSION))) (\<lambda>_.
     io_lift (Ok \<lparr>vh_command = vr_command request, vh_target = vr_target request\<rparr>))))"
  have "rest uf w = (Ok hs, t) \<longleftrightarrow>
      (\<exists>req. check_header ct cfg (fst uf) (snd uf) = Ok req \<and>
         hs = \<lparr>vh_command = vr_command req, vh_target = vr_target req\<rparr> \<and> t = w\<lparr>tx := tx w @ [0, 0]\<rparr>)"
    if "read_header flat_read s = (Ok uf, w)" for uf w
    using quietD [OF read_header_quiet that] assms
    by (cases "check_header ct cfg (fst uf) (snd uf)")
      (auto simp: rest_def io_bind_def io_lift_def io_map_err_def flat_write_def
        build_response_header_def)
  then show ?thesis
    unfolding vless_server_handshake_def vless_handshake_inner_def io_timeout_Ok rest_def [symmetric]
    by (subst io_bind_Ok) (metis fst_conv snd_conv prod.collapse)
qed

lemma check_header_Ok:
  assumes "ct_eq_spec ct" "length uuid = 16"
  shows "check_header ct cfg uuid full = Ok req \<longleftrightarrow>
    (\<exists>k user addons. vless_parse_request full = Ok (req, k) \<and>
        find (\<lambda>u. uuid_parse (vu_id u) = Ok uuid) (vl_users cfg) = Some user \<and>
        parse_addons (vr_addons req) = Ok addons \<and>
        validate_flow (ad_flow addons) (vu_flow user) = Ok ())"
  unfolding check_header_def authenticate_find [OF assms]
  by (auto simp: ebind_eq_Ok_conv split: option.split)

lemma vless_handshake_script:
  assumes ct: "ct_eq_spec ct" and room: "tx_room s = None"
  shows "vless_server_handshake ct flat_read flat_write cfg s = (Ok hs, t) \<longleftrightarrow>
    (\<exists>n. vless_script cfg (rx s) = Some (hs, n) \<and>
       t = s\<lparr>rx := drop n (rx s), tx := tx s @ [0, 0]\<rparr>)"
  (is "?run \<longleftrightarrow> ?script")
proof
  assume ?run
  then obtain u full w req where rd: "read_header flat_read s = (Ok (u, full), w)"
    and ck: "check_header ct cfg u full = Ok req"
    and hs: "hs = \<lparr>vh_command = vr_command req, vh_target = vr_target req\<rparr>" "t = w\<lparr>tx := tx w @ [0, 0]\<rparr>"
    unfolding vless_handshake_run [OF room] by blast
  from rd have f: "header_frame full" "u = take 16 (drop 1 full)" "rx s = full @ rx w" "w = s\<lparr>rx := rx w\<rparr>"
    unfolding read_header_Ok by blast+
  then have "length u = 16" by (auto simp: header_frame_def)
  with ck ct obtain k user addons where p: "vless_parse_request full = Ok (req, k)"
    and ok: "find (\<lambda>u'. uuid_parse (vu_id u') = Ok u) (vl_users cfg) = Some user"
      "parse_addons (vr_addons req) = Ok addons" "validate_flow (ad_flow addons) (vu_flow user) = Ok ()"
    unfolding check_header_Ok [OF ct \<open>length u = 16\<close>] by blast
  have "k = length full" by (rule vless_parse_frame_all [OF f(1) p])
  moreover have "vless_parse_request (rx s) = Ok (req, k)"
    unfolding f(3) by (rule vless_req.parse_extend [OF p])
  moreover have "vr_uuid req = u" using vless_parse_uuid [OF p] f(2) by simp
  ultimately have "vless_script cfg (rx s) = Some (hs, length full)"
    using ok hs unfolding vless_script_Some by blast
  moreover have "t = s\<lparr>rx := drop (length full) (rx s), tx := tx s @ [0, 0]\<rparr>"
    unfolding hs(2) f(3) by (subst f(4), subst (2) f(4)) simp
  ultimately show ?script by blast
next
  assume ?script
  then obtain n req user addons where p: "vless_parse_request (rx s) = Ok (req, n)"
    and ok: "find (\<lambda>u. uuid_parse (vu_id u) = Ok (vr_uuid req)) (vl_users cfg) = Some user"
      "parse_addons (vr_addons req) = Ok addons" "validate_flow (ad_flow addons) (vu_flow user) = Ok ()"
    and hs: "hs = \<lparr>vh_command = vr_command req, vh_target = vr_target req\<rparr>"
      "t = s\<lparr>rx := drop n (rx s), tx := tx s @ [0, 0]\<rparr>"
    unfolding vless_script_Some by blast
  let ?full = "take n (rx s)"
  have cut: "vless_parse_request ?full = Ok (req, n)" by (rule vless_req.parse_cut [OF p])
  have "read_header flat_read s = (Ok (vr_uuid req, ?full), s\<lparr>rx := drop n (rx s)\<rparr>)"
    unfolding read_header_Ok using vless_parse_request_frame [OF p] vless_parse_uuid [OF cut] by simp
  moreover have "check_header ct cfg (vr_uuid req) ?full = Ok req"
    using vless_parse_uuid [OF p] cut ok check_header_Ok [OF ct] by blast
  ultimately show ?run
    unfolding vless_handshake_run [OF room] using hs by fastforce
qed

section \<open>Rejected clients\<close>

lemma vless_inner_rejects:
  assumes room: "tx_room s = None"
    and run: "vless_handshake_inner ct flat_read flat_write cfg s = (r, t)" and fail: "\<And>x. r \<noteq> Ok x"
  shows "tx t = tx s"
proof -
  obtain r1 w where rd: "read_header flat_read s = (r1, w)" by (cases "read_header flat_read s")
  note q = quietD [OF read_header_quiet rd]
  show ?thesis
  proof (cases r1)
    case (Ok uf)
    with rd run q fail room show ?thesis
      by (cases "check_header ct cfg (fst uf) (snd uf)")
        (auto simp: vless_handshake_inner_def io_bind_def io_lift_def io_map_err_def flat_write_def)
  qed (use rd run q in \<open>auto simp: vless_handshake_inner_def\<close>)
qed

lemma vless_handshake_rejects:
  assumes "tx_room s = None"
    and "vless_server_handshake ct flat_read flat_write cfg s = (r, t)" and "\<And>x. r \<noteq> Ok x"
  shows "tx t = tx s"
proof -
  obtain r1 w where rd: "vless_handshake_inner ct flat_read flat_write cfg s = (r1, w)"
    by (cases "vless_handshake_inner ct flat_read flat_write cfg s")
  with assms have "w = t" "\<And>x. r1 \<noteq> Ok x"
    by (auto simp: vless_server_handshake_def io_timeout_def split: outcome.splits)
  with vless_inner_rejects [OF assms(1) rd] show ?thesis by blast
qed

section \<open>The client\<close>

lemma client_handshake_run:
  assumes "tx_room c = None" "rx c = [0, 0] @ r"
  shows "client_handshake flat_read flat_write request c =
    (Ok (), c\<lparr>rx := r, tx := tx c @ request\<rparr>)"
  using assms
  by (simp add: client_handshake_def client_handshake_inner_def run_simps io_timeout_def
      build_response_header_def)

lemma vless_script_client:
  assumes "client_request req"
    and "find (\<lambda>u. uuid_parse (vu_id u) = Ok (vr_uuid req)) (vl_users cfg) = Some user"
    and "vu_flow user = None \<or> vu_flow user = Some []"
  shows "vless_script cfg (build_request req @ rest) =
    Some (\<lparr>vh_command = vr_command req, vh_target = vr_target req\<rparr>, length (build_request req))"
proof -
  have "parse_addons (vr_addons req) = Ok addons_default"
    using assms(1) by (simp add: client_request_def parse_addons_def)
  moreover have "validate_flow (ad_flow addons_default) (vu_flow user) = Ok ()"
    using assms(3) by (simp add: validate_flow_Ok addons_default_def)
  ultimately show ?thesis
    using vless_codec.encode_parse_stream [OF assms(1), of rest] assms(2)
    unfolding vless_script_Some by blast
qed

section \<open>Properties\<close>

text \<open>C2: over every stream that keeps the contract, the VLESS handshake succeeds exactly when the
  bytes parse as a request whose identifier belongs to a configured user (the first one in order)
  and whose addons ask for an accepted flow. It then returns command and target, has taken exactly
  the request's bytes and has sent exactly the two-byte response.\<close>
theorem vless_handshake_correct:
  assumes "byte_stream rd wr view" and "ct_eq_spec ct" and "tx_room (view s) = None"
  shows "(\<exists>t. vless_server_handshake ct rd wr cfg s = (Ok hs, t) \<and> view t = v) \<longleftrightarrow>
    (\<exists>n. vless_script cfg (rx (view s)) = Some (hs, n) \<and>
       v = (view s)\<lparr>rx := drop n (rx (view s)), tx := tx (view s) @ [0, 0]\<rparr>)"
proof -
  have "(\<exists>t. vless_server_handshake ct rd wr cfg s = (Ok hs, t) \<and> view t = v) \<longleftrightarrow>
      vless_server_handshake ct flat_read flat_write cfg (view s) = (Ok hs, v)"
    using simD [OF byte_stream.vless_handshake_sim [OF assms(1), of ct cfg], of s]
    by (cases "vless_server_handshake ct rd wr cfg s") auto
  then show ?thesis using vless_handshake_script [OF assms(2,3)] by simp
qed

theorem vless_handshake_correct_witness:
  "\<exists>t. vless_server_handshake (=) flat_read flat_write
      \<lparr>vl_enabled = True, vl_users = [\<lparr>vu_id = uuid_display (replicate 16 0), vu_email = None, vu_flow = None\<rparr>]\<rparr>
      \<lparr>rx = replicate 18 0 @ [3, 9], rx_end = Closed, tx = [], tx_room = None\<rparr> =
      (Ok \<lparr>vh_command = 3, vh_target = EpDomain MUX_PLACEHOLDER_HOST 0\<rparr>, t) \<and>
    t = \<lparr>rx = [9], rx_end = Closed, tx = [0, 0], tx_room = None\<rparr>"
proof -
  let ?cfg = "\<lparr>vl_enabled = True, vl_users = [\<lparr>vu_id = uuid_display (replicate 16 0), vu_email = None, vu_flow = None\<rparr>]\<rparr>"
  let ?hs = "\<lparr>vh_command = 3, vh_target = EpDomain MUX_PLACEHOLDER_HOST 0\<rparr>"
  let ?s = "\<lparr>rx = replicate 18 0 @ [3, 9], rx_end = Closed, tx = [], tx_room = None\<rparr> :: stream"
  have req: "vless_parse_request (replicate 18 0 @ [3, 9]) =
      Ok (\<lparr>vr_uuid = replicate 16 0, vr_command = 3, vr_addons = [],
           vr_target = EpDomain MUX_PLACEHOLDER_HOST 0\<rparr>, 19)"
    by (simp add: vless_parse_request_Ok Let_def nth_append)
  have "uuid_parse (uuid_display (replicate 16 0)) = Ok (replicate 16 0)"
    by (rule uuid_parse_display) simp
  then have "vless_script ?cfg (rx ?s) = Some (?hs, 19)"
    by (simp add: vless_script_def req parse_addons_def addons_default_def validate_flow_Ok)
  then show ?thesis
    using vless_handshake_correct [OF flat.byte_stream_axioms ct_eq_spec_eq, of ?s ?cfg ?hs
        "\<lparr>rx = [9], rx_end = Closed, tx = [0, 0], tx_room = None\<rparr>"] by auto
qed

text \<open>C37: a client that the VLESS handshake rejects, for whatever reason, receives no byte.\<close>
theorem vless_rejects_silently:
  assumes "byte_stream rd wr view" and "tx_room (view s) = None"
    and "vless_server_handshake ct rd wr cfg s = (r, t)" and "\<forall>hs. r \<noteq> Ok hs"
  shows "tx (view t) = tx (view s)"
  using sim_run [OF byte_stream.vless_handshake_sim [OF assms(1)] assms(3)]
    vless_handshake_rejects [OF assms(2)] assms(4) by blast

theorem vless_rejects_silently_witness:
  "tx (snd (vless_server_handshake (=) flat_read flat_write \<lparr>vl_enabled = True, vl_users = []\<rparr>
      \<lparr>rx = replicate 17 0, rx_end = Closed, tx = [8], tx_room = None\<rparr>)) = [8]"
proof -
  let ?s = "\<lparr>rx = replicate 17 0, rx_end = Closed, tx = [8], tx_room = None\<rparr> :: stream"
  let ?run = "vless_server_handshake (=) flat_read flat_write \<lparr>vl_enabled = True, vl_users = []\<rparr> ?s"
  have "\<forall>hs. fst ?run \<noteq> Ok hs"
    by (simp add: vless_server_handshake_def vless_handshake_inner_def read_header_def io_timeout_def
        run_simps io_bind_def io_map_err_def flat_read_def)
  with vless_rejects_silently [OF flat.byte_stream_axioms, of ?s "(=)" _ "fst ?run" "snd ?run"]
  show ?thesis by simp
qed

text \<open>Over every stream that keeps the contract the VLESS handshake returns: no input makes it
  panic, and a silent peer makes it time out.\<close>
lemma vless_handshake_returns:
  assumes "byte_stream rd wr view"
  shows "returns (fst (vless_server_handshake ct rd wr cfg s))"
  unfolding vless_server_handshake_def
  by (rule no_panic_timeout_returns [OF byte_stream.vless_handshake_no_panic [OF assms returns_check_header]])

text \<open>C3: client and server agree. The client's TCP handshake sends its request and succeeds on the
  two-byte response; the server, reading that request, accepts a configured user without a flow,
  returns exactly the target the client named, leaves whatever the client sent next, and answers
  with the response the client waits for.\<close>
theorem client_server_agree:
  assumes "ct_eq_spec ct" and "length uuid = 16" and "wire_endpoint target"
    and "find (\<lambda>u. uuid_parse (vu_id u) = Ok uuid) (vl_users cfg) = Some user"
    and "vu_flow user = None"
    and "c = \<lparr>rx = [0, 0] @ down, rx_end = ec, tx = [], tx_room = None\<rparr>"
    and "handshake_tcp flat_read flat_write uuid target c = (rc, c')"
    and "s = \<lparr>rx = tx c' @ up, rx_end = es, tx = [], tx_room = None\<rparr>"
  shows "rc = Ok () \<and> rx c' = down \<and>
    vless_server_handshake ct flat_read flat_write cfg s =
      (Ok \<lparr>vh_command = CMD_TCP, vh_target = target\<rparr>, s\<lparr>rx := up, tx := [0, 0]\<rparr>)"
proof -
  let ?req = "\<lparr>vr_uuid = uuid, vr_command = 1, vr_addons = [], vr_target = target\<rparr>"
  have c: "rc = Ok ()" "rx c' = down" "tx c' = build_request ?req"
    using assms(6,7) by (auto simp: handshake_tcp_def client_handshake_run build_request_def)
  have "vless_script cfg (rx s) =
      Some (\<lparr>vh_command = 1, vh_target = target\<rparr>, length (build_request ?req))"
    using vless_script_client [of ?req cfg user up] assms c by (simp add: client_request_def)
  then show ?thesis
    using vless_handshake_script [OF assms(1), of s cfg] assms(8) c by auto
qed

theorem client_server_agree_witness:
  "(let c = \<lparr>rx = [0, 0] @ [], rx_end = Closed, tx = [], tx_room = None\<rparr>;
        (rc, c') = handshake_tcp flat_read flat_write (replicate 16 0xA7) (EpDomain [0x61] 80) c;
        s = \<lparr>rx = tx c' @ [1, 2], rx_end = Closed, tx = [], tx_room = None\<rparr>
    in rc = Ok () \<and> rx c' = [] \<and>
       vless_server_handshake (=) flat_read flat_write
         \<lparr>vl_enabled = True, vl_users =
           [\<lparr>vu_id = uuid_display (replicate 16 0xA7), vu_email = None, vu_flow = None\<rparr>]\<rparr> s =
         (Ok \<lparr>vh_command = CMD_TCP, vh_target = EpDomain [0x61] 80\<rparr>, s\<lparr>rx := [1, 2], tx := [0, 0]\<rparr>))"
proof -
  have "length (replicate 16 0xA7 :: bytes) = 16" "wire_endpoint (EpDomain [0x61] 80)" by simp_all
  note agree = client_server_agree [OF ct_eq_spec_eq this _ _ refl surjective_pairing refl]
  show ?thesis
    unfolding Let_def case_prod_beta
    by (rule agree [of "\<lparr>vl_enabled = True, vl_users =
        [\<lparr>vu_id = uuid_display (replicate 16 0xA7), vu_email = None, vu_flow = None\<rparr>]\<rparr>"
        "\<lparr>vu_id = uuid_display (replicate 16 0xA7), vu_email = None, vu_flow = None\<rparr>"])
      (simp_all add: uuid_parse_display)
qed

end
