(* ===== verification/Socks5_Parse.thy ===== *)
theory Socks5_Parse
  imports Endpoint Wire
begin

text \<open>
  The pure SOCKS5 parsers of \<open>crates/skadi-protocol/src/socks5/parse.rs\<close>: greeting, user/password
  authentication, request, and the UDP datagram header with its encoder. Every index and slice
  of the source is a checked access, so that the absence of panics is a theorem.
\<close>

section \<open>Constants (\<open>socks5.rs\<close>)\<close>

definition SOCKS5_VERSION :: u8 where [simp]: "SOCKS5_VERSION = 0x05"
definition AUTH_VERSION :: u8 where [simp]: "AUTH_VERSION = 0x01"
definition METHOD_NO_AUTH :: u8 where [simp]: "METHOD_NO_AUTH = 0x00"
definition METHOD_USER_PASS :: u8 where [simp]: "METHOD_USER_PASS = 0x02"
definition METHOD_NO_ACCEPTABLE :: u8 where [simp]: "METHOD_NO_ACCEPTABLE = 0xFF"
definition CMD_CONNECT :: u8 where [simp]: "CMD_CONNECT = 0x01"
definition CMD_BIND :: u8 where [simp]: "CMD_BIND = 0x02"
definition CMD_UDP_ASSOCIATE :: u8 where [simp]: "CMD_UDP_ASSOCIATE = 0x03"
definition ATYP_IPV4 :: u8 where [simp]: "ATYP_IPV4 = 0x01"
definition ATYP_DOMAIN :: u8 where [simp]: "ATYP_DOMAIN = 0x03"
definition ATYP_IPV6 :: u8 where [simp]: "ATYP_IPV6 = 0x04"
definition MAX_METHODS :: nat where [simp]: "MAX_METHODS = 16"

section \<open>Data\<close>

datatype parse_error =
    Incomplete nat nat
  | BadVersion u8
  | ZeroMethods
  | TooManyMethods nat
  | BadAuthVersion u8
  | EmptyUsername
  | EmptyPassword
  | NonZeroRsv u8
  | UnsupportedCommand u8
  | UnsupportedAddressType u8
  | EmptyDomain
  | InvalidUtf8 string

record socks5_request =
  sr_command :: u8
  sr_target :: endpoint

fun incomplete :: "parse_error \<Rightarrow> (nat \<times> nat) option" where
  "incomplete (Incomplete need have) = Some (need, have)"
| "incomplete _ = None"

section \<open>Parsers\<close>

definition parse_greeting :: "bytes \<Rightarrow> (bytes \<times> nat, parse_error) outcome" where
  "parse_greeting input =
    (if length input < 2 then Err (Incomplete 2 (length input)) else
     ebind (idx input 0) (\<lambda>version.
     ebind (idx input 1) (\<lambda>b1.
     let nmethods = unat b1 in
     if version \<noteq> SOCKS5_VERSION then Err (BadVersion version)
     else if nmethods = 0 then Err ZeroMethods
     else if nmethods > MAX_METHODS then Err (TooManyMethods nmethods)
     else
       let total = 2 + nmethods in
       if length input < total then Err (Incomplete total (length input))
       else ebind (slice input 2 total) (\<lambda>methods. Ok (methods, total)))))"

definition parse_auth :: "bytes \<Rightarrow> ((rstring \<times> rstring) \<times> nat, parse_error) outcome" where
  "parse_auth input =
    (if length input < 2 then Err (Incomplete 2 (length input)) else
     ebind (idx input 0) (\<lambda>version.
     ebind (idx input 1) (\<lambda>b1.
     let ulen = unat b1 in
     if version \<noteq> AUTH_VERSION then Err (BadAuthVersion version)
     else if ulen = 0 then Err EmptyUsername
     else
       let after_uname = 2 + ulen in
       if length input < after_uname + 1 then Err (Incomplete (after_uname + 1) (length input))
       else
         ebind (idx input after_uname) (\<lambda>pb.
         let plen = unat pb in
         if plen = 0 then Err EmptyPassword
         else
           let total = after_uname + 1 + plen in
           if length input < total then Err (Incomplete total (length input))
           else
             ebind (slice input 2 after_uname) (\<lambda>ub.
             ebind (from_utf8 (InvalidUtf8 ''username'') ub) (\<lambda>uname.
             ebind (slice input (after_uname + 1) total) (\<lambda>wb.
             ebind (from_utf8 (InvalidUtf8 ''password'') wb) (\<lambda>passwd.
             Ok ((uname, passwd), total)))))))))"

definition parse_target :: "bytes \<Rightarrow> u8 \<Rightarrow> nat \<Rightarrow> (endpoint \<times> nat, parse_error) outcome" where
  "parse_target input atyp offset =
    (if atyp = ATYP_IPV4 then
       (let total = offset + 4 + 2 in
        if length input < total then Err (Incomplete total (length input))
        else
          ebind (idx input offset) (\<lambda>a.
          ebind (idx input (offset + 1)) (\<lambda>b.
          ebind (idx input (offset + 2)) (\<lambda>c.
          ebind (idx input (offset + 3)) (\<lambda>d.
          ebind (idx input (offset + 4)) (\<lambda>p0.
          ebind (idx input (offset + 5)) (\<lambda>p1.
          Ok (EpIp (sock_new (V4 (Ipv4 a b c d)) (u16_from_be p0 p1)), total))))))))
     else if atyp = ATYP_IPV6 then
       (let total = offset + 16 + 2 in
        if length input < total then Err (Incomplete total (length input))
        else
          ebind (slice input offset (offset + 16)) (\<lambda>octets.
          ebind (idx input (offset + 16)) (\<lambda>p0.
          ebind (idx input (offset + 17)) (\<lambda>p1.
          Ok (EpIp (sock_new (V6 (ipv6_from_octets octets)) (u16_from_be p0 p1)), total)))))
     else if atyp = ATYP_DOMAIN then
       (if length input < offset + 1 then Err (Incomplete (offset + 1) (length input))
        else
          ebind (idx input offset) (\<lambda>db.
          let dlen = unat db in
          if dlen = 0 then Err EmptyDomain
          else
            let after_domain = offset + 1 + dlen; total = after_domain + 2 in
            if length input < total then Err (Incomplete total (length input))
            else
              ebind (slice input (offset + 1) after_domain) (\<lambda>dbs.
              ebind (from_utf8 (InvalidUtf8 ''domain'') dbs) (\<lambda>domain.
              ebind (idx input after_domain) (\<lambda>p0.
              ebind (idx input (after_domain + 1)) (\<lambda>p1.
              Ok (EpDomain domain (u16_from_be p0 p1), total)))))))
     else Err (UnsupportedAddressType atyp))"

definition parse_request :: "bytes \<Rightarrow> (socks5_request \<times> nat, parse_error) outcome" where
  "parse_request input =
    (if length input < 4 then Err (Incomplete 4 (length input)) else
     ebind (idx input 0) (\<lambda>version.
     ebind (idx input 1) (\<lambda>cmd.
     ebind (idx input 2) (\<lambda>rsv.
     ebind (idx input 3) (\<lambda>atyp.
     if version \<noteq> SOCKS5_VERSION then Err (BadVersion version)
     else if rsv \<noteq> 0 then Err (NonZeroRsv rsv)
     else if cmd \<noteq> CMD_CONNECT \<and> cmd \<noteq> CMD_BIND \<and> cmd \<noteq> CMD_UDP_ASSOCIATE
       then Err (UnsupportedCommand cmd)
     else
       ebind (parse_target input atyp 4) (\<lambda>(target, consumed).
       Ok (\<lparr>sr_command = cmd, sr_target = target\<rparr>, consumed)))))))"

definition parse_udp_datagram :: "bytes \<Rightarrow> (endpoint \<times> nat, parse_error) outcome" where
  "parse_udp_datagram input =
    (if length input < 4 then Err (Incomplete 4 (length input)) else
     ebind (idx input 0) (\<lambda>b0.
     ebind (idx input 1) (\<lambda>b1.
     if b0 \<noteq> 0 \<or> b1 \<noteq> 0 then Err (NonZeroRsv b0)
     else
       ebind (idx input 2) (\<lambda>frag.
       if frag \<noteq> 0 then Err (UnsupportedCommand frag)
       else
         ebind (idx input 3) (\<lambda>atyp.
         ebind (parse_target input atyp 4) (\<lambda>(target, header_end).
         Ok (target, header_end)))))))"

section \<open>Encoder\<close>

definition encode_udp_datagram :: "endpoint \<Rightarrow> bytes \<Rightarrow> bytes" where
  "encode_udp_datagram target payload =
     [0, 0, 0] @
     (case target of
        EpIp (SockV4 ip port) \<Rightarrow> [ATYP_IPV4] @ ipv4_octets ip @ u16_to_be port
      | EpIp (SockV6 ip port _ _) \<Rightarrow> [ATYP_IPV6] @ ipv6_octets ip @ u16_to_be port
      | EpDomain host port \<Rightarrow>
          (let dlen = min (length host) 255 in
           [ATYP_DOMAIN] @ [word_of_nat dlen] @ take dlen host @ u16_to_be port)) @
     payload"

section \<open>The parsers without their accesses\<close>

text \<open>
  Every access of \<open>parse_target\<close> is in range under the guards before it: the checked version
  equals a plain case distinction. The facts below are proved from these flat forms.
\<close>

lemma parse_target_flat:
  "parse_target input atyp offset =
    (if atyp = 1 then
       if length input < offset + 6 then Err (Incomplete (offset + 6) (length input))
       else Ok (EpIp (SockV4 (Ipv4 (input ! offset) (input ! (offset + 1)) (input ! (offset + 2))
              (input ! (offset + 3))) (u16_from_be (input ! (offset + 4)) (input ! (offset + 5)))),
            offset + 6)
     else if atyp = 4 then
       if length input < offset + 18 then Err (Incomplete (offset + 18) (length input))
       else Ok (EpIp (SockV6 (ipv6_from_octets (take 16 (drop offset input)))
              (u16_from_be (input ! (offset + 16)) (input ! (offset + 17))) 0 0), offset + 18)
     else if atyp = 3 then
       if length input < offset + 1 then Err (Incomplete (offset + 1) (length input))
       else if unat (input ! offset) = 0 then Err EmptyDomain
       else if length input < offset + 3 + unat (input ! offset)
         then Err (Incomplete (offset + 3 + unat (input ! offset)) (length input))
       else if \<not> utf8_valid (take (unat (input ! offset)) (drop (offset + 1) input))
         then Err (InvalidUtf8 ''domain'')
       else Ok (EpDomain (take (unat (input ! offset)) (drop (offset + 1) input))
              (u16_from_be (input ! (offset + 1 + unat (input ! offset)))
                 (input ! (offset + 2 + unat (input ! offset)))),
            offset + 3 + unat (input ! offset))
     else Err (UnsupportedAddressType atyp))"
  by (simp add: parse_target_def Let_def idx_def slice_def from_utf8_def add_ac)

lemma parse_greeting_flat:
  "parse_greeting input =
    (if length input < 2 then Err (Incomplete 2 (length input))
     else if input ! 0 \<noteq> 5 then Err (BadVersion (input ! 0))
     else if unat (input ! 1) = 0 then Err ZeroMethods
     else if 16 < unat (input ! 1) then Err (TooManyMethods (unat (input ! 1)))
     else if length input < 2 + unat (input ! 1)
       then Err (Incomplete (2 + unat (input ! 1)) (length input))
     else Ok (take (unat (input ! 1)) (drop 2 input), 2 + unat (input ! 1)))"
  by (simp add: parse_greeting_def Let_def idx_def slice_def)

lemma parse_auth_flat:
  "parse_auth input =
    (if length input < 2 then Err (Incomplete 2 (length input))
     else if input ! 0 \<noteq> 1 then Err (BadAuthVersion (input ! 0))
     else if unat (input ! 1) = 0 then Err EmptyUsername
     else if length input < 3 + unat (input ! 1)
       then Err (Incomplete (3 + unat (input ! 1)) (length input))
     else let u = unat (input ! 1); p = unat (input ! (2 + u)) in
       if p = 0 then Err EmptyPassword
       else if length input < 3 + u + p then Err (Incomplete (3 + u + p) (length input))
       else if \<not> utf8_valid (take u (drop 2 input)) then Err (InvalidUtf8 ''username'')
       else if \<not> utf8_valid (take p (drop (3 + u) input)) then Err (InvalidUtf8 ''password'')
       else Ok ((take u (drop 2 input), take p (drop (3 + u) input)), 3 + u + p))"
  by (simp add: parse_auth_def Let_def idx_def slice_def from_utf8_def add_ac numeral_eq_Suc)

lemma parse_request_flat:
  "parse_request input =
    (if length input < 4 then Err (Incomplete 4 (length input))
     else if input ! 0 \<noteq> 5 then Err (BadVersion (input ! 0))
     else if input ! 2 \<noteq> 0 then Err (NonZeroRsv (input ! 2))
     else if input ! 1 \<noteq> 1 \<and> input ! 1 \<noteq> 2 \<and> input ! 1 \<noteq> 3
       then Err (UnsupportedCommand (input ! 1))
     else ebind (parse_target input (input ! 3) 4)
            (\<lambda>(target, n). Ok (\<lparr>sr_command = input ! 1, sr_target = target\<rparr>, n)))"
  by (simp add: parse_request_def idx_def)

lemma parse_udp_datagram_flat:
  "parse_udp_datagram input =
    (if length input < 4 then Err (Incomplete 4 (length input))
     else if input ! 0 \<noteq> 0 \<or> input ! 1 \<noteq> 0 then Err (NonZeroRsv (input ! 0))
     else if input ! 2 \<noteq> 0 then Err (UnsupportedCommand (input ! 2))
     else parse_target input (input ! 3) 4)"
  by (cases "parse_target input (input ! 3) 4")
    (auto simp: parse_udp_datagram_def idx_def)

section \<open>Framing facts\<close>

lemma returns_parse_target [simp]: "returns (parse_target input atyp offset)"
  by (simp add: parse_target_flat)

lemma parse_target_consumed:
  "parse_target input atyp offset = Ok (x, n) \<Longrightarrow> offset < n \<and> n \<le> length input"
  by (auto simp: parse_target_flat split: if_splits)

lemma parse_target_extend:
  "parse_target input atyp offset = Ok (x, n) \<Longrightarrow> parse_target (input @ ys) atyp offset = Ok (x, n)"
  by (subst (asm) parse_target_flat, simp only: outcome_cases split: if_split_asm)
    (simp_all add: parse_target_flat nth_app)

lemma parse_target_cut:
  "parse_target input atyp offset = Ok (x, n) \<Longrightarrow> parse_target (take n input) atyp offset = Ok (x, n)"
  by (subst (asm) parse_target_flat, simp only: outcome_cases split: if_split_asm)
    (simp_all add: parse_target_flat min_absorb2 drop_take)

lemma parse_target_incomplete:
  "parse_target input atyp offset = Err e \<Longrightarrow> incomplete e = Some (need, h) \<Longrightarrow>
     h = length input \<and> h < need"
  by (subst (asm) parse_target_flat, simp only: outcome_cases split: if_split_asm)
    (simp_all add: parse_target_flat nth_app)

lemma parse_target_stable:
  "parse_target input atyp offset = Err e \<Longrightarrow> incomplete e = Some (need, h) \<Longrightarrow>
     length (input @ ys) < need \<Longrightarrow>
     parse_target (input @ ys) atyp offset = Err (Incomplete need (length (input @ ys)))"
  by (subst (asm) parse_target_flat, simp only: outcome_cases split: if_split_asm)
    (simp_all add: parse_target_flat nth_app)

lemma parse_target_final:
  "parse_target input atyp offset = Err e \<Longrightarrow> incomplete e = None \<Longrightarrow>
     parse_target (input @ ys) atyp offset = Err e"
  by (subst (asm) parse_target_flat, simp only: outcome_cases split: if_split_asm)
    (simp_all add: parse_target_flat nth_app)

lemma parse_target_wire: "parse_target input atyp offset = Ok (x, n) \<Longrightarrow> wire_endpoint x"
  by (subst (asm) parse_target_flat, simp only: outcome_cases split: if_split_asm)
    (simp_all add: parse_target_flat nth_app)

interpretation greeting: streaming_parser parse_greeting incomplete
proof unfold_locales
  fix bs ys :: bytes and x n e need h
  show "returns (parse_greeting bs)"
    by (simp add: parse_greeting_flat)
  show "parse_greeting bs = Ok (x, n) \<Longrightarrow> 0 < n \<and> n \<le> length bs"
    by (subst (asm) parse_greeting_flat, simp only: outcome_cases split: if_split_asm)
      (simp_all add: parse_greeting_flat nth_app)
  show "parse_greeting bs = Ok (x, n) \<Longrightarrow> parse_greeting (bs @ ys) = Ok (x, n)"
    by (subst (asm) parse_greeting_flat, simp only: outcome_cases split: if_split_asm)
      (simp_all add: parse_greeting_flat nth_app)
  show "parse_greeting bs = Ok (x, n) \<Longrightarrow> parse_greeting (take n bs) = Ok (x, n)"
    by (subst (asm) parse_greeting_flat, simp only: outcome_cases split: if_split_asm)
      (simp_all add: parse_greeting_flat min_absorb2 drop_take)
  show "parse_greeting bs = Err e \<Longrightarrow> incomplete e = Some (need, h) \<Longrightarrow> h = length bs \<and> h < need"
    by (subst (asm) parse_greeting_flat, simp only: outcome_cases split: if_split_asm)
      (simp_all add: parse_greeting_flat nth_app)
  show "parse_greeting bs = Err e \<Longrightarrow> incomplete e = Some (need, h) \<Longrightarrow> length (bs @ ys) < need \<Longrightarrow>
      \<exists>e'. parse_greeting (bs @ ys) = Err e' \<and> incomplete e' = Some (need, length (bs @ ys))"
    by (subst (asm) parse_greeting_flat, simp only: outcome_cases split: if_split_asm)
      (simp_all add: parse_greeting_flat nth_app)
  show "parse_greeting bs = Err e \<Longrightarrow> incomplete e = None \<Longrightarrow> parse_greeting (bs @ ys) = Err e"
    by (subst (asm) parse_greeting_flat, simp only: outcome_cases split: if_split_asm)
      (simp_all add: parse_greeting_flat nth_app)
qed

interpretation auth: streaming_parser parse_auth incomplete
proof unfold_locales
  fix bs ys :: bytes and x n e need h
  show "returns (parse_auth bs)"
    by (simp add: parse_auth_flat Let_def)
  show "parse_auth bs = Ok (x, n) \<Longrightarrow> 0 < n \<and> n \<le> length bs"
    by (subst (asm) parse_auth_flat, unfold Let_def, simp only: outcome_cases split: if_split_asm)
      (simp_all add: parse_auth_flat Let_def nth_app)
  show "parse_auth bs = Ok (x, n) \<Longrightarrow> parse_auth (bs @ ys) = Ok (x, n)"
    by (subst (asm) parse_auth_flat, unfold Let_def, simp only: outcome_cases split: if_split_asm)
      (simp_all add: parse_auth_flat Let_def nth_app)
  show "parse_auth bs = Ok (x, n) \<Longrightarrow> parse_auth (take n bs) = Ok (x, n)"
    by (subst (asm) parse_auth_flat, unfold Let_def, simp only: outcome_cases split: if_split_asm)
      (simp_all add: parse_auth_flat Let_def min_absorb2 drop_take)
  show "parse_auth bs = Err e \<Longrightarrow> incomplete e = Some (need, h) \<Longrightarrow> h = length bs \<and> h < need"
    by (subst (asm) parse_auth_flat, unfold Let_def, simp only: outcome_cases split: if_split_asm)
      (simp_all add: parse_auth_flat Let_def nth_app)
  show "parse_auth bs = Err e \<Longrightarrow> incomplete e = Some (need, h) \<Longrightarrow> length (bs @ ys) < need \<Longrightarrow>
      \<exists>e'. parse_auth (bs @ ys) = Err e' \<and> incomplete e' = Some (need, length (bs @ ys))"
    by (subst (asm) parse_auth_flat, unfold Let_def, simp only: outcome_cases split: if_split_asm)
      (simp_all add: parse_auth_flat Let_def nth_app)
  show "parse_auth bs = Err e \<Longrightarrow> incomplete e = None \<Longrightarrow> parse_auth (bs @ ys) = Err e"
    by (subst (asm) parse_auth_flat, unfold Let_def, simp only: outcome_cases split: if_split_asm)
      (simp_all add: parse_auth_flat Let_def nth_app)
qed

lemma parse_request_Ok:
  "parse_request bs = Ok (r, n) \<longleftrightarrow>
     4 \<le> length bs \<and> bs ! 0 = 5 \<and> bs ! 2 = 0 \<and> sr_command r = bs ! 1 \<and>
     bs ! 1 \<in> {1, 2, 3} \<and> parse_target bs (bs ! 3) 4 = Ok (sr_target r, n)"
  by (cases r) (auto simp: parse_request_flat ebind_eq_Ok_conv)

interpretation request: streaming_parser parse_request incomplete
proof unfold_locales
  fix bs ys :: bytes and x n e need h
  show "returns (parse_request bs)"
    by (auto simp: parse_request_flat intro: returns_ebind)
  show "parse_request bs = Ok (x, n) \<Longrightarrow> 0 < n \<and> n \<le> length bs"
    by (auto simp: parse_request_Ok dest: parse_target_consumed)
  show "parse_request bs = Ok (x, n) \<Longrightarrow> parse_request (bs @ ys) = Ok (x, n)"
    by (auto simp: parse_request_Ok nth_app parse_target_extend)
  show "parse_request bs = Ok (x, n) \<Longrightarrow> parse_request (take n bs) = Ok (x, n)"
    using parse_target_consumed [of bs "bs ! 3" 4 "sr_target x" n]
    by (auto simp: parse_request_Ok parse_target_cut)
  show "parse_request bs = Err e \<Longrightarrow> incomplete e = Some (need, h) \<Longrightarrow> h = length bs \<and> h < need"
    by (auto simp: parse_request_flat ebind_eq_Err_conv dest: parse_target_incomplete
        split: if_split_asm)
  show "parse_request bs = Err e \<Longrightarrow> incomplete e = Some (need, h) \<Longrightarrow> length (bs @ ys) < need \<Longrightarrow>
      \<exists>e'. parse_request (bs @ ys) = Err e' \<and> incomplete e' = Some (need, length (bs @ ys))"
    using parse_target_stable [of bs "bs ! 3" 4 e need h ys]
    by (auto simp: parse_request_flat ebind_eq_Err_conv nth_app split: if_split_asm)
  show "parse_request bs = Err e \<Longrightarrow> incomplete e = None \<Longrightarrow> parse_request (bs @ ys) = Err e"
    using parse_target_final [of bs "bs ! 3" 4 e ys]
    by (auto simp: parse_request_flat ebind_eq_Err_conv nth_app split: if_split_asm)
qed

lemma parse_udp_datagram_Ok:
  "parse_udp_datagram bs = Ok (x, n) \<longleftrightarrow>
     4 \<le> length bs \<and> bs ! 0 = 0 \<and> bs ! 1 = 0 \<and> bs ! 2 = 0 \<and> parse_target bs (bs ! 3) 4 = Ok (x, n)"
  by (auto simp: parse_udp_datagram_flat)

interpretation udp_header: streaming_parser parse_udp_datagram incomplete
proof unfold_locales
  fix bs ys :: bytes and x n e need h
  show "returns (parse_udp_datagram bs)"
    by (simp add: parse_udp_datagram_flat)
  show "parse_udp_datagram bs = Ok (x, n) \<Longrightarrow> 0 < n \<and> n \<le> length bs"
    by (auto simp: parse_udp_datagram_Ok dest: parse_target_consumed)
  show "parse_udp_datagram bs = Ok (x, n) \<Longrightarrow> parse_udp_datagram (bs @ ys) = Ok (x, n)"
    by (auto simp: parse_udp_datagram_Ok nth_app parse_target_extend)
  show "parse_udp_datagram bs = Ok (x, n) \<Longrightarrow> parse_udp_datagram (take n bs) = Ok (x, n)"
    using parse_target_consumed [of bs "bs ! 3" 4 x n]
    by (auto simp: parse_udp_datagram_Ok parse_target_cut)
  show "parse_udp_datagram bs = Err e \<Longrightarrow> incomplete e = Some (need, h) \<Longrightarrow> h = length bs \<and> h < need"
    by (auto simp: parse_udp_datagram_flat dest: parse_target_incomplete split: if_split_asm)
  show "parse_udp_datagram bs = Err e \<Longrightarrow> incomplete e = Some (need, h) \<Longrightarrow>
      length (bs @ ys) < need \<Longrightarrow>
      \<exists>e'. parse_udp_datagram (bs @ ys) = Err e' \<and> incomplete e' = Some (need, length (bs @ ys))"
    using parse_target_stable [of bs "bs ! 3" 4 e need h ys]
    by (auto simp: parse_udp_datagram_flat nth_app split: if_split_asm)
  show "parse_udp_datagram bs = Err e \<Longrightarrow> incomplete e = None \<Longrightarrow> parse_udp_datagram (bs @ ys) = Err e"
    using parse_target_final [of bs "bs ! 3" 4 e ys]
    by (auto simp: parse_udp_datagram_flat nth_app split: if_split_asm)
qed

section \<open>Round trip of the UDP header\<close>

lemma encode_udp_datagram_split:
  "encode_udp_datagram target payload = encode_udp_datagram target [] @ payload"
  by (auto simp: encode_udp_datagram_def Let_def split: endpoint.splits socket_addr.splits)

lemma parse_encode_udp:
  assumes "wire_endpoint t"
  shows "parse_udp_datagram (encode_udp_datagram t []) = Ok (t, length (encode_udp_datagram t []))"
proof (cases t)
  case (EpIp sa)
  show ?thesis
  proof (cases sa)
    case (SockV4 ip port)
    then show ?thesis
      using EpIp by (cases ip)
        (simp add: parse_udp_datagram_flat parse_target_flat encode_udp_datagram_def u16_to_be_def)
  next
    case (SockV6 ip port f s)
    with EpIp assms show ?thesis
      by (simp add: parse_udp_datagram_flat parse_target_flat encode_udp_datagram_def
          nth_append u16_to_be_def)
  qed
next
  case (EpDomain host port)
  with assms have "host \<noteq> []" "length host \<le> 255" "utf8_valid host" by simp_all
  then show ?thesis
    using EpDomain
    by (simp add: parse_udp_datagram_flat parse_target_flat encode_udp_datagram_def
        nth_append u16_to_be_def min_absorb1)
qed

interpretation udp_codec: wire_codec parse_udp_datagram "\<lambda>t. encode_udp_datagram t []" wire_endpoint
  by unfold_locales (rule parse_encode_udp)

section \<open>Properties\<close>

text \<open>The SOCKS5 parsers answer every input: no index or slice of the greeting,
  authentication, request or UDP-header parser is out of range on any byte sequence.\<close>
lemma socks5_parsers_never_panic:
  "returns (parse_greeting bs) \<and> returns (parse_auth bs) \<and> returns (parse_request bs) \<and>
   returns (parse_udp_datagram bs)"
  using greeting.parse_returns auth.parse_returns request.parse_returns udp_header.parse_returns
  by blast

text \<open>A SOCKS5 request that parses once all its bytes are there is never rejected while they
  arrive: on every shorter buffer the parser either already returns the same request or asks for
  more, naming the bytes it has and a number it needs that the full input reaches.\<close>
lemma socks5_request_incremental:
  assumes "parse_request (bs @ ys) = Ok (req, n)"
  shows "parse_request bs = Ok (req, n) \<or>
    (\<exists>need. parse_request bs = Err (Incomplete need (length bs)) \<and>
       length bs < need \<and> need \<le> length (bs @ ys))"
proof -
  have "incomplete e = Some (need, h) \<Longrightarrow> e = Incomplete need h" for e need h
    by (cases e) auto
  then show ?thesis using request.incremental [OF assms] by metis
qed

text \<open>UDP datagrams round trip: the header written for an endpoint that the format can carry
  parses back to the endpoint, whatever payload follows, and the payload starts where the parser
  says the header ends.\<close>
lemma udp_datagram_roundtrip:
  assumes "wire_endpoint target"
  shows "\<exists>n. parse_udp_datagram (encode_udp_datagram target payload) = Ok (target, n) \<and>
    drop n (encode_udp_datagram target payload) = payload"
  using udp_codec.encode_parse_stream [OF assms, of payload]
  by (metis encode_udp_datagram_split append_eq_conv_conj)

end
