(* ===== verification/Socks5_Handler.thy ===== *)
theory Socks5_Handler
  imports Socks5_Parse Stream_IO
begin

text \<open>
  The SOCKS5 server handshake of \<open>crates/skadi-protocol/src/socks5.rs\<close>: greeting, method selection,
  user/password authentication and request, each read from the stream in pieces and handed to the
  pure parsers, with the replies the code sends. The handshake is shown to agree with a
  description of it on whole inputs (\<open>socks5_script\<close>), over every stream that keeps the contract
  of \<open>Stream_IO\<close>.
\<close>

section \<open>Configuration and errors\<close>

definition REP_SUCCEEDED :: u8 where [simp]: "REP_SUCCEEDED = 0x00"
definition REP_GENERAL_FAILURE :: u8 where [simp]: "REP_GENERAL_FAILURE = 0x01"
definition REP_NOT_ALLOWED :: u8 where [simp]: "REP_NOT_ALLOWED = 0x02"
definition REP_NETWORK_UNREACHABLE :: u8 where [simp]: "REP_NETWORK_UNREACHABLE = 0x03"
definition REP_HOST_UNREACHABLE :: u8 where [simp]: "REP_HOST_UNREACHABLE = 0x04"
definition REP_CONNECTION_REFUSED :: u8 where [simp]: "REP_CONNECTION_REFUSED = 0x05"
definition REP_TTL_EXPIRED :: u8 where [simp]: "REP_TTL_EXPIRED = 0x06"
definition REP_COMMAND_NOT_SUPPORTED :: u8 where [simp]: "REP_COMMAND_NOT_SUPPORTED = 0x07"
definition REP_ADDRESS_NOT_SUPPORTED :: u8 where [simp]: "REP_ADDRESS_NOT_SUPPORTED = 0x08"

datatype auth_method = NoAuth | UserPass

record user_credential =
  uc_username :: rstring
  uc_password :: rstring

record socks5_config =
  s5_enabled :: bool
  s5_auth :: auth_method
  s5_users :: "user_credential list"
  s5_bind :: bool
  s5_udp_associate :: bool

definition socks5_default :: socks5_config where
  "socks5_default =
     \<lparr>s5_enabled = False, s5_auth = NoAuth, s5_users = [], s5_bind = False,
      s5_udp_associate = False\<rparr>"

text \<open>One constructor per \<open>bail!\<close>, \<open>map_err\<close> and I/O error of the handshake.\<close>

datatype socks5_error =
    NegotiationTimeout
  | NegIo io_kind
  | NegTooManyMethods nat
  | NegGreetingParse parse_error
  | NegNoAcceptable
  | NegEmptyUsername
  | NegEmptyPassword
  | NegAuthParse parse_error
  | NegAuthFailed
  | NegEmptyDomain
  | NegAddressType u8
  | NegRequestParse u8 parse_error
  | NegBindDisabled
  | NegUdpDisabled

section \<open>Operations\<close>

definition lookup :: "socks5_config \<Rightarrow> rstring \<Rightarrow> rstring option" where
  "lookup cfg username =
     map_option uc_password (find (\<lambda>u. uc_username u = username) (s5_users cfg))"

definition constant_time_eq :: "ct_eq \<Rightarrow> rstring \<Rightarrow> rstring \<Rightarrow> bool" where
  "constant_time_eq ct a b = (if length a \<noteq> length b then False else ct a b)"

definition select_method :: "bytes \<Rightarrow> socks5_config \<Rightarrow> u8" where
  "select_method methods cfg =
     (let wanted = (case s5_auth cfg of NoAuth \<Rightarrow> METHOD_NO_AUTH | UserPass \<Rightarrow> METHOD_USER_PASS)
      in if wanted \<in> set methods then wanted else METHOD_NO_ACCEPTABLE)"

definition reply_bytes :: "u8 \<Rightarrow> socket_addr \<Rightarrow> bytes" where
  "reply_bytes code bound =
     [SOCKS5_VERSION, code, 0x00] @
     (case bound of
        SockV4 ip port \<Rightarrow> [ATYP_IPV4] @ ipv4_octets ip @ u16_to_be port
      | SockV6 ip port _ _ \<Rightarrow> [ATYP_IPV6] @ ipv6_octets ip @ u16_to_be port)"

type_synonym 's reader = "nat \<Rightarrow> ('s, bytes, io_kind) io"
type_synonym 's writer = "bytes \<Rightarrow> ('s, unit, io_kind) io"

text \<open>\<open>wr\<close> is \<open>write_all\<close> followed by \<open>flush\<close>.\<close>

definition socks5_write_all :: "'s writer \<Rightarrow> bytes \<Rightarrow> ('s, unit, socks5_error) io" where
  "socks5_write_all wr buf = io_map_err NegIo (wr buf)"

definition send_reply :: "'s writer \<Rightarrow> u8 \<Rightarrow> socket_addr \<Rightarrow> ('s, unit, socks5_error) io" where
  "send_reply wr code bound = socks5_write_all wr (reply_bytes code bound)"

definition send_error :: "'s writer \<Rightarrow> u8 \<Rightarrow> ('s, unit, socks5_error) io" where
  "send_error wr code = send_reply wr code (sock_new (V4 (Ipv4 0 0 0 0)) 0)"

definition read_greeting :: "'s reader \<Rightarrow> ('s, bytes, socks5_error) io" where
  "read_greeting rd =
     io_bind (io_map_err NegIo (rd 2)) (\<lambda>header.
     io_bind (io_lift (idx header 1)) (\<lambda>b1.
     let nmethods = unat b1 in
     if nmethods > MAX_METHODS then io_lift (Err (NegTooManyMethods nmethods))
     else
       io_bind (io_map_err NegIo (rd nmethods)) (\<lambda>rest.
       io_bind (io_lift (map_err NegGreetingParse (parse_greeting (header @ rest)))) (\<lambda>r.
       io_lift (Ok (fst r))))))"

definition perform_auth ::
  "ct_eq \<Rightarrow> 's reader \<Rightarrow> 's writer \<Rightarrow> socks5_config \<Rightarrow> ('s, unit, socks5_error) io" where
  "perform_auth ct rd wr cfg =
     io_bind (io_map_err NegIo (rd 2)) (\<lambda>header.
     io_bind (io_lift (idx header 1)) (\<lambda>b1.
     let ulen = unat b1 in
     if ulen = 0 then io_lift (Err NegEmptyUsername)
     else
       io_bind (io_map_err NegIo (rd ulen)) (\<lambda>uname_buf.
       io_bind (io_map_err NegIo (rd 1)) (\<lambda>plen_buf.
       io_bind (io_lift (idx plen_buf 0)) (\<lambda>p0.
       let plen = unat p0 in
       if plen = 0 then io_lift (Err NegEmptyPassword)
       else
         io_bind (io_map_err NegIo (rd plen)) (\<lambda>pass_buf.
         io_bind (io_lift (map_err NegAuthParse
             (parse_auth (header @ uname_buf @ [p0] @ pass_buf)))) (\<lambda>r.
         let uname = fst (fst r); passwd = snd (fst r);
             expected = (case lookup cfg uname of
                 Some p \<Rightarrow> p | None \<Rightarrow> lit ''__no_such_user__'');
             ok = constant_time_eq ct expected passwd;
             status = (if ok then 0x00 else 0x01)
         in io_bind (socks5_write_all wr [AUTH_VERSION, status]) (\<lambda>_.
            if \<not> ok then io_lift (Err NegAuthFailed) else io_lift (Ok ())))))))))"

fun reply_code :: "parse_error \<Rightarrow> u8" where
  "reply_code (UnsupportedCommand _) = REP_COMMAND_NOT_SUPPORTED"
| "reply_code (UnsupportedAddressType _) = REP_ADDRESS_NOT_SUPPORTED"
| "reply_code _ = REP_GENERAL_FAILURE"

definition read_request ::
  "'s reader \<Rightarrow> 's writer \<Rightarrow> socks5_config \<Rightarrow> ('s, socks5_request, socks5_error) io" where
  "read_request rd wr cfg =
     io_bind (io_map_err NegIo (rd 4)) (\<lambda>header.
     io_bind (io_lift (idx header 3)) (\<lambda>atyp.
     io_bind
      (if atyp = ATYP_IPV4 then
         io_bind (io_map_err NegIo (rd 6)) (\<lambda>rest. io_lift (Ok (header @ rest)))
       else if atyp = ATYP_IPV6 then
         io_bind (io_map_err NegIo (rd 18)) (\<lambda>rest. io_lift (Ok (header @ rest)))
       else if atyp = ATYP_DOMAIN then
         io_bind (io_map_err NegIo (rd 1)) (\<lambda>len_buf.
         io_bind (io_lift (idx len_buf 0)) (\<lambda>l0.
         let dlen = unat l0 in
         if dlen = 0 then
           io_bind (io_ignore (send_error wr REP_ADDRESS_NOT_SUPPORTED)) (\<lambda>_.
           io_lift (Err NegEmptyDomain))
         else
           io_bind (io_map_err NegIo (rd (dlen + 2))) (\<lambda>rest.
           io_lift (Ok (header @ [l0] @ rest)))))
       else
         io_bind (io_ignore (send_error wr REP_ADDRESS_NOT_SUPPORTED)) (\<lambda>_.
         io_lift (Err (NegAddressType atyp)))) (\<lambda>buf.
     io_bind (io_lift (map_err (\<lambda>e. NegRequestParse (reply_code e) e) (parse_request buf))) (\<lambda>r.
     let request = fst r in
     if sr_command request = CMD_BIND \<and> \<not> s5_bind cfg then
       io_bind (io_ignore (send_error wr REP_COMMAND_NOT_SUPPORTED)) (\<lambda>_.
       io_lift (Err NegBindDisabled))
     else if sr_command request = CMD_UDP_ASSOCIATE \<and> \<not> s5_udp_associate cfg then
       io_bind (io_ignore (send_error wr REP_COMMAND_NOT_SUPPORTED)) (\<lambda>_.
       io_lift (Err NegUdpDisabled))
     else io_lift (Ok request)))))"

definition negotiate_inner ::
  "ct_eq \<Rightarrow> 's reader \<Rightarrow> 's writer \<Rightarrow> socks5_config \<Rightarrow> ('s, socks5_request, socks5_error) io" where
  "negotiate_inner ct rd wr cfg =
     io_bind (read_greeting rd) (\<lambda>methods.
     let selected = select_method methods cfg in
     io_bind (socks5_write_all wr [SOCKS5_VERSION, selected]) (\<lambda>_.
     if selected = METHOD_NO_ACCEPTABLE then io_lift (Err NegNoAcceptable)
     else
       io_bind (if selected = METHOD_USER_PASS then perform_auth ct rd wr cfg else io_lift (Ok ()))
         (\<lambda>_. read_request rd wr cfg)))"

definition negotiate ::
  "ct_eq \<Rightarrow> 's reader \<Rightarrow> 's writer \<Rightarrow> socks5_config \<Rightarrow> ('s, socks5_request, socks5_error) io" where
  "negotiate ct rd wr cfg = io_timeout NegotiationTimeout (negotiate_inner ct rd wr cfg)"

section \<open>What a successful handshake is\<close>

text \<open>
  The accepted inputs, on the whole byte sequence: the request, how many bytes it took, and the
  bytes the server sent. No stream and no partial read is left in this description.
\<close>

definition command_allowed :: "socks5_config \<Rightarrow> u8 \<Rightarrow> bool" where
  "command_allowed cfg cmd \<longleftrightarrow>
     (cmd = CMD_BIND \<longrightarrow> s5_bind cfg) \<and> (cmd = CMD_UDP_ASSOCIATE \<longrightarrow> s5_udp_associate cfg)"

definition password_accepted :: "socks5_config \<Rightarrow> rstring \<Rightarrow> rstring \<Rightarrow> bool" where
  "password_accepted cfg user pass \<longleftrightarrow>
     (case lookup cfg user of Some p \<Rightarrow> pass = p | None \<Rightarrow> pass = lit ''__no_such_user__'')"

definition socks5_script :: "socks5_config \<Rightarrow> bytes \<Rightarrow> (socks5_request \<times> nat \<times> bytes) option" where
  "socks5_script cfg bs =
     (case parse_greeting bs of
        Ok (methods, n) \<Rightarrow>
          (case s5_auth cfg of
             NoAuth \<Rightarrow>
               if 0 \<in> set methods then
                 (case parse_request (drop n bs) of
                    Ok (req, k) \<Rightarrow>
                      if command_allowed cfg (sr_command req) then Some (req, n + k, [5, 0]) else None
                  | _ \<Rightarrow> None)
               else None
           | UserPass \<Rightarrow>
               if 2 \<in> set methods then
                 (case parse_auth (drop n bs) of
                    Ok ((user, pass), m) \<Rightarrow>
                      if password_accepted cfg user pass then
                        (case parse_request (drop (n + m) bs) of
                           Ok (req, k) \<Rightarrow>
                             if command_allowed cfg (sr_command req)
                             then Some (req, n + m + k, [5, 2, 1, 0]) else None
                         | _ \<Rightarrow> None)
                      else None
                  | _ \<Rightarrow> None)
               else None)
      | _ \<Rightarrow> None)"

section \<open>The handshake over every stream that keeps the contract\<close>

context byte_stream
begin

lemma send_error_sim [sim_intros]: "sim view (send_error wr code) (send_error flat_write code)"
  unfolding send_error_def send_reply_def socks5_write_all_def by (intro sim_intros)

lemma read_greeting_sim [sim_intros]: "sim view (read_greeting rd) (read_greeting flat_read)"
  unfolding read_greeting_def by (intro sim_intros)

lemma perform_auth_sim [sim_intros]:
  "sim view (perform_auth ct rd wr cfg) (perform_auth ct flat_read flat_write cfg)"
  unfolding perform_auth_def socks5_write_all_def by (intro sim_intros)

lemma read_request_sim [sim_intros]:
  "sim view (read_request rd wr cfg) (read_request flat_read flat_write cfg)"
  unfolding read_request_def by (intro sim_intros)

lemma negotiate_sim: "sim view (negotiate ct rd wr cfg) (negotiate ct flat_read flat_write cfg)"
  unfolding negotiate_def negotiate_inner_def socks5_write_all_def by (intro sim_intros)

end

section \<open>Reading in pieces agrees with parsing the whole\<close>

lemma constant_time_eq_iff: "ct_eq_spec ct \<Longrightarrow> constant_time_eq ct a b \<longleftrightarrow> a = b"
  by (auto simp: constant_time_eq_def ct_eq_spec_def)

lemma read_greeting_Ok:
  "read_greeting flat_read s = (Ok ms, t) \<longleftrightarrow>
     (\<exists>n. parse_greeting (rx s) = Ok (ms, n) \<and> t = s\<lparr>rx := drop n (rx s)\<rparr>)"
  (is "?run \<longleftrightarrow> ?parse")
proof
  assume ?run
  then obtain n where 
    "2 \<le> length (rx s)" "unat (rx s ! 1) \<le> 16" "2 + unat (rx s ! 1) \<le> length (rx s)"
    and p: "parse_greeting (take (2 + unat (rx s ! 1)) (rx s)) = Ok (ms, n)"
    and t: "t = s\<lparr>rx := drop (2 + unat (rx s ! 1)) (rx s)\<rparr>"
    by (auto simp: read_greeting_def io_bind_Ok flat_read_Ok idx_eq_Ok Let_def take_add [symmetric]
        split: if_split_asm)
  moreover from p have "n = 2 + unat (rx s ! 1)"
    by (simp add: parse_greeting_flat split: if_split_asm)
  ultimately show ?parse
    using greeting.parse_extend [OF p, of "drop (2 + unat (rx s ! 1)) (rx s)"] by auto
next
  assume ?parse
  then obtain n where p: "parse_greeting (rx s) = Ok (ms, n)" and t: "t = s\<lparr>rx := drop n (rx s)\<rparr>"
    by blast
  then have "n = 2 + unat (rx s ! 1)" "unat (rx s ! 1) \<le> 16" "n \<le> length (rx s)"
    by (simp_all add: parse_greeting_flat split: if_split_asm)
  with greeting.parse_cut [OF p] t show ?run
    by (auto simp: read_greeting_def io_bind_Ok flat_read_Ok idx_eq_Ok Let_def take_add [symmetric])
qed

lemma take_byte_take:
  "a < length xs \<Longrightarrow> take a xs @ xs ! a # take p (drop (Suc a) xs) = take (Suc (a + p)) xs"
  using take_add [of "Suc a" p xs] by (simp add: take_Suc_conv_app_nth)

lemma flat_write_None:
  "tx_room s = None \<Longrightarrow> flat_write bs s = (Ok x, t) \<longleftrightarrow> t = s\<lparr>tx := tx s @ bs\<rparr>"
  by (auto simp: flat_write_def)

lemma parse_auth_frame:
  "parse_auth bs = Ok (up, n) \<Longrightarrow> 0 < unat (bs ! 1) \<and> 0 < unat (bs ! (2 + unat (bs ! 1))) \<and>
     n = 3 + unat (bs ! 1) + unat (bs ! (2 + unat (bs ! 1))) \<and> n \<le> length bs"
  by (subst (asm) parse_auth_flat, unfold Let_def, simp only: outcome_cases split: if_split_asm) simp

lemma auth_buffer:
  assumes "2 + u < length xs"
  shows "take 2 xs @ take u (drop 2 xs) @ xs ! (2 + u) # take p (drop (3 + u) xs) =
    take (3 + u + p) xs"
proof -
  have "take 2 xs @ take u (drop 2 xs) = take (2 + u) xs" by (simp only: take_add)
  then have "take 2 xs @ take u (drop 2 xs) @ zs = take (2 + u) xs @ zs" for zs
    by (metis append_assoc)
  moreover have "Suc (2 + u) = 3 + u" and "Suc (2 + u + p) = 3 + u + p" by simp_all
  ultimately show ?thesis using take_byte_take [OF assms, of p] by metis
qed

lemma perform_auth_run:
  assumes ct: "ct_eq_spec ct" and room: "tx_room s = None"
    and u: "unat (rx s ! 1) = u" "0 < u" and p: "unat (rx s ! (2 + u)) = p" "0 < p"
    and n: "3 + u + p = n" "n \<le> length (rx s)"
  shows "perform_auth ct flat_read flat_write cfg s =
    (case parse_auth (take n (rx s)) of
       Ok ((user, pass), n') \<Rightarrow>
         if password_accepted cfg user pass
         then (Ok (), s\<lparr>rx := drop n (rx s), tx := tx s @ [1, 0]\<rparr>)
         else (Err NegAuthFailed, s\<lparr>rx := drop n (rx s), tx := tx s @ [1, 1]\<rparr>)
     | Err e \<Rightarrow> (Err (NegAuthParse e), s\<lparr>rx := drop n (rx s)\<rparr>)
     | Panic \<Rightarrow> (Panic, s\<lparr>rx := drop n (rx s)\<rparr>)
     | Pending \<Rightarrow> (Pending, s\<lparr>rx := drop n (rx s)\<rparr>))"
proof -
  define buf where "buf = take n (rx s)"
  have buf: "take 2 (rx s) @ take u (drop 2 (rx s)) @
      rx s ! Suc (Suc u) # take p (drop (Suc (Suc (Suc u))) (rx s)) = buf"
    using auth_buffer [of u "rx s" p] n by (simp add: buf_def numeral_3_eq_3)
  have len: "Suc (Suc u) < length (rx s)" "p \<le> length (rx s) - Suc (Suc (Suc u))"
    "Suc 0 \<le> length (rx s) - Suc (Suc u)" "u \<le> length (rx s) - 2"
    "Suc (Suc (Suc (p + u))) = n"
    using n by simp_all
  show ?thesis
    unfolding buf_def [symmetric]
    using u p len
    by (simp add: perform_auth_def run_simps Let_def socks5_write_all_def room buf
        constant_time_eq_iff [OF ct] password_accepted_def split: outcome.split option.split)
qed

lemma perform_auth_reads:
  "perform_auth ct flat_read flat_write cfg s = (Ok x, t) \<Longrightarrow>
     0 < unat (rx s ! 1) \<and> 0 < unat (rx s ! (2 + unat (rx s ! 1))) \<and>
     3 + unat (rx s ! 1) + unat (rx s ! (2 + unat (rx s ! 1))) \<le> length (rx s)"
  by (auto simp: perform_auth_def run_simps Let_def split: if_split_asm)

lemma perform_auth_Ok:
  assumes ct: "ct_eq_spec ct" and room: "tx_room s = None"
  shows "perform_auth ct flat_read flat_write cfg s = (Ok x, t) \<longleftrightarrow>
     (\<exists>user pass n. parse_auth (rx s) = Ok ((user, pass), n) \<and> password_accepted cfg user pass \<and>
        t = s\<lparr>rx := drop n (rx s), tx := tx s @ [1, 0]\<rparr>)"
  (is "?run \<longleftrightarrow> ?parse")
proof -
  define n where "n = 3 + unat (rx s ! 1) + unat (rx s ! (2 + unat (rx s ! 1)))"
  note run = perform_auth_run [OF ct room refl _ refl _ n_def [symmetric]]
  show ?thesis
  proof
    assume r: ?run
    from perform_auth_reads [OF r] have len: "0 < unat (rx s ! 1)"
      "0 < unat (rx s ! (2 + unat (rx s ! 1)))" "n \<le> length (rx s)" by (simp_all add: n_def)
    with r run obtain user pass k where p: "parse_auth (take n (rx s)) = Ok ((user, pass), k)"
      and ok: "password_accepted cfg user pass" "t = s\<lparr>rx := drop n (rx s), tx := tx s @ [1, 0]\<rparr>"
      by (auto split: outcome.splits if_split_asm)
    from parse_auth_frame [OF p] len have "k = n" by (simp add: n_def)
    with auth.parse_extend [OF p, of "drop n (rx s)"] ok show ?parse by auto
  next
    assume ?parse
    then obtain user pass k where p: "parse_auth (rx s) = Ok ((user, pass), k)"
      and ok: "password_accepted cfg user pass" "t = s\<lparr>rx := drop k (rx s), tx := tx s @ [1, 0]\<rparr>"
      by blast
    from parse_auth_frame [OF p] have "0 < unat (rx s ! 1)"
      "0 < unat (rx s ! (2 + unat (rx s ! 1)))" "k = n" "n \<le> length (rx s)"
      by (simp_all add: n_def)
    with run auth.parse_cut [OF p] ok show ?run by simp
  qed
qed

text \<open>How many bytes a request occupies is known from its first five bytes.\<close>

definition request_len :: "bytes \<Rightarrow> nat" where
  "request_len bs = (if bs ! 3 = 1 then 10 else if bs ! 3 = 4 then 22 else 7 + unat (bs ! 4))"

lemma parse_request_frame:
  "parse_request bs = Ok (r, n) \<Longrightarrow>
     n = request_len bs \<and> n \<le> length bs \<and>
     (bs ! 3 = 1 \<or> bs ! 3 = 4 \<or> bs ! 3 = 3 \<and> 0 < unat (bs ! 4))"
  by (auto simp: parse_request_Ok parse_target_flat request_len_def split: if_split_asm)

definition request_outcome ::
  "socks5_config \<Rightarrow> (socks5_request \<times> nat, parse_error) outcome \<Rightarrow> stream \<Rightarrow>
   (socks5_request, socks5_error) outcome \<times> stream" where
  "request_outcome cfg p s =
    (case p of
       Ok (req, n) \<Rightarrow>
         if command_allowed cfg (sr_command req) then (Ok req, s)
         else (Err (if sr_command req = 2 then NegBindDisabled else NegUdpDisabled),
               s\<lparr>tx := tx s @ reply_bytes 7 (sock_new (V4 (Ipv4 0 0 0 0)) 0)\<rparr>)
     | Err e \<Rightarrow> (Err (NegRequestParse (reply_code e) e), s)
     | Panic \<Rightarrow> (Panic, s) | Pending \<Rightarrow> (Pending, s))"

lemma read_request_run:
  assumes room: "tx_room s = None" and len: "request_len (rx s) \<le> length (rx s)"
    and at: "rx s ! 3 = 1 \<or> rx s ! 3 = 4 \<or> rx s ! 3 = 3 \<and> 0 < unat (rx s ! 4)"
  shows "read_request flat_read flat_write cfg s =
    request_outcome cfg (parse_request (take (request_len (rx s)) (rx s)))
      (s\<lparr>rx := drop (request_len (rx s)) (rx s)\<rparr>)"
proof -
  define buf where "buf = take (request_len (rx s)) (rx s)"
  note run = read_request_def run_simps Let_def send_error_def send_reply_def
    socks5_write_all_def request_outcome_def command_allowed_def
  show ?thesis
    using at
  proof (elim disjE conjE)
    assume at: "rx s ! 3 = 1"
    with len have "take 4 (rx s) @ take 6 (drop 4 (rx s)) = buf" "6 \<le> length (rx s) - 4"
      "request_len (rx s) = 10" "4 \<le> length (rx s)"
      by (simp_all add: buf_def request_len_def take_add [symmetric])
    with at room show ?thesis
      unfolding buf_def [symmetric] by (auto simp: run split: outcome.split)
  next
    assume at: "rx s ! 3 = 4"
    with len have "take 4 (rx s) @ take 18 (drop 4 (rx s)) = buf" "18 \<le> length (rx s) - 4"
      "request_len (rx s) = 22" "4 \<le> length (rx s)"
      by (simp_all add: buf_def request_len_def take_add [symmetric])
    with at room show ?thesis
      unfolding buf_def [symmetric] by (auto simp: run split: outcome.split)
  next
    assume at: "rx s ! 3 = 3"  "0 < unat (rx s ! 4)"
    define d where "d = unat (rx s ! 4)"
    have "take 4 (rx s) @ rx s ! 4 # take (d + 2) (drop (Suc 4) (rx s)) = take (Suc (4 + (d + 2))) (rx s)"
      by (rule take_byte_take) (use len at in \<open>simp add: request_len_def\<close>)
    with at len have "take 4 (rx s) @ rx s ! 4 # take (Suc (Suc d)) (drop 5 (rx s)) = buf"
      "Suc (Suc d) \<le> length (rx s) - 5" "request_len (rx s) = 7 + d" "4 \<le> length (rx s)"
      "Suc 0 \<le> length (rx s) - 4" "4 < length (rx s)"  "0 < d" "unat (rx s ! 4) = d"
      "Suc (Suc d) + 5 = 7 + d"
      by (simp_all add: buf_def request_len_def d_def)
    with at room show ?thesis
      unfolding buf_def [symmetric] by (auto simp: run split: outcome.split)
  qed
qed

lemma request_outcome_Ok:
  "request_outcome cfg p s = (Ok req, t) \<longleftrightarrow>
     t = s \<and> (\<exists>n. p = Ok (req, n)) \<and> command_allowed cfg (sr_command req)"
  by (auto simp: request_outcome_def split: outcome.split)

lemma read_request_reads:
  assumes "tx_room s = None" and "read_request flat_read flat_write cfg s = (Ok req, t)"
  shows "request_len (rx s) \<le> length (rx s) \<and>
    (rx s ! 3 = 1 \<or> rx s ! 3 = 4 \<or> rx s ! 3 = 3 \<and> 0 < unat (rx s ! 4))"
  using assms
  by (auto simp: read_request_def run_simps Let_def send_error_def send_reply_def
      socks5_write_all_def request_len_def split: if_split_asm)

lemma read_request_Ok:
  assumes room: "tx_room s = None"
  shows "read_request flat_read flat_write cfg s = (Ok req, t) \<longleftrightarrow>
     (\<exists>n. parse_request (rx s) = Ok (req, n) \<and> command_allowed cfg (sr_command req) \<and>
        t = s\<lparr>rx := drop n (rx s)\<rparr>)"
  (is "?run \<longleftrightarrow> ?parse")
proof
  let ?n = "request_len (rx s)"
  assume r: ?run
  note reads = read_request_reads [OF room r]
  with r read_request_run [OF room] obtain k where p: "parse_request (take ?n (rx s)) = Ok (req, k)"
    and ok: "command_allowed cfg (sr_command req)" "t = s\<lparr>rx := drop ?n (rx s)\<rparr>"
    by (auto simp: request_outcome_Ok)
  from request.parse_extend [OF p, of "drop ?n (rx s)"] have "parse_request (rx s) = Ok (req, k)"
    by simp
  with parse_request_frame [OF this] ok show ?parse by blast
next
  assume ?parse
  then obtain n where p: "parse_request (rx s) = Ok (req, n)"
    and ok: "command_allowed cfg (sr_command req)" "t = s\<lparr>rx := drop n (rx s)\<rparr>"
    by blast
  from parse_request_frame [OF p] read_request_run [OF room] request.parse_cut [OF p] ok
  show ?run by (auto simp: request_outcome_Ok)
qed

section \<open>The whole handshake\<close>

lemma byte_codes [simp]: "(0::u8) \<noteq> 255" "(255::u8) \<noteq> 0" "(2::u8) \<noteq> 255" "(0::u8) \<noteq> 2"
  by simp_all

lemma negotiate_step:
  assumes room: "tx_room s = None"
  shows "negotiate ct flat_read flat_write cfg s = (Ok req, t) \<longleftrightarrow>
    (\<exists>ms n. parse_greeting (rx s) = Ok (ms, n) \<and>
       (case s5_auth cfg of
          NoAuth \<Rightarrow> 0 \<in> set ms \<and>
            read_request flat_read flat_write cfg (s\<lparr>rx := drop n (rx s), tx := tx s @ [5, 0]\<rparr>) = (Ok req, t)
        | UserPass \<Rightarrow> 2 \<in> set ms \<and>
            (\<exists>w. perform_auth ct flat_read flat_write cfg (s\<lparr>rx := drop n (rx s), tx := tx s @ [5, 2]\<rparr>) =
                (Ok (), w) \<and> read_request flat_read flat_write cfg w = (Ok req, t))))"
proof -
  have greet: "negotiate ct flat_read flat_write cfg s = (Ok req, t) \<longleftrightarrow>
    (\<exists>ms n. parse_greeting (rx s) = Ok (ms, n) \<and>
       io_bind (socks5_write_all flat_write [SOCKS5_VERSION, select_method ms cfg]) (\<lambda>_.
         if select_method ms cfg = METHOD_NO_ACCEPTABLE then io_lift (Err NegNoAcceptable)
         else io_bind (if select_method ms cfg = METHOD_USER_PASS
             then perform_auth ct flat_read flat_write cfg else io_lift (Ok ()))
           (\<lambda>_. read_request flat_read flat_write cfg)) (s\<lparr>rx := drop n (rx s)\<rparr>) = (Ok req, t))"
    unfolding negotiate_def io_timeout_Ok negotiate_inner_def Let_def
    by (subst io_bind_Ok) (auto simp: read_greeting_Ok)
  show ?thesis
    unfolding greet
    by (cases "s5_auth cfg")
      (auto simp: select_method_def socks5_write_all_def room run_write run_lift io_bind_Ok
        intro!: ex_cong1)
qed

lemma negotiate_script:
  assumes ct: "ct_eq_spec ct" and room: "tx_room s = None"
  shows "negotiate ct flat_read flat_write cfg s = (Ok req, t) \<longleftrightarrow>
    (\<exists>n w. socks5_script cfg (rx s) = Some (req, n, w) \<and>
       t = s\<lparr>rx := drop n (rx s), tx := tx s @ w\<rparr>)"
proof (cases "s5_auth cfg")
  case NoAuth
  with room show ?thesis
    by (auto simp: negotiate_step read_request_Ok socks5_script_def add_ac
        split: outcome.splits if_split_asm)
next
  case UserPass
  with room show ?thesis
    by (auto simp: negotiate_step read_request_Ok perform_auth_Ok [OF ct] socks5_script_def add_ac
        split: outcome.splits if_split_asm)
qed

section \<open>The handshake always answers\<close>

context byte_stream
begin

lemma send_error_no_panic: "no_panic (send_error wr code)"
  unfolding send_error_def send_reply_def socks5_write_all_def
  by (rule no_panic_map_err [OF no_panic_write])

lemma read_greeting_no_panic: "no_panic (read_greeting rd)"
  unfolding read_greeting_def
  by (rule no_panic_read greeting.parse_returns no_panic_rules | simp)+

lemma perform_auth_no_panic: "no_panic (perform_auth ct rd wr cfg)"
  unfolding perform_auth_def socks5_write_all_def
  by (rule no_panic_read no_panic_write auth.parse_returns no_panic_rules | simp)+

lemma read_request_no_panic: "no_panic (read_request rd wr cfg)"
  unfolding read_request_def
  by (rule no_panic_read send_error_no_panic request.parse_returns no_panic_rules | simp)+

lemma negotiate_no_panic: "no_panic (negotiate_inner ct rd wr cfg)"
  unfolding negotiate_inner_def socks5_write_all_def
  by (rule no_panic_read no_panic_write read_greeting_no_panic perform_auth_no_panic
      read_request_no_panic no_panic_rules | simp)+

end

section \<open>Properties\<close>

text \<open>C1: over every stream that keeps the contract, the SOCKS5 handshake succeeds exactly on the
  inputs that the pure parsers accept in sequence (greeting offering the configured method, right
  password when one is required, allowed command). It then returns the parsed request, has taken
  exactly the bytes of the messages and has sent exactly the two (or four) reply bytes.\<close>
theorem socks5_handshake_correct:
  assumes "byte_stream rd wr view" and "ct_eq_spec ct" and "tx_room (view s) = None"
  shows "(\<exists>t. negotiate ct rd wr cfg s = (Ok req, t) \<and> view t = v) \<longleftrightarrow>
    (\<exists>n w. socks5_script cfg (rx (view s)) = Some (req, n, w) \<and>
       v = (view s)\<lparr>rx := drop n (rx (view s)), tx := tx (view s) @ w\<rparr>)"
proof -
  have "(\<exists>t. negotiate ct rd wr cfg s = (Ok req, t) \<and> view t = v) \<longleftrightarrow>
      negotiate ct flat_read flat_write cfg (view s) = (Ok req, v)"
    using simD [OF byte_stream.negotiate_sim [OF assms(1), of ct cfg], of s]
    by (cases "negotiate ct rd wr cfg s") auto
  then show ?thesis using negotiate_script [OF assms(2,3)] by simp
qed

theorem socks5_handshake_correct_witness:
  "(\<exists>t. negotiate (=) (prefixed_read flat_read) (prefixed_write flat_write)
      \<lparr>s5_enabled = True, s5_auth = NoAuth, s5_users = [], s5_bind = False, s5_udp_associate = False\<rparr>
      \<lparr>ps_inner = \<lparr>rx = [1, 0, 5, 1, 0, 1, 8, 8, 8, 8, 0, 53, 9], rx_end = Closed, tx = [], tx_room = None\<rparr>,
       ps_prefix = Some 5\<rparr> =
      (Ok \<lparr>sr_command = 1, sr_target = EpIp (SockV4 (Ipv4 8 8 8 8) 53)\<rparr>, t) \<and>
      prefixed_view (\<lambda>s. s) t = \<lparr>rx = [9], rx_end = Closed, tx = [5, 0], tx_room = None\<rparr>)"
  using socks5_handshake_correct [OF prefixed.byte_stream_axioms ct_eq_spec_eq,
      of "\<lparr>ps_inner = \<lparr>rx = [1, 0, 5, 1, 0, 1, 8, 8, 8, 8, 0, 53, 9], rx_end = Closed, tx = [],
        tx_room = None\<rparr>, ps_prefix = Some 5\<rparr>"
      "\<lparr>s5_enabled = True, s5_auth = NoAuth, s5_users = [], s5_bind = False, s5_udp_associate = False\<rparr>"
      "\<lparr>sr_command = 1, sr_target = EpIp (SockV4 (Ipv4 8 8 8 8) 53)\<rparr>"
      "\<lparr>rx = [9], rx_end = Closed, tx = [5, 0], tx_room = None\<rparr>"]
  by (simp add: prefixed_view_def socks5_script_def parse_greeting_flat parse_request_flat
      parse_target_flat command_allowed_def u16_from_be_def)

text \<open>C38: over every stream that keeps the contract the SOCKS5 handshake returns: it neither panics
  nor waits for ever, whatever the peer sends, closes or withholds.\<close>
theorem socks5_handshake_returns:
  assumes "byte_stream rd wr view"
  shows "returns (fst (negotiate ct rd wr cfg s))"
  unfolding negotiate_def
  by (rule no_panic_timeout_returns [OF byte_stream.negotiate_no_panic [OF assms]])

theorem socks5_handshake_returns_witness:
  "returns (fst (negotiate (=) flat_read flat_write socks5_default
     \<lparr>rx = [5, 2, 0], rx_end = Stalled, tx = [], tx_room = None\<rparr>))"
  by (rule socks5_handshake_returns [OF flat.byte_stream_axioms])

text \<open>C36: which passwords open the door. A configured user authenticates with that user's first
  configured password only; an unknown user name authenticates with the dummy string
  \<open>__no_such_user__\<close> that the code compares against to hide whether the user exists.\<close>
theorem socks5_password_check:
  assumes "ct_eq_spec ct" and "tx_room s = None"
    and "parse_auth (rx s) = Ok ((user, pass), length (rx s))"
  shows "(\<exists>t. perform_auth ct flat_read flat_write cfg s = (Ok (), t)) \<longleftrightarrow>
    (case find (\<lambda>u. uc_username u = user) (s5_users cfg) of
       Some u \<Rightarrow> pass = uc_password u
     | None \<Rightarrow> pass = lit ''__no_such_user__'')"
  using perform_auth_Ok [OF assms(1,2), of cfg] assms(3)
  by (auto simp: password_accepted_def lookup_def split: option.splits)

theorem socks5_password_check_witness:
  "(\<exists>t. perform_auth (=) flat_read flat_write
      (socks5_default\<lparr>s5_auth := UserPass, s5_users := [\<lparr>uc_username = lit ''bob'', uc_password = lit ''pw''\<rparr>]\<rparr>)
      \<lparr>rx = [1, 1, 0x78, 16] @ lit ''__no_such_user__'', rx_end = Closed, tx = [], tx_room = None\<rparr> = (Ok (), t))"
  using socks5_password_check [OF ct_eq_spec_eq,
      of "\<lparr>rx = [1, 1, 0x78, 16] @ lit ''__no_such_user__'', rx_end = Closed, tx = [], tx_room = None\<rparr>"
      "[0x78]" "lit ''__no_such_user__''"
      "socks5_default\<lparr>s5_auth := UserPass, s5_users := [\<lparr>uc_username = lit ''bob'', uc_password = lit ''pw''\<rparr>]\<rparr>"]
  by (simp add: parse_auth_flat Let_def lit_def)

end
