(* ===== verification/Clock.thy ===== *)
theory Clock
  imports Prelude
begin

text \<open>
  Time of the standard library: instants and durations in nanoseconds. \<open>duration_since\<close> saturates
  at zero, which is subtraction on naturals. Adding a duration to an instant panics when the sum
  is not representable; on Unix an instant holds its seconds in 64 signed bits.
\<close>

type_synonym instant = nat
type_synonym duration = nat

definition from_secs :: "nat \<Rightarrow> duration" where
  "from_secs n = n * 1000000000"

definition DURATION_MAX :: duration where
  "DURATION_MAX = (2 ^ 64 - 1) * 1000000000 + 999999999"

definition INSTANT_MAX :: instant where
  "INSTANT_MAX = (2 ^ 63 - 1) * 1000000000 + 999999999"

definition instant_add :: "instant \<Rightarrow> duration \<Rightarrow> (instant, 'e) outcome" where
  "instant_add t d = (if t + d \<le> INSTANT_MAX then Ok (t + d) else Panic)"

definition U32_MAX :: nat where "U32_MAX = 2 ^ 32 - 1"

lemma instant_add_max: "instant_add t DURATION_MAX = Panic"
  by (simp add: instant_add_def INSTANT_MAX_def DURATION_MAX_def)

text \<open>
  \<open>tokio::time::sleep\<close>: the timer's deadline. An unrepresentable deadline is replaced by one that
  is never reached.
\<close>

definition sleep_deadline :: "instant \<Rightarrow> duration \<Rightarrow> instant option" where
  "sleep_deadline t d = (if t + d \<le> INSTANT_MAX then Some (t + d) else None)"

definition elapsed :: "instant \<Rightarrow> instant option \<Rightarrow> bool" where
  "elapsed now deadline = (case deadline of None \<Rightarrow> False | Some t \<Rightarrow> t \<le> now)"

end
