(* ===== verification/Relay.thy ===== *)
theory Relay
  imports Endpoint Clock
begin

text \<open>
  The bidirectional copy with session limits (\<open>crates/skadi-transport/src/relay.rs\<close>). The loop
  waits for the first of four branches; which one completes, when, and what the reads and writes
  return is the environment's choice, so a run is a sequence of timed events. While a write or a
  shutdown is awaited nothing else is polled.
\<close>

section \<open>Limits\<close>

record relay_limits =
  rl_idle :: "duration option"
  rl_max_lifetime :: "duration option"

definition has_limits :: "relay_limits \<Rightarrow> bool" where
  "has_limits l \<longleftrightarrow> rl_idle l \<noteq> None \<or> rl_max_lifetime l \<noteq> None"

datatype relay_error = IdleTimeout | SessionLifetime | RelayIo io_kind

section \<open>One turn of a loop\<close>

text \<open>A turn either continues with a new state or returns from the function.\<close>

datatype ('s, 'r) loop_step = Continue 's | Return 'r

definition loop_of :: "('s, 'e) outcome \<Rightarrow> ('s, ('r, 'e) outcome) loop_step" where
  "loop_of r = (case r of Ok st \<Rightarrow> Continue st | Err e \<Rightarrow> Return (Err e) | Panic \<Rightarrow> Return Panic
     | Pending \<Rightarrow> Return Pending)"

lemma loop_of_Continue: "loop_of r = Continue st \<longleftrightarrow> r = Ok st"
  by (auto simp: loop_of_def split: outcome.splits)

section \<open>The loop\<close>

record copy_state =
  cp_a_to_b :: u64
  cp_b_to_a :: u64
  cp_a_read_done :: bool
  cp_b_read_done :: bool
  cp_idle_deadline :: "instant option"
  cp_lifetime_deadline :: "instant option"
  cp_sent_a :: bytes
  cp_sent_b :: bytes
  cp_shut_a :: bool
  cp_shut_b :: bool

text \<open>
  \<open>FromA r w\<close>: reading from \<open>a\<close> returned \<open>r\<close>, and the following write to \<open>b\<close> (or its shutdown
  at the end of the stream) returned \<open>w\<close>.
\<close>

datatype copy_event =
    IdleElapsed
  | LifetimeElapsed
  | FromA "(bytes, io_kind) outcome" "(unit, io_kind) outcome"
  | FromB "(bytes, io_kind) outcome" "(unit, io_kind) outcome"

definition copy_init :: "relay_limits \<Rightarrow> instant \<Rightarrow> copy_state" where
  "copy_init lim now =
     \<lparr>cp_a_to_b = 0, cp_b_to_a = 0, cp_a_read_done = False, cp_b_read_done = False,
      cp_idle_deadline = sleep_deadline now (case rl_idle lim of Some d \<Rightarrow> d | None \<Rightarrow> DURATION_MAX),
      cp_lifetime_deadline =
        sleep_deadline now (case rl_max_lifetime lim of Some d \<Rightarrow> d | None \<Rightarrow> DURATION_MAX),
      cp_sent_a = [], cp_sent_b = [], cp_shut_a = False, cp_shut_b = False\<rparr>"

text \<open>Which branches the \<open>select!\<close> polls, and when a timer branch completes.\<close>

fun copy_enabled :: "relay_limits \<Rightarrow> instant \<Rightarrow> copy_event \<Rightarrow> copy_state \<Rightarrow> bool" where
  "copy_enabled lim now IdleElapsed st \<longleftrightarrow> rl_idle lim \<noteq> None \<and> elapsed now (cp_idle_deadline st)"
| "copy_enabled lim now LifetimeElapsed st \<longleftrightarrow>
     rl_max_lifetime lim \<noteq> None \<and> elapsed now (cp_lifetime_deadline st)"
| "copy_enabled lim now (FromA r w) st \<longleftrightarrow> \<not> cp_a_read_done st"
| "copy_enabled lim now (FromB r w) st \<longleftrightarrow> \<not> cp_b_read_done st"

text \<open>\<open>if idle_enabled { idle_deadline.reset(Instant::now() + limits.idle.unwrap()) }\<close>.\<close>

definition reset_idle :: "relay_limits \<Rightarrow> instant \<Rightarrow> copy_state \<Rightarrow> (copy_state, relay_error) outcome" where
  "reset_idle lim now st =
     (case rl_idle lim of
        None \<Rightarrow> Ok st
      | Some idle \<Rightarrow> ebind (instant_add now idle) (\<lambda>t. Ok (st\<lparr>cp_idle_deadline := Some t\<rparr>)))"

fun copy_branch ::
  "relay_limits \<Rightarrow> instant \<Rightarrow> copy_event \<Rightarrow> copy_state \<Rightarrow> (copy_state, relay_error) outcome" where
  "copy_branch lim now IdleElapsed st = Err IdleTimeout"
| "copy_branch lim now LifetimeElapsed st = Err SessionLifetime"
| "copy_branch lim now (FromA res w) st =
     ebind (map_err RelayIo res) (\<lambda>buf.
     if buf = [] then
       (let st = st\<lparr>cp_a_read_done := True\<rparr> in
        ebind (map_err RelayIo w) (\<lambda>_. Ok (st\<lparr>cp_shut_b := True\<rparr>)))
     else
       ebind (map_err RelayIo w) (\<lambda>_.
       let st = st\<lparr>cp_sent_b := cp_sent_b st @ buf\<rparr>;
           st = st\<lparr>cp_a_to_b := cp_a_to_b st + word_of_nat (length buf)\<rparr>
       in reset_idle lim now st))"
| "copy_branch lim now (FromB res w) st =
     ebind (map_err RelayIo res) (\<lambda>buf.
     if buf = [] then
       (let st = st\<lparr>cp_b_read_done := True\<rparr> in
        ebind (map_err RelayIo w) (\<lambda>_. Ok (st\<lparr>cp_shut_a := True\<rparr>)))
     else
       ebind (map_err RelayIo w) (\<lambda>_.
       let st = st\<lparr>cp_sent_a := cp_sent_a st @ buf\<rparr>;
           st = st\<lparr>cp_b_to_a := cp_b_to_a st + word_of_nat (length buf)\<rparr>
       in reset_idle lim now st))"

text \<open>
  The loop over the events that happen. An event of a branch that is not polled does not reach
  the loop; when no more events happen the loop waits.
\<close>

fun copy_loop ::
  "relay_limits \<Rightarrow> (instant \<times> copy_event) list \<Rightarrow> copy_state \<Rightarrow>
     (u64 \<times> u64, relay_error) outcome \<times> copy_state" where
  "copy_loop lim [] st =
     (if cp_a_read_done st \<and> cp_b_read_done st then (Ok (cp_a_to_b st, cp_b_to_a st), st) else (Pending, st))"
| "copy_loop lim ((now, ev) # evs) st =
     (if cp_a_read_done st \<and> cp_b_read_done st then (Ok (cp_a_to_b st, cp_b_to_a st), st)
      else if \<not> copy_enabled lim now ev st then copy_loop lim evs st
      else case copy_branch lim now ev st of
          Ok st' \<Rightarrow> copy_loop lim evs st'
        | Err e \<Rightarrow> (Err e, st)
        | Panic \<Rightarrow> (Panic, st)
        | Pending \<Rightarrow> (Pending, st))"

text \<open>\<open>unlimited\<close> is \<open>tokio::io::copy_bidirectional\<close>, used when no limit is set.\<close>

definition copy_bidirectional_with_limits ::
  "((instant \<times> copy_event) list \<Rightarrow> (u64 \<times> u64, relay_error) outcome \<times> copy_state) \<Rightarrow>
     relay_limits \<Rightarrow> instant \<Rightarrow> (instant \<times> copy_event) list \<Rightarrow>
     (u64 \<times> u64, relay_error) outcome \<times> copy_state" where
  "copy_bidirectional_with_limits unlimited lim now evs =
     (if \<not> has_limits lim then unlimited evs else copy_loop lim evs (copy_init lim now))"

definition copy_bidirectional_with_idle_timeout ::
  "duration \<Rightarrow> instant \<Rightarrow> (instant \<times> copy_event) list \<Rightarrow>
     (u64 \<times> u64, relay_error) outcome \<times> copy_state" where
  "copy_bidirectional_with_idle_timeout idle now evs =
     copy_loop \<lparr>rl_idle = Some idle, rl_max_lifetime = None\<rparr> evs
       (copy_init \<lparr>rl_idle = Some idle, rl_max_lifetime = None\<rparr> now)"

section \<open>What a run has done\<close>

text \<open>What \<open>a\<close> and \<open>b\<close> have sent before their end of stream.\<close>

fun stream_a :: "(instant \<times> copy_event) list \<Rightarrow> bytes" where
  "stream_a [] = []"
| "stream_a ((_, FromA (Ok buf) _) # evs) = (if buf = [] then [] else buf @ stream_a evs)"
| "stream_a ((_, FromA _ _) # evs) = []"
| "stream_a (_ # evs) = stream_a evs"

fun stream_b :: "(instant \<times> copy_event) list \<Rightarrow> bytes" where
  "stream_b [] = []"
| "stream_b ((_, FromB (Ok buf) _) # evs) = (if buf = [] then [] else buf @ stream_b evs)"
| "stream_b ((_, FromB _ _) # evs) = []"
| "stream_b (_ # evs) = stream_b evs"

definition copied :: "copy_state \<Rightarrow> bool" where
  "copied st \<longleftrightarrow> cp_a_to_b st = word_of_nat (length (cp_sent_b st)) \<and>
     cp_b_to_a st = word_of_nat (length (cp_sent_a st)) \<and>
     (cp_a_read_done st \<longleftrightarrow> cp_shut_b st) \<and> (cp_b_read_done st \<longleftrightarrow> cp_shut_a st)"

lemma copied_init: "copied (copy_init lim now)"
  by (simp add: copied_def copy_init_def)

lemma reset_idle_Ok:
  "reset_idle lim now st = Ok st' \<Longrightarrow> \<exists>t. st' = st\<lparr>cp_idle_deadline := t\<rparr>"
  by (auto simp: reset_idle_def ebind_eq_Ok_conv split: option.splits intro: exI [of _ "cp_idle_deadline st"])

lemma from_a_cases:
  assumes "copy_branch lim now (FromA res w) st = Ok st'"
  obtains (eof) "res = Ok []" "w = Ok ()" "st' = st\<lparr>cp_a_read_done := True, cp_shut_b := True\<rparr>"
    | (data) buf where "res = Ok buf" "buf \<noteq> []" "w = Ok ()"
      "reset_idle lim now (st\<lparr>cp_sent_b := cp_sent_b st @ buf,
         cp_a_to_b := cp_a_to_b st + word_of_nat (length buf)\<rparr>) = Ok st'"
  using assms by (auto simp: ebind_eq_Ok_conv Let_def split: if_split_asm)

lemma from_b_cases:
  assumes "copy_branch lim now (FromB res w) st = Ok st'"
  obtains (eof) "res = Ok []" "w = Ok ()" "st' = st\<lparr>cp_b_read_done := True, cp_shut_a := True\<rparr>"
    | (data) buf where "res = Ok buf" "buf \<noteq> []" "w = Ok ()"
      "reset_idle lim now (st\<lparr>cp_sent_a := cp_sent_a st @ buf,
         cp_b_to_a := cp_b_to_a st + word_of_nat (length buf)\<rparr>) = Ok st'"
  using assms by (auto simp: ebind_eq_Ok_conv Let_def split: if_split_asm)

lemma copied_branch:
  assumes "copy_branch lim now ev st = Ok st'" and "copied st"
  shows "copied st'"
proof (cases ev)
  case (FromA res w)
  with assms(1) have "copy_branch lim now (FromA res w) st = Ok st'" by simp
  then show ?thesis using assms(2) by (cases rule: from_a_cases) (auto simp: copied_def dest: reset_idle_Ok)
next
  case (FromB res w)
  with assms(1) have "copy_branch lim now (FromB res w) st = Ok st'" by simp
  then show ?thesis using assms(2) by (cases rule: from_b_cases) (auto simp: copied_def dest: reset_idle_Ok)
qed (use assms in simp_all)

text \<open>One event appends what was read to what the other side was sent.\<close>

lemma branch_streams:
  assumes "copy_branch lim now ev st = Ok st'" and "copy_enabled lim now ev st"
  shows "cp_sent_b st @ (if cp_a_read_done st then [] else stream_a ((now, ev) # evs)) =
           cp_sent_b st' @ (if cp_a_read_done st' then [] else stream_a evs) \<and>
         cp_sent_a st @ (if cp_b_read_done st then [] else stream_b ((now, ev) # evs)) =
           cp_sent_a st' @ (if cp_b_read_done st' then [] else stream_b evs)"
proof (cases ev)
  case (FromA res w)
  with assms(1) have "copy_branch lim now (FromA res w) st = Ok st'" by simp
  then show ?thesis using assms(2) FromA by (cases rule: from_a_cases) (auto dest: reset_idle_Ok)
next
  case (FromB res w)
  with assms(1) have "copy_branch lim now (FromB res w) st = Ok st'" by simp
  then show ?thesis using assms(2) FromB by (cases rule: from_b_cases) (auto dest: reset_idle_Ok)
qed (use assms in simp_all)

text \<open>An event of a branch that is not polled adds nothing.\<close>

lemma disabled_streams:
  "\<not> copy_enabled lim now ev st \<Longrightarrow>
     (if cp_a_read_done st then [] else stream_a ((now, ev) # evs)) = (if cp_a_read_done st then [] else stream_a evs) \<and>
     (if cp_b_read_done st then [] else stream_b ((now, ev) # evs)) = (if cp_b_read_done st then [] else stream_b evs)"
  by (cases ev) simp_all

lemma copy_loop_streams:
  assumes "copy_loop lim evs st = (r, st')"
  shows "\<exists>ra rb. cp_sent_b st @ (if cp_a_read_done st then [] else stream_a evs) =
            cp_sent_b st' @ (if cp_a_read_done st' then [] else ra) \<and>
          cp_sent_a st @ (if cp_b_read_done st then [] else stream_b evs) =
            cp_sent_a st' @ (if cp_b_read_done st' then [] else rb)"
  using assms
proof (induction lim evs st rule: copy_loop.induct)
  case (1 lim st)
  then have "st' = st" by (simp split: if_split_asm)
  then show ?case by auto
next
  case (2 lim now ev evs st)
  show ?case
  proof (cases "cp_a_read_done st \<and> cp_b_read_done st")
    case True
    with "2.prems" show ?thesis by simp
  next
    case running: False
    show ?thesis
    proof (cases "copy_enabled lim now ev st")
      case False
      with running "2.prems" have "copy_loop lim evs st = (r, st')" by auto
      from "2.IH"(1) [OF running False this] disabled_streams [OF False, of evs] show ?thesis by presburger
    next
      case True
      show ?thesis
      proof (cases "copy_branch lim now ev st")
        case (Ok st1)
        with running True "2.prems" have "copy_loop lim evs st1 = (r, st')" by auto
        from "2.IH"(2) [OF running _ Ok this] True branch_streams [OF Ok True, of evs] show ?thesis by presburger
      qed (use running True "2.prems" in auto)
    qed
  qed
qed

lemma copy_loop_copied: "copy_loop lim evs st = (r, st') \<Longrightarrow> copied st \<Longrightarrow> copied st'"
proof (induction lim evs st rule: copy_loop.induct)
  case (2 lim now ev evs st)
  then show ?case
    using copied_branch [of lim now ev st]
    by (cases "copy_branch lim now ev st") (auto split: if_split_asm)
qed (auto split: if_split_asm)

lemma copy_loop_Ok: "copy_loop lim evs st = (Ok n, st') \<Longrightarrow>
    n = (cp_a_to_b st', cp_b_to_a st') \<and> cp_a_read_done st' \<and> cp_b_read_done st'"
proof (induction lim evs st rule: copy_loop.induct)
  case (2 lim now ev evs st)
  then show ?case
    by (cases "copy_branch lim now ev st") (auto split: if_split_asm)
qed (auto split: if_split_asm)

section \<open>When the idle timer fires\<close>

text \<open>The time of the last transfer in either direction.\<close>

fun last_transfer :: "bool \<Rightarrow> bool \<Rightarrow> instant \<Rightarrow> (instant \<times> copy_event) list \<Rightarrow> instant" where
  "last_transfer ad bd t [] = t"
| "last_transfer ad bd t ((now, FromA (Ok buf) w) # evs) =
     (if ad then last_transfer ad bd t evs
      else if buf = [] then last_transfer True bd t evs else last_transfer ad bd now evs)"
| "last_transfer ad bd t ((now, FromB (Ok buf) w) # evs) =
     (if bd then last_transfer ad bd t evs
      else if buf = [] then last_transfer ad True t evs else last_transfer ad bd now evs)"
| "last_transfer ad bd t (_ # evs) = last_transfer ad bd t evs"

lemma branch_idle:
  assumes "copy_branch lim now ev st = Ok st'" and "copy_enabled lim now ev st" and "rl_idle lim = Some d"
    and "cp_idle_deadline st = Some (t + d)"
  shows "\<exists>t'. cp_idle_deadline st' = Some (t' + d) \<and>
     last_transfer (cp_a_read_done st) (cp_b_read_done st) t ((now, ev) # pre) =
     last_transfer (cp_a_read_done st') (cp_b_read_done st') t' pre"
proof (cases ev)
  case (FromA res w)
  with assms(1) have "copy_branch lim now (FromA res w) st = Ok st'" by simp
  then show ?thesis
    using assms(2-4) FromA
    by (cases rule: from_a_cases) (auto simp: reset_idle_def ebind_eq_Ok_conv instant_add_def split: if_split_asm)
next
  case (FromB res w)
  with assms(1) have "copy_branch lim now (FromB res w) st = Ok st'" by simp
  then show ?thesis
    using assms(2-4) FromB
    by (cases rule: from_b_cases) (auto simp: reset_idle_def ebind_eq_Ok_conv instant_add_def split: if_split_asm)
qed (use assms in simp_all)

lemma disabled_idle:
  "\<not> copy_enabled lim now ev st \<Longrightarrow>
     last_transfer (cp_a_read_done st) (cp_b_read_done st) t ((now, ev) # pre) =
     last_transfer (cp_a_read_done st) (cp_b_read_done st) t pre"
proof (cases ev)
  case (FromA r w)
  moreover assume "\<not> copy_enabled lim now ev st"
  ultimately show ?thesis by (cases r) simp_all
next
  case (FromB r w)
  moreover assume "\<not> copy_enabled lim now ev st"
  ultimately show ?thesis by (cases r) simp_all
qed simp_all

lemma branch_idle_error:
  "copy_branch lim now ev st = Err IdleTimeout \<Longrightarrow> ev = IdleElapsed"
  by (cases ev)
    (auto simp: ebind_eq_Err_conv map_err_eq_Err_conv Let_def reset_idle_def instant_add_def
      split: if_split_asm option.splits)

lemma copy_loop_idle:
  assumes "copy_loop lim evs st = (Err IdleTimeout, st')" and "rl_idle lim = Some d"
    and "cp_idle_deadline st = Some (t + d)"
  shows "\<exists>pre now post. evs = pre @ (now, IdleElapsed) # post \<and>
     last_transfer (cp_a_read_done st) (cp_b_read_done st) t pre + d \<le> now"
  using assms
proof (induction lim evs st arbitrary: t rule: copy_loop.induct)
  case (1 lim st)
  then show ?case by (simp split: if_split_asm)
next
  case (2 lim now ev evs st)
  then have running: "\<not> (cp_a_read_done st \<and> cp_b_read_done st)" by auto
  show ?case
  proof (cases "copy_enabled lim now ev st")
    case False
    with running "2.prems"(1) have "copy_loop lim evs st = (Err IdleTimeout, st')" by auto
    from "2.IH"(1) [OF running False this "2.prems"(2,3)] obtain pre n post where
      "evs = pre @ (n, IdleElapsed) # post"
      "last_transfer (cp_a_read_done st) (cp_b_read_done st) t pre + d \<le> n" by blast
    then show ?thesis
      by (intro exI [of _ "(now, ev) # pre"]) (simp only: disabled_idle [OF False], simp)
  next
    case True
    show ?thesis
    proof (cases "copy_branch lim now ev st")
      case (Ok st1)
      with running True "2.prems"(1) have loop: "copy_loop lim evs st1 = (Err IdleTimeout, st')" by auto
      from branch_idle [OF Ok True "2.prems"(2,3)] obtain t' where
        t': "cp_idle_deadline st1 = Some (t' + d)" by blast
      from "2.IH"(2) [OF running _ Ok loop "2.prems"(2) t'] True obtain pre n post where
        pre: "evs = pre @ (n, IdleElapsed) # post"
        "last_transfer (cp_a_read_done st1) (cp_b_read_done st1) t' pre + d \<le> n" by blast
      from branch_idle [OF Ok True "2.prems"(2,3), of pre] t' have
        "last_transfer (cp_a_read_done st) (cp_b_read_done st) t ((now, ev) # pre) + d \<le> n"
        using pre(2) by auto
      with pre(1) show ?thesis by (intro exI [of _ "(now, ev) # pre"]) simp
    next
      case (Err e)
      with running True "2.prems"(1) have "e = IdleTimeout" by auto
      with Err have ev: "ev = IdleElapsed" using branch_idle_error by blast
      with True "2.prems"(3) have "t + d \<le> now" by (simp add: elapsed_def)
      with ev show ?thesis by (intro exI [of _ "[]"]) simp
    qed (use running True "2.prems"(1) in auto)
  qed
qed

section \<open>Properties\<close>

text \<open>C4: the relay delivers what it reads, in order and once. Whatever happens and however it ends,
  each side has been sent a prefix of what the other side sent, and the counters are the numbers
  of bytes delivered; when the relay returns normally each side has been sent everything the other
  sent before its end of stream, and both have been shut down.\<close>
theorem relay_delivers:
  "case copy_loop lim evs (copy_init lim t0) of (r, st) \<Rightarrow>
     (\<exists>ra rb. stream_a evs = cp_sent_b st @ ra \<and> stream_b evs = cp_sent_a st @ rb) \<and>
     cp_a_to_b st = word_of_nat (length (cp_sent_b st)) \<and>
     cp_b_to_a st = word_of_nat (length (cp_sent_a st)) \<and>
     (case r of
        Ok n \<Rightarrow> n = (cp_a_to_b st, cp_b_to_a st) \<and> cp_sent_b st = stream_a evs \<and>
          cp_sent_a st = stream_b evs \<and> cp_shut_a st \<and> cp_shut_b st
      | _ \<Rightarrow> True)"
proof -
  obtain r st where run: "copy_loop lim evs (copy_init lim t0) = (r, st)"
    by (cases "copy_loop lim evs (copy_init lim t0)")
  from copy_loop_streams [OF run] obtain ra rb where
    "stream_a evs = cp_sent_b st @ (if cp_a_read_done st then [] else ra)"
    "stream_b evs = cp_sent_a st @ (if cp_b_read_done st then [] else rb)"
    by (auto simp: copy_init_def)
  moreover have "copied st" using copy_loop_copied [OF run copied_init] .
  ultimately show ?thesis
    using run copy_loop_Ok [of lim evs "copy_init lim t0" _ st]
    by (cases r) (auto simp: copied_def)
qed

text \<open>The idle timeout is never early: when the relay ends with the idle timeout, at least the
  idle period has passed since the start and since the last transfer in either direction.\<close>
lemma idle_timeout_not_early:
  assumes "copy_loop lim evs (copy_init lim t0) = (Err IdleTimeout, st)"
    and "rl_idle lim = Some d" and "t0 + d \<le> INSTANT_MAX"
  shows "\<exists>pre now post. evs = pre @ (now, IdleElapsed) # post \<and>
     last_transfer False False t0 pre + d \<le> now"
  using copy_loop_idle [OF assms(1,2), of t0] assms(2,3)
  by (simp add: copy_init_def sleep_deadline_def)

text \<open>A peer that does not read keeps the session beyond every limit: a write that is not accepted
  leaves the relay waiting, with no timer polled.\<close>

lemma stalled_write_defeats_limits:
  "copy_loop lim ((now, FromA (Ok (b # bs)) Pending) # evs) (copy_init lim t0) =
     (Pending, copy_init lim t0)"
  by (simp add: copy_init_def)

end
