(* ===== verification/Udp_Relay.thy ===== *)
theory Udp_Relay
  imports Relay Stream_IO
begin

text \<open>
  UDP over VLESS (\<open>crates/skadi-transport/src/udp.rs\<close>): datagrams in frames with a two-byte length,
  and the relay loop between the client stream and a datagram socket. The loop races reading a
  frame against receiving a datagram; the reading future is created anew in every iteration, so
  the bytes it had taken from the stream are gone when the other branch wins. The model keeps
  those bytes apart from the bytes that are still in the stream.
\<close>

section \<open>Frames\<close>

definition MAX_VLESS_UDP_PAYLOAD :: nat where [simp]: "MAX_VLESS_UDP_PAYLOAD = 65535"

definition read_vless_udp_frame :: "(nat \<Rightarrow> ('s, bytes, io_kind) io) \<Rightarrow> ('s, bytes option, io_kind) io" where
  "read_vless_udp_frame rd s =
     (case rd 2 s of
        (Err e, s) \<Rightarrow> if e = UnexpectedEof then (Ok None, s) else (Err e, s)
      | (Panic, s) \<Rightarrow> (Panic, s)
      | (Pending, s) \<Rightarrow> (Pending, s)
      | (Ok len_buf, s) \<Rightarrow>
          (let len = be16_at len_buf 0 in
           if len > MAX_VLESS_UDP_PAYLOAD then (Err InvalidData, s)
           else if len > 0 then io_bind (rd len) (\<lambda>payload. io_lift (Ok (Some payload))) s
           else (Ok (Some []), s)))"

definition write_vless_udp_frame :: "(bytes \<Rightarrow> ('s, unit, io_kind) io) \<Rightarrow> bytes \<Rightarrow> ('s, unit, io_kind) io" where
  "write_vless_udp_frame wr payload =
     (if length payload > MAX_VLESS_UDP_PAYLOAD then io_lift (Err InvalidData)
      else
        io_bind (wr (u16_to_be (word_of_nat (length payload)))) (\<lambda>_.
        io_bind (wr payload) (\<lambda>_. io_lift (Ok ()))))"

text \<open>The bytes of a frame.\<close>

definition frame_bytes :: "bytes \<Rightarrow> bytes" where
  "frame_bytes payload = u16_to_be (word_of_nat (length payload)) @ payload"

text \<open>A whole frame at the head of a byte sequence, with the bytes after it.\<close>

definition split_frame :: "bytes \<Rightarrow> (bytes \<times> bytes) option" where
  "split_frame bs =
     (if 2 \<le> length bs \<and> 2 + be16_at bs 0 \<le> length bs
      then Some (take (be16_at bs 0) (drop 2 bs), drop (2 + be16_at bs 0) bs) else None)"

section \<open>The relay loop\<close>

record udp_state =
  ud_taken :: bytes
  ud_stream :: bytes
  ud_sent :: "bytes list"
  ud_tx :: bytes
  ud_client_to_upstream :: u64
  ud_upstream_to_client :: u64
  ud_idle_deadline :: "instant option"
  ud_lifetime_deadline :: "instant option"

text \<open>
  \<open>Arrive bs\<close>: bytes from the client reach the stream. \<open>PollClient w\<close>: the reading future runs as
  far as the stream allows; \<open>w\<close> is the result of sending the datagram, if it completes a frame.
  \<open>ClientEnds k\<close>: the stream fails with \<open>k\<close>, or ends (\<open>UnexpectedEof\<close>). \<open>Datagram r w\<close>: receiving returned \<open>r\<close>, writing the
  frame to the client returned \<open>w\<close>.
\<close>

datatype udp_event =
    Arrive bytes
  | PollClient "(unit, io_kind) outcome"
  | ClientEnds io_kind
  | Datagram "(bytes, io_kind) outcome" "(unit, io_kind) outcome"
  | UdpIdleElapsed
  | UdpLifetimeElapsed

definition udp_init :: "relay_limits \<Rightarrow> instant \<Rightarrow> udp_state" where
  "udp_init lim now =
     \<lparr>ud_taken = [], ud_stream = [], ud_sent = [], ud_tx = [], ud_client_to_upstream = 0,
      ud_upstream_to_client = 0,
      ud_idle_deadline = sleep_deadline now (case rl_idle lim of Some d \<Rightarrow> d | None \<Rightarrow> DURATION_MAX),
      ud_lifetime_deadline =
        sleep_deadline now (case rl_max_lifetime lim of Some d \<Rightarrow> d | None \<Rightarrow> DURATION_MAX)\<rparr>"

definition udp_reset_idle :: "relay_limits \<Rightarrow> instant \<Rightarrow> udp_state \<Rightarrow> (udp_state, relay_error) outcome" where
  "udp_reset_idle lim now st =
     (case rl_idle lim of
        None \<Rightarrow> Ok st
      | Some idle \<Rightarrow> ebind (instant_add now idle) (\<lambda>t. Ok (st\<lparr>ud_idle_deadline := Some t\<rparr>)))"

text \<open>The branch of a received frame: send it, count it, restart the idle timer.\<close>

definition forward_frame ::
  "relay_limits \<Rightarrow> instant \<Rightarrow> bytes \<Rightarrow> (unit, io_kind) outcome \<Rightarrow> udp_state \<Rightarrow> (udp_state, relay_error) outcome" where
  "forward_frame lim now payload w st =
     ebind (map_err RelayIo w) (\<lambda>_.
     let st = st\<lparr>ud_sent := ud_sent st @ [payload]\<rparr>;
         st = st\<lparr>ud_client_to_upstream := ud_client_to_upstream st + word_of_nat (length payload)\<rparr>
     in udp_reset_idle lim now st)"

text \<open>The branch of a received datagram. An empty datagram is dropped.\<close>

definition return_datagram ::
  "relay_limits \<Rightarrow> instant \<Rightarrow> (bytes, io_kind) outcome \<Rightarrow> (unit, io_kind) outcome \<Rightarrow> udp_state \<Rightarrow>
     (udp_state, relay_error) outcome" where
  "return_datagram lim now r w st =
     ebind (map_err RelayIo r) (\<lambda>buf.
     if buf = [] then Ok st
     else if length buf > MAX_VLESS_UDP_PAYLOAD then Err (RelayIo InvalidData)
     else
       ebind (map_err RelayIo w) (\<lambda>_.
       let st = st\<lparr>ud_tx := ud_tx st @ frame_bytes buf\<rparr>;
           st = st\<lparr>ud_upstream_to_client := ud_upstream_to_client st + word_of_nat (length buf)\<rparr>
       in udp_reset_idle lim now st))"

fun udp_step ::
  "relay_limits \<Rightarrow> instant \<Rightarrow> udp_event \<Rightarrow> udp_state \<Rightarrow>
     (udp_state, (u64 \<times> u64, relay_error) outcome) loop_step" where
  "udp_step lim now (Arrive bs) st = Continue (st\<lparr>ud_stream := ud_stream st @ bs\<rparr>)"
| "udp_step lim now (PollClient w) st =
     (case split_frame (ud_taken st @ ud_stream st) of
        None \<Rightarrow> Continue (st\<lparr>ud_taken := ud_taken st @ ud_stream st, ud_stream := []\<rparr>)
      | Some (payload, rest) \<Rightarrow>
          loop_of (forward_frame lim now payload w (st\<lparr>ud_taken := [], ud_stream := rest\<rparr>)))"
| "udp_step lim now (ClientEnds k) st =
     (if split_frame (ud_taken st @ ud_stream st) \<noteq> None then Continue st
      else if length (ud_taken st @ ud_stream st) < 2 \<and> k = UnexpectedEof
        then Return (Ok (ud_client_to_upstream st, ud_upstream_to_client st))
      else Return (Err (RelayIo k)))"
| "udp_step lim now (Datagram r w) st = loop_of (return_datagram lim now r w (st\<lparr>ud_taken := []\<rparr>))"
| "udp_step lim now UdpIdleElapsed st =
     (if rl_idle lim \<noteq> None \<and> elapsed now (ud_idle_deadline st) then Return (Err IdleTimeout) else Continue st)"
| "udp_step lim now UdpLifetimeElapsed st =
     (if rl_max_lifetime lim \<noteq> None \<and> elapsed now (ud_lifetime_deadline st)
      then Return (Err SessionLifetime) else Continue st)"

fun relay_vless_udp ::
  "relay_limits \<Rightarrow> (instant \<times> udp_event) list \<Rightarrow> udp_state \<Rightarrow>
     (u64 \<times> u64, relay_error) outcome \<times> udp_state" where
  "relay_vless_udp lim [] st = (Pending, st)"
| "relay_vless_udp lim ((now, ev) # evs) st =
     (case udp_step lim now ev st of
        Continue st' \<Rightarrow> relay_vless_udp lim evs st'
      | Return r \<Rightarrow> (r, st))"

section \<open>Frames on a stream\<close>

lemma split_frame_bytes: "length p \<le> 65535 \<Longrightarrow> split_frame (frame_bytes p @ rest) = Some (p, rest)"
  by (simp add: split_frame_def frame_bytes_def be16_at_encoded)

lemma split_frame_Some:
  assumes "split_frame bs = Some (p, rest)"
  shows "bs = frame_bytes p @ rest \<and> length p \<le> 65535"
proof -
  from assms obtain len: "2 \<le> length bs" "2 + be16_at bs 0 \<le> length bs"
    and p: "p = take (be16_at bs 0) (drop 2 bs)" and rest: "rest = drop (2 + be16_at bs 0) bs"
    by (simp add: split_frame_def split: if_split_asm)
  from len(1) obtain b0 b1 r where bs: "bs = b0 # b1 # r" by (auto simp: numeral_eq_Suc Suc_le_length_iff)
  have plen: "length p = be16_at bs 0" using len(2) p by simp
  have "word_of_nat (be16_at bs 0) = u16_from_be b0 b1" using bs by (simp add: be16_at_def del: unat_u16_from_be)
  then have "u16_to_be (word_of_nat (length p)) = [b0, b1]" unfolding plen by (simp only: u16_to_from_be)
  moreover have "drop 2 bs = p @ rest" using p rest by (metis append_take_drop_id drop_drop add.commute)
  ultimately show ?thesis using be16_at_bound [of bs 0] bs plen by (simp add: frame_bytes_def)
qed

text \<open>The reading future reads exactly one frame; a stream that ends inside the length is an end.\<close>

lemma read_vless_udp_frame_flat:
  "read_vless_udp_frame flat_read s =
     (case split_frame (rx s) of
        Some (p, rest) \<Rightarrow> (Ok (Some p), s\<lparr>rx := rest\<rparr>)
      | None \<Rightarrow>
          (if length (rx s) < 2 then (case rx_end s of Closed \<Rightarrow> Ok None | Stalled \<Rightarrow> Pending
              | Failed k \<Rightarrow> if k = UnexpectedEof then Ok None else Err k)
           else short_read id (rx_end s),
           s\<lparr>rx := []\<rparr>))"
proof (cases "2 \<le> length (rx s)")
  case True
  then have "flat_read 2 s = (Ok (take 2 (rx s)), s\<lparr>rx := drop 2 (rx s)\<rparr>)" by (simp add: flat_read_def)
  then show ?thesis
    using True be16_at_bound [of "rx s" 0]
    by (auto simp: read_vless_udp_frame_def split_frame_def Let_def io_bind_def io_lift_def flat_read_def
        short_read_def split: rx_end.splits)
next
  case False
  then show ?thesis
    by (auto simp: read_vless_udp_frame_def split_frame_def flat_read_def split: rx_end.splits)
qed

lemma write_vless_udp_frame_flat:
  "length p \<le> 65535 \<Longrightarrow> tx_room s = None \<Longrightarrow>
     write_vless_udp_frame flat_write p s = (Ok (), s\<lparr>tx := tx s @ frame_bytes p\<rparr>)"
  by (simp add: write_vless_udp_frame_def io_bind_def flat_write_def io_lift_def frame_bytes_def)

section \<open>The loop keeps the framing while no read is cut short\<close>

text \<open>The bytes the client has sent.\<close>

fun arrived :: "(instant \<times> udp_event) list \<Rightarrow> bytes" where
  "arrived [] = []"
| "arrived ((_, Arrive bs) # evs) = bs @ arrived evs"
| "arrived (_ # evs) = arrived evs"

text \<open>No datagram wins the race while a frame is partly read.\<close>

fun uncut :: "relay_limits \<Rightarrow> (instant \<times> udp_event) list \<Rightarrow> udp_state \<Rightarrow> bool" where
  "uncut lim [] st = True"
| "uncut lim ((now, ev) # evs) st =
     ((case ev of Datagram _ _ \<Rightarrow> ud_taken st = [] | _ \<Rightarrow> True) \<and>
      (case udp_step lim now ev st of Continue st' \<Rightarrow> uncut lim evs st' | Return _ \<Rightarrow> True))"

definition framed :: "udp_state \<Rightarrow> bytes" where
  "framed st = concat (map frame_bytes (ud_sent st)) @ ud_taken st @ ud_stream st"

definition counted_up :: "udp_state \<Rightarrow> bool" where
  "counted_up st \<longleftrightarrow> ud_client_to_upstream st = word_of_nat (sum_list (map length (ud_sent st)))"

lemma udp_reset_idle_Ok: "udp_reset_idle lim now st = Ok st' \<Longrightarrow> \<exists>t. st' = st\<lparr>ud_idle_deadline := t\<rparr>"
  by (auto simp: udp_reset_idle_def ebind_eq_Ok_conv split: option.splits intro: exI [of _ "ud_idle_deadline st"])

lemma forward_frame_Ok:
  "forward_frame lim now p w st = Ok st' \<Longrightarrow> \<exists>t. st' = st\<lparr>ud_sent := ud_sent st @ [p],
     ud_client_to_upstream := ud_client_to_upstream st + word_of_nat (length p), ud_idle_deadline := t\<rparr>"
  by (auto simp: forward_frame_def ebind_eq_Ok_conv Let_def dest: udp_reset_idle_Ok)

lemma return_datagram_Ok:
  assumes "return_datagram lim now r w st = Ok st'"
  shows "ud_sent st' = ud_sent st \<and> ud_taken st' = ud_taken st \<and> ud_stream st' = ud_stream st \<and>
    ud_client_to_upstream st' = ud_client_to_upstream st"
  using assms
  by (auto simp: return_datagram_def ebind_eq_Ok_conv Let_def dest!: udp_reset_idle_Ok split: if_split_asm)

lemma poll_step:
  assumes "udp_step lim now (PollClient w) st = Continue st'"
  shows "framed st' = framed st \<and> (counted_up st \<longrightarrow> counted_up st')"
proof (cases "split_frame (ud_taken st @ ud_stream st)")
  case None
  with assms show ?thesis by (auto simp: framed_def counted_up_def)
next
  case (Some x)
  then obtain p rest where sp: "split_frame (ud_taken st @ ud_stream st) = Some (p, rest)" by (cases x) auto
  with assms obtain t where "st' = st\<lparr>ud_taken := [], ud_stream := rest, ud_sent := ud_sent st @ [p],
     ud_client_to_upstream := ud_client_to_upstream st + word_of_nat (length p), ud_idle_deadline := t\<rparr>"
    by (auto simp: loop_of_Continue dest!: forward_frame_Ok)
  with split_frame_Some [OF sp] show ?thesis by (simp add: framed_def counted_up_def)
qed

lemma datagram_step:
  assumes "udp_step lim now (Datagram r w) st = Continue st'"
  shows "ud_sent st' = ud_sent st \<and> ud_taken st' = [] \<and> ud_stream st' = ud_stream st \<and>
    ud_client_to_upstream st' = ud_client_to_upstream st"
  using assms by (auto simp: loop_of_Continue dest!: return_datagram_Ok)

lemma uncut_step:
  assumes "udp_step lim now ev st = Continue st'" and "case ev of Datagram _ _ \<Rightarrow> ud_taken st = [] | _ \<Rightarrow> True"
  shows "framed st @ arrived [(now, ev)] = framed st' \<and> (counted_up st \<longrightarrow> counted_up st')"
proof (cases ev)
  case (PollClient w)
  with assms(1) poll_step [of lim now w st st'] show ?thesis by simp
next
  case (Datagram r w)
  with assms datagram_step [of lim now r w st st'] show ?thesis by (simp add: framed_def counted_up_def)
qed (use assms(1) in \<open>auto simp: framed_def counted_up_def split: if_split_asm\<close>)

lemma arrived_Cons: "arrived ((now, ev) # evs) = arrived [(now, ev)] @ arrived evs"
  by (cases ev) simp_all

lemma relay_framed:
  assumes "relay_vless_udp lim evs st = (r, st')" and "uncut lim evs st"
  shows "(\<exists>unread. framed st @ arrived evs = framed st' @ unread) \<and> (counted_up st \<longrightarrow> counted_up st')"
  using assms
proof (induction lim evs st rule: relay_vless_udp.induct)
  case (2 lim now ev evs st)
  show ?case
  proof (cases "udp_step lim now ev st")
    case (Continue st1)
    with "2.prems" have "relay_vless_udp lim evs st1 = (r, st')" "uncut lim evs st1" by simp_all
    from "2.IH" [OF Continue this] uncut_step [OF Continue] "2.prems"(2) show ?thesis
      by (metis append.assoc arrived_Cons uncut.simps(2))
  next
    case (Return r')
    with "2.prems" have "st' = st" by simp
    then show ?thesis by blast
  qed
qed auto

section \<open>Properties\<close>

text \<open>The UDP relay keeps datagram boundaries as long as no datagram from the other side wins the
  race while a frame is partly read: the datagrams sent upstream are, in order, the frames at the
  head of the client's byte stream, and the counter is their total size.\<close>
lemma udp_relay_keeps_frames:
  assumes "relay_vless_udp lim evs (udp_init lim t0) = (r, st)" and "uncut lim evs (udp_init lim t0)"
  shows "(\<exists>rest. arrived evs = concat (map frame_bytes (ud_sent st)) @ rest) \<and>
    ud_client_to_upstream st = word_of_nat (sum_list (map length (ud_sent st)))"
  using relay_framed [OF assms] by (auto simp: framed_def counted_up_def udp_init_def)

text \<open>A datagram that arrives while a frame is partly read corrupts the framing. A client sends
  one frame in two segments, the length and then the payload; when a datagram from the other side
  comes in between, the two length bytes are lost and the payload is taken for a length: the frame
  is not forwarded, and the rest of the stream is read from a wrong boundary.\<close>
lemma udp_relay_loses_cut_frame:
  assumes "0 < length p" and "length p \<le> 65535"
  shows "ud_sent (snd (relay_vless_udp \<lparr>rl_idle = None, rl_max_lifetime = None\<rparr>
      [(0, Arrive (take 2 (frame_bytes p))), (1, PollClient (Ok ())), (2, Datagram (Ok [d]) (Ok ())),
       (3, Arrive (drop 2 (frame_bytes p))), (4, PollClient (Ok ()))]
      (udp_init \<lparr>rl_idle = None, rl_max_lifetime = None\<rparr> 0))) \<noteq> [p]"
proof -
  let ?lim = "\<lparr>rl_idle = None, rl_max_lifetime = None\<rparr> :: relay_limits"
  let ?len = "u16_to_be (word_of_nat (length p))"
  have pieces: "take 2 (frame_bytes p) = ?len" "drop 2 (frame_bytes p) = p"
    by (simp_all add: frame_bytes_def)
  have short: "split_frame ?len = None" using assms be16_at_encoded [of "word_of_nat (length p)" "[]"]
    by (simp add: split_frame_def)
  show ?thesis
  proof (cases "split_frame p")
    case None
    with assms(1) show ?thesis
      by (simp add: pieces short udp_init_def loop_of_def return_datagram_def udp_reset_idle_def Let_def)
  next
    case (Some x)
    then obtain p' rest where sp: "split_frame p = Some (p', rest)" by (cases x) auto
    then have "length p = 2 + length p' + length rest"
      using arg_cong [OF conjunct1 [OF split_frame_Some [OF sp]], of length] by (simp add: frame_bytes_def)
    then have "p' \<noteq> p" by auto
    with sp show ?thesis
      by (simp add: pieces short udp_init_def loop_of_def return_datagram_def udp_reset_idle_def Let_def
          forward_frame_def)
  qed
qed

end
