(* ===== verification/Outbound.thy ===== *)
theory Outbound
  imports Stream_IO Text_Format
begin

text \<open>
  Outgoing connections (\<open>crates/skadi-transport/src\<close>): address resolution under the outbound
  policy (\<open>outbound_policy.rs\<close>), TCP (\<open>tcp.rs\<close>), TLS (\<open>tls_client.rs\<close>), REALITY
  (\<open>reality_tls_client.rs\<close>) and UDP (\<open>udp.rs\<close>) transports, and the transport chosen by the
  configuration (\<open>outbound.rs\<close>). The operating system and the TLS library are the parameters of
  \<open>net_env\<close>. The state of a computation is the list of addresses contacted so far.
\<close>

section \<open>Environment\<close>

datatype tls_name = DnsName rstring | IpName ip_addr

text \<open>
  \<open>ne_lookup\<close> is \<open>tokio::net::lookup_host\<close> on \<open>host:port\<close>; \<open>ne_dial\<close> is \<open>TcpStream::connect\<close>;
  \<open>ne_udp_connect\<close> binds a datagram socket to a peer; \<open>ne_tls\<close> is the TLS client handshake with a
  server name. A connection is named by a number. \<open>ne_server_name\<close> tells whether
  \<open>ServerName::try_from\<close> accepts a text.
\<close>

record net_env =
  ne_lookup :: "rstring \<Rightarrow> (socket_addr list, io_kind) outcome"
  ne_dial :: "socket_addr \<Rightarrow> (nat, io_kind) outcome"
  ne_set_nodelay :: "nat \<Rightarrow> (unit, io_kind) outcome"
  ne_udp_bind :: "(nat, io_kind) outcome"
  ne_udp_connect :: "socket_addr \<Rightarrow> (unit, io_kind) outcome"
  ne_server_name :: "rstring \<Rightarrow> bool"
  ne_tls :: "tls_name \<Rightarrow> nat \<Rightarrow> (nat, io_kind) outcome"

datatype out_error =
    Refused core_error
  | ResolveFailed rstring io_kind
  | NoAddresses rstring
  | NothingToConnect
  | Connect io_kind
  | ConnectTimeout socket_addr
  | UdpBind io_kind
  | UdpTimeout socket_addr
  | UdpConnect socket_addr io_kind
  | EmptyDomain
  | InvalidServerName rstring
  | TlsTimeout string endpoint
  | TlsHandshake string endpoint io_kind

type_synonym 'a net = "(socket_addr list, 'a, out_error) io"

section \<open>Resolution\<close>

definition host_port :: "rstring \<Rightarrow> u16 \<Rightarrow> rstring" where
  "host_port host port = host @ lit '':'' @ fmt_dec (unat port)"

definition resolve_endpoint_addrs :: "net_env \<Rightarrow> endpoint \<Rightarrow> bool \<Rightarrow> (socket_addr list, out_error) outcome" where
  "resolve_endpoint_addrs env ep allow_private =
     ebind (map_err Refused (validate_outbound_literal ep allow_private)) (\<lambda>_.
     ebind
       (case ep of
          EpIp addr \<Rightarrow> Ok [addr]
        | EpDomain host port \<Rightarrow>
            ebind (map_err (ResolveFailed (host_port host port)) (ne_lookup env (host_port host port))) (\<lambda>found.
            if found = [] then Err (NoAddresses (host_port host port)) else Ok found))
       (\<lambda>addrs.
     ebind (map_err Refused (validate_resolved_addrs addrs allow_private)) (\<lambda>_.
     Ok addrs)))"

text \<open>\<open>unwrap_or(addrs[0])\<close> evaluates \<open>addrs[0]\<close> in either case.\<close>

definition prefer_ipv4 :: "socket_addr list \<Rightarrow> (socket_addr, out_error) outcome" where
  "prefer_ipv4 addrs =
     ebind (idx addrs 0) (\<lambda>first.
     Ok (case find is_ipv4 addrs of Some a \<Rightarrow> a | None \<Rightarrow> first))"

definition resolve_endpoint :: "net_env \<Rightarrow> endpoint \<Rightarrow> bool \<Rightarrow> (socket_addr, out_error) outcome" where
  "resolve_endpoint env ep allow_private =
     ebind (resolve_endpoint_addrs env ep allow_private) prefer_ipv4"

section \<open>Connecting\<close>

text \<open>One connection attempt is recorded in the state.\<close>

definition contact :: "socket_addr \<Rightarrow> unit net" where
  "contact addr log = (Ok (), log @ [addr])"

text \<open>The loop over the addresses; \<open>last_err\<close> is the error of the last attempt.\<close>

fun dial_loop :: "net_env \<Rightarrow> socket_addr list \<Rightarrow> out_error option \<Rightarrow> nat net" where
  "dial_loop env [] last_err =
     io_lift (Err (case last_err of Some e \<Rightarrow> e | None \<Rightarrow> NothingToConnect))"
| "dial_loop env (addr # addrs) last_err =
     io_bind (contact addr) (\<lambda>_.
     case ne_dial env addr of
       Ok stream \<Rightarrow>
         io_bind (io_lift (map_err Connect (ne_set_nodelay env stream))) (\<lambda>_. io_lift (Ok stream))
     | Err e \<Rightarrow> dial_loop env addrs (Some (Connect e))
     | Pending \<Rightarrow> dial_loop env addrs (Some (ConnectTimeout addr))
     | Panic \<Rightarrow> io_lift Panic)"

definition tcp_connect :: "net_env \<Rightarrow> bool \<Rightarrow> endpoint \<Rightarrow> nat net" where
  "tcp_connect env allow_private ep =
     io_bind (io_lift (resolve_endpoint_addrs env ep allow_private)) (\<lambda>addrs. dial_loop env addrs None)"

definition endpoint_server_name :: "net_env \<Rightarrow> endpoint \<Rightarrow> (tls_name, out_error) outcome" where
  "endpoint_server_name env ep =
     (case ep of
        EpDomain host port \<Rightarrow>
          (let host = trim host in
           if host = [] then Err EmptyDomain
           else if ne_server_name env host then Ok (DnsName host)
           else Err (InvalidServerName host))
      | EpIp addr \<Rightarrow> Ok (IpName (sock_ip addr)))"

text \<open>
  The handshake under \<open>connect_timeout\<close>. The errors carry the words they begin with and the target
  they name.
\<close>

definition tls_handshake :: "net_env \<Rightarrow> string \<Rightarrow> endpoint \<Rightarrow> tls_name \<Rightarrow> nat \<Rightarrow> (nat, out_error) outcome" where
  "tls_handshake env what ep name tcp =
     (case ne_tls env name tcp of
        Pending \<Rightarrow> Err (TlsTimeout what ep)
      | r \<Rightarrow> map_err (TlsHandshake what ep) r)"

definition tls_connect :: "net_env \<Rightarrow> bool \<Rightarrow> endpoint \<Rightarrow> nat net" where
  "tls_connect env allow_private ep =
     io_bind (io_lift (endpoint_server_name env ep)) (\<lambda>server_name.
     io_bind (tcp_connect env allow_private ep) (\<lambda>tcp.
     io_lift (tls_handshake env ''TLS outbound'' ep server_name tcp)))"

definition reality_tls_connect :: "net_env \<Rightarrow> tls_name \<Rightarrow> bool \<Rightarrow> endpoint \<Rightarrow> nat net" where
  "reality_tls_connect env sni allow_private ep =
     io_bind (tcp_connect env allow_private ep) (\<lambda>tcp. io_lift (tls_handshake env ''REALITY TLS'' ep sni tcp))"

definition udp_connect :: "net_env \<Rightarrow> bool \<Rightarrow> endpoint \<Rightarrow> nat net" where
  "udp_connect env allow_private ep =
     io_bind (io_lift (map_err UdpBind (ne_udp_bind env))) (\<lambda>socket.
     io_bind (io_lift (resolve_endpoint env ep allow_private)) (\<lambda>target.
     io_bind (contact target) (\<lambda>_.
     io_bind
       (io_lift (case ne_udp_connect env target of
            Pending \<Rightarrow> Err (UdpTimeout target)
          | r \<Rightarrow> map_err (UdpConnect target) r))
       (\<lambda>_. io_lift (Ok socket)))))"

datatype tcp_upstream = UpPlain nat | UpTls nat

datatype outbound_tcp = OutPlain bool | OutTls bool | OutReality tls_name bool

definition outbound_connect :: "net_env \<Rightarrow> outbound_tcp \<Rightarrow> endpoint \<Rightarrow> tcp_upstream net" where
  "outbound_connect env transport ep =
     (case transport of
        OutPlain allow_private \<Rightarrow>
          io_bind (tcp_connect env allow_private ep) (\<lambda>s. io_lift (Ok (UpPlain s)))
      | OutTls allow_private \<Rightarrow>
          io_bind (tls_connect env allow_private ep) (\<lambda>s. io_lift (Ok (UpTls s)))
      | OutReality sni allow_private \<Rightarrow>
          io_bind (reality_tls_connect env sni allow_private ep) (\<lambda>s. io_lift (Ok (UpTls s))))"

section \<open>Which addresses are contacted\<close>

definition contacts_only :: "(socket_addr \<Rightarrow> bool) \<Rightarrow> 'a net \<Rightarrow> bool" where
  "contacts_only P m \<longleftrightarrow> (\<forall>log. \<exists>more. snd (m log) = log @ more \<and> list_all P more)"

named_theorems contacts_rules \<open>contacted addresses along the code\<close>

lemma contacts_lift [contacts_rules]: "contacts_only P (io_lift r)"
  by (simp add: contacts_only_def io_lift_def)

lemma contacts_contact [contacts_rules]: "P a \<Longrightarrow> contacts_only P (contact a)"
  by (simp add: contacts_only_def contact_def)

lemma contacts_bind_lift [contacts_rules]:
  "(\<And>x. r = Ok x \<Longrightarrow> contacts_only P (f x)) \<Longrightarrow> contacts_only P (io_bind (io_lift r) f)"
  by (cases r) (simp_all add: contacts_only_def run_lift)

lemma contacts_bind [contacts_rules]:
  assumes "contacts_only P m" and "\<And>x. contacts_only P (f x)"
  shows "contacts_only P (io_bind m f)"
  unfolding contacts_only_def
proof
  fix log
  obtain r log' where m: "m log = (r, log')" by (cases "m log")
  with assms(1) obtain more where more: "log' = log @ more" "list_all P more"
    unfolding contacts_only_def by (metis snd_conv)
  show "\<exists>more. snd (io_bind m f log) = log @ more \<and> list_all P more"
  proof (cases r)
    case (Ok x)
    obtain more' where "snd (f x log') = log' @ more'" "list_all P more'"
      using assms(2) unfolding contacts_only_def by blast
    with m Ok more show ?thesis by (intro exI [of _ "more @ more'"]) simp
  qed (use m more in \<open>auto intro!: exI [of _ more]\<close>)
qed

definition permitted :: "bool \<Rightarrow> socket_addr \<Rightarrow> bool" where
  "permitted allow_private a \<longleftrightarrow> allow_private \<or> \<not> is_forbidden_ip (sock_ip a)"

lemma resolve_permitted:
  "resolve_endpoint_addrs env ep allow_private = Ok addrs \<Longrightarrow>
     addrs \<noteq> [] \<and> list_all (permitted allow_private) addrs"
  by (auto simp: resolve_endpoint_addrs_def ebind_eq_Ok_conv validate_resolved_addrs_def
      check_resolved_Ok permitted_def list_all_iff split: endpoint.splits if_split_asm)

lemma prefer_ipv4_in: "addrs \<noteq> [] \<Longrightarrow> \<exists>a. prefer_ipv4 addrs = Ok a \<and> a \<in> set addrs"
  by (auto simp: prefer_ipv4_def idx_def find_Some_iff split: option.split)

lemma resolve_endpoint_permitted:
  "resolve_endpoint env ep allow_private = Ok a \<Longrightarrow> permitted allow_private a"
  unfolding resolve_endpoint_def ebind_eq_Ok_conv
proof (elim exE conjE)
  fix addrs
  assume "resolve_endpoint_addrs env ep allow_private = Ok addrs" "prefer_ipv4 addrs = Ok a"
  then show ?thesis
    using prefer_ipv4_in [of addrs] resolve_permitted [of env ep allow_private addrs] by (auto simp: list_all_iff)
qed

lemma resolve_endpoint_no_panic:
  assumes "\<And>h. returns (ne_lookup env h)"
  shows "returns (resolve_endpoint env ep allow_private)"
proof -
  have "returns (resolve_endpoint_addrs env ep allow_private)"
    unfolding resolve_endpoint_addrs_def
    by (intro returns_ebind) (auto simp: assms split: endpoint.split intro!: returns_ebind)
  moreover have "returns (prefer_ipv4 addrs)" if "resolve_endpoint_addrs env ep allow_private = Ok addrs" for addrs
    using prefer_ipv4_in resolve_permitted [OF that] by force
  ultimately show ?thesis unfolding resolve_endpoint_def by (rule returns_ebind)
qed

lemma dial_loop_contacts: "list_all P addrs \<Longrightarrow> contacts_only P (dial_loop env addrs last_err)"
proof (induction addrs arbitrary: last_err)
  case (Cons addr addrs)
  then show ?case
    by (cases "ne_dial env addr") (simp_all add: contacts_bind contacts_contact contacts_bind_lift contacts_lift)
qed (simp add: contacts_lift)

lemma tcp_connect_contacts: "contacts_only (permitted allow_private) (tcp_connect env allow_private ep)"
  unfolding tcp_connect_def by (intro contacts_bind_lift dial_loop_contacts) (simp add: resolve_permitted)

lemma udp_connect_contacts: "contacts_only (permitted allow_private) (udp_connect env allow_private ep)"
  unfolding udp_connect_def
  by (intro contacts_bind_lift contacts_bind contacts_contact contacts_lift) (rule resolve_endpoint_permitted)

fun allows_private :: "outbound_tcp \<Rightarrow> bool" where
  "allows_private (OutPlain a) = a"
| "allows_private (OutTls a) = a"
| "allows_private (OutReality _ a) = a"

lemma outbound_connect_contacts:
  "contacts_only (permitted (allows_private transport)) (outbound_connect env transport ep)"
  by (cases transport; simp only: outbound_connect_def tls_connect_def reality_tls_connect_def
      outbound_tcp.case allows_private.simps;
      intro contacts_bind_lift contacts_bind tcp_connect_contacts contacts_lift)

text \<open>A network on which every call succeeds and no name resolves.\<close>

definition calm_net :: net_env where
  "calm_net = \<lparr>ne_lookup = (\<lambda>_. Err OtherIo), ne_dial = (\<lambda>_. Ok 0), ne_set_nodelay = (\<lambda>_. Ok ()),
     ne_udp_bind = Ok 0, ne_udp_connect = (\<lambda>_. Ok ()), ne_server_name = (\<lambda>_. True), ne_tls = (\<lambda>_ n. Ok n)\<rparr>"

section \<open>Properties\<close>

text \<open>C7: with private destinations off, no transport contacts a forbidden address: whatever names
  resolve to and however attempts fail, every address an outgoing TCP, TLS, REALITY or UDP
  connection contacts is outside the blocked ranges. All addresses a name resolves to are checked
  before the first is contacted, and no second lookup happens in between.\<close>
theorem outbound_contacts_permitted:
  "(\<exists>more. snd (outbound_connect env transport ep log) = log @ more \<and>
      list_all (permitted (allows_private transport)) more) \<and>
   (\<exists>more. snd (udp_connect env allow_private ep log) = log @ more \<and>
      list_all (permitted allow_private) more)"
  using outbound_connect_contacts [of transport env ep] udp_connect_contacts [of allow_private env ep]
  unfolding contacts_only_def by blast

end
