(* ===== verification/Socks5_Relay.thy ===== *)
theory Socks5_Relay
  imports Socks5_Handler Udp_Relay Outbound
begin

text \<open>
  The SOCKS5 commands BIND and UDP ASSOCIATE (\<open>crates/skadi-server/src/socks5_relay.rs\<close>). The
  sockets of the operating system appear as the results of the calls on them; the outgoing
  datagram sockets are opened through \<open>udp_connect\<close>, under the outbound policy.
\<close>

section \<open>BIND\<close>

datatype bind_error =
    BindListen io_kind
  | BindReply socks5_error
  | BindAcceptTimeout
  | BindAccept io_kind
  | BindRelay relay_error

text \<open>
  \<open>listen\<close> is the address of the listening socket, \<open>accept\<close> the peer that connects (\<open>Pending\<close>: none
  does before the timeout), \<open>relay\<close> the result of the copy loop.
\<close>

definition handle_socks5_bind ::
  "'s writer \<Rightarrow> (socket_addr, io_kind) outcome \<Rightarrow> (socket_addr, io_kind) outcome \<Rightarrow>
     (u64 \<times> u64, relay_error) outcome \<Rightarrow> ('s, unit, bind_error) io" where
  "handle_socks5_bind wr listen accept relay =
     io_bind (io_lift (map_err BindListen listen)) (\<lambda>bound.
     io_bind (io_map_err BindReply (send_reply wr REP_SUCCEEDED bound)) (\<lambda>_.
     io_bind (io_lift (case accept of Pending \<Rightarrow> Err BindAcceptTimeout | r \<Rightarrow> map_err BindAccept r)) (\<lambda>remote.
     io_bind (io_map_err BindReply (send_reply wr REP_SUCCEEDED remote)) (\<lambda>_.
     io_bind (io_lift (map_err BindRelay relay)) (\<lambda>_.
     io_lift (Ok ()))))))"

section \<open>UDP ASSOCIATE\<close>

record assoc_state =
  ac_idle_deadline :: "instant option"
  ac_lifetime_deadline :: "instant option"
  ac_contacted :: "socket_addr list"
  ac_replies :: "(bytes \<times> socket_addr) list"

text \<open>
  \<open>Control r\<close>: reading one byte of the control connection returned \<open>r\<close>. \<open>Relayed r s m\<close>: a
  datagram with its sender was received, and for its payload the send returned \<open>s\<close> and the wait
  for an answer \<open>m\<close>.
\<close>

datatype assoc_event =
    AssocLifetime
  | AssocIdle
  | Control "(bytes, io_kind) outcome"
  | Relayed "(bytes \<times> socket_addr, io_kind) outcome" "(unit, io_kind) outcome" "(bytes, io_kind) outcome"

datatype assoc_error = AssocBind io_kind | AssocReply socks5_error | AssocRecv io_kind

definition assoc_idle :: "relay_limits \<Rightarrow> duration" where
  "assoc_idle lim = (case rl_idle lim of Some d \<Rightarrow> d | None \<Rightarrow> DURATION_MAX)"

definition assoc_init :: "relay_limits \<Rightarrow> instant \<Rightarrow> assoc_state" where
  "assoc_init lim now =
     \<lparr>ac_idle_deadline = sleep_deadline now (assoc_idle lim),
      ac_lifetime_deadline =
        sleep_deadline now (case rl_max_lifetime lim of Some d \<Rightarrow> d | None \<Rightarrow> DURATION_MAX),
      ac_contacted = [], ac_replies = []\<rparr>"

text \<open>\<open>idle_deadline.as_mut().reset(Instant::now() + idle)\<close>.\<close>

definition assoc_reset :: "relay_limits \<Rightarrow> instant \<Rightarrow> assoc_state \<Rightarrow> (assoc_state, assoc_error) outcome" where
  "assoc_reset lim now st =
     ebind (instant_add now (assoc_idle lim)) (\<lambda>t. Ok (st\<lparr>ac_idle_deadline := Some t\<rparr>))"

text \<open>The work on one datagram once it has been parsed: connect, send, wait, answer.\<close>

definition relay_payload ::
  "net_env \<Rightarrow> bool \<Rightarrow> endpoint \<Rightarrow> bytes \<Rightarrow> socket_addr \<Rightarrow> (unit, io_kind) outcome \<Rightarrow> (bytes, io_kind) outcome \<Rightarrow>
     assoc_state \<Rightarrow> (assoc_state, assoc_error) outcome" where
  "relay_payload env allow_private target payload client_addr sent answer st =
     (if payload = [] then Ok st
      else case udp_connect env allow_private target (ac_contacted st) of
          (Ok upstream, log) \<Rightarrow>
            (let st = st\<lparr>ac_contacted := log\<rparr> in
             case sent of
               Ok _ \<Rightarrow>
                 (case answer of
                    Ok resp \<Rightarrow>
                      if resp = [] then Ok st
                      else Ok (st\<lparr>ac_replies := ac_replies st @ [(encode_udp_datagram target resp, client_addr)]\<rparr>)
                  | Panic \<Rightarrow> Panic
                  | _ \<Rightarrow> Ok st)
             | Err _ \<Rightarrow> Ok st
             | Panic \<Rightarrow> Panic
             | Pending \<Rightarrow> Pending)
        | (Err _, log) \<Rightarrow> Ok (st\<lparr>ac_contacted := log\<rparr>)
        | (Panic, log) \<Rightarrow> Panic
        | (Pending, log) \<Rightarrow> Pending)"

fun assoc_step ::
  "net_env \<Rightarrow> bool \<Rightarrow> relay_limits \<Rightarrow> instant \<Rightarrow> assoc_event \<Rightarrow> assoc_state \<Rightarrow>
     (assoc_state, (unit, assoc_error) outcome) loop_step" where
  "assoc_step env ap lim now AssocLifetime st =
     (if elapsed now (ac_lifetime_deadline st) then Return (Ok ()) else Continue st)"
| "assoc_step env ap lim now AssocIdle st =
     (if elapsed now (ac_idle_deadline st) then Return (Ok ()) else Continue st)"
| "assoc_step env ap lim now (Control r) st =
     (case r of
        Ok buf \<Rightarrow> if buf = [] then Return (Ok ()) else loop_of (assoc_reset lim now st)
      | Err _ \<Rightarrow> Return (Ok ())
      | Panic \<Rightarrow> Return Panic
      | Pending \<Rightarrow> Continue st)"
| "assoc_step env ap lim now (Relayed recv sent answer) st =
     loop_of
       (ebind (map_err AssocRecv recv) (\<lambda>(buf, client_addr).
        ebind (assoc_reset lim now st) (\<lambda>st.
        if length buf < 4 then Ok st
        else case parse_udp_datagram buf of
            Ok (target, header_len) \<Rightarrow>
              ebind (slice buf header_len (length buf)) (\<lambda>payload.
              relay_payload env ap target payload client_addr sent answer st)
          | Err _ \<Rightarrow> Ok st
          | Panic \<Rightarrow> Panic
          | Pending \<Rightarrow> Pending)))"

fun assoc_loop ::
  "net_env \<Rightarrow> bool \<Rightarrow> relay_limits \<Rightarrow> (instant \<times> assoc_event) list \<Rightarrow> assoc_state \<Rightarrow>
     (unit, assoc_error) outcome \<times> assoc_state" where
  "assoc_loop env ap lim [] st = (Pending, st)"
| "assoc_loop env ap lim ((now, ev) # evs) st =
     (case assoc_step env ap lim now ev st of
        Continue st' \<Rightarrow> assoc_loop env ap lim evs st'
      | Return r \<Rightarrow> (r, st))"

text \<open>\<open>relay_addr\<close> is the address of the datagram socket bound for the client.\<close>

definition handle_socks5_udp_associate ::
  "'s writer \<Rightarrow> net_env \<Rightarrow> bool \<Rightarrow> relay_limits \<Rightarrow> (socket_addr, io_kind) outcome \<Rightarrow> instant \<Rightarrow>
     (instant \<times> assoc_event) list \<Rightarrow> ('s \<times> assoc_state, unit, assoc_error) io" where
  "handle_socks5_udp_associate wr env ap lim relay_addr now evs =
     (\<lambda>(s, st).
       case map_err AssocBind relay_addr of
         Ok addr \<Rightarrow>
           (case io_map_err AssocReply (send_reply wr REP_SUCCEEDED addr) s of
              (Ok _, s) \<Rightarrow>
                (case assoc_loop env ap lim evs (assoc_init lim now) of (r, st) \<Rightarrow> (r, (s, st)))
            | (Err e, s) \<Rightarrow> (Err e, (s, st))
            | (Panic, s) \<Rightarrow> (Panic, (s, st))
            | (Pending, s) \<Rightarrow> (Pending, (s, st)))
       | Err e \<Rightarrow> (Err e, (s, st))
       | Panic \<Rightarrow> (Panic, (s, st))
       | Pending \<Rightarrow> (Pending, (s, st)))"

section \<open>Properties of a run\<close>

text \<open>A reply answers a datagram that was received: it goes to its sender and names its target.\<close>

fun answers :: "assoc_event \<Rightarrow> bytes \<times> socket_addr \<Rightarrow> bool" where
  "answers (Relayed (Ok (buf, client_addr)) sent (Ok resp)) (packet, dest) \<longleftrightarrow>
     dest = client_addr \<and> resp \<noteq> [] \<and>
     (\<exists>target n k. parse_udp_datagram buf = Ok (target, n) \<and>
        parse_udp_datagram packet = Ok (target, k) \<and> drop k packet = resp)"
| "answers _ _ \<longleftrightarrow> False"

lemma parse_encode_payload:
  "wire_endpoint t \<Longrightarrow> \<exists>n. parse_udp_datagram (encode_udp_datagram t payload) = Ok (t, n) \<and>
     drop n (encode_udp_datagram t payload) = payload"
  using udp_codec.encode_parse_stream [of t payload] by (metis encode_udp_datagram_split append_eq_conv_conj)

lemma parse_udp_wire: "parse_udp_datagram buf = Ok (t, n) \<Longrightarrow> wire_endpoint t \<and> n \<le> length buf"
  using parse_target_consumed [of buf "buf ! 3" 4 t n] parse_target_wire [of buf "buf ! 3" 4 t n]
  by (auto simp: parse_udp_datagram_Ok)

text \<open>What one datagram adds to the state.\<close>

definition assoc_grows :: "net_env \<Rightarrow> bool \<Rightarrow> assoc_event \<Rightarrow> assoc_state \<Rightarrow> assoc_state \<Rightarrow> bool" where
  "assoc_grows env ap ev st st' \<longleftrightarrow>
     (\<exists>more. ac_contacted st' = ac_contacted st @ more \<and> list_all (permitted ap) more) \<and>
     (\<exists>new. ac_replies st' = ac_replies st @ new \<and> list_all (answers ev) new)"

lemma relay_payload_grows:
  assumes "relay_payload env ap target payload client_addr sent answer st = Ok st'"
    and "parse_udp_datagram buf = Ok (target, n)"
  shows "assoc_grows env ap (Relayed (Ok (buf, client_addr)) sent answer) st st'"
proof -
  obtain r log where conn: "udp_connect env ap target (ac_contacted st) = (r, log)"
    by (cases "udp_connect env ap target (ac_contacted st)")
  with udp_connect_contacts [of ap env target] obtain more where
    more: "log = ac_contacted st @ more" "list_all (permitted ap) more"
    unfolding contacts_only_def by (metis snd_conv)
  have codec: "\<exists>k. parse_udp_datagram (encode_udp_datagram target resp) = Ok (target, k) \<and>
      drop k (encode_udp_datagram target resp) = resp" for resp
    using parse_encode_payload parse_udp_wire [OF assms(2)] by blast
  show ?thesis
    using assms conn more codec
    by (auto simp: relay_payload_def assoc_grows_def Let_def split: outcome.splits if_split_asm)
qed

lemma assoc_grows_refl: "assoc_grows env ap ev st (st\<lparr>ac_idle_deadline := t\<rparr>)"
  "assoc_grows env ap ev st st"
  by (simp_all add: assoc_grows_def)

lemma assoc_reset_Ok: "assoc_reset lim now st = Ok st' \<longleftrightarrow>
    now + assoc_idle lim \<le> INSTANT_MAX \<and> st' = st\<lparr>ac_idle_deadline := Some (now + assoc_idle lim)\<rparr>"
  by (auto simp: assoc_reset_def instant_add_def)

lemma assoc_step_grows:
  assumes "assoc_step env ap lim now ev st = Continue st'"
  shows "assoc_grows env ap ev st st'"
proof (cases ev)
  case (Control r)
  with assms show ?thesis
    by (auto simp: loop_of_Continue assoc_reset_Ok assoc_grows_refl split: outcome.splits if_split_asm)
next
  case (Relayed recv sent answer)
  with assms obtain buf client_addr st1 where
    recv: "recv = Ok (buf, client_addr)" and st1: "st1 = st\<lparr>ac_idle_deadline := Some (now + assoc_idle lim)\<rparr>" and
    rest: "(if length buf < 4 then Ok st1
        else case parse_udp_datagram buf of
            Ok (target, header_len) \<Rightarrow>
              ebind (slice buf header_len (length buf)) (\<lambda>payload.
              relay_payload env ap target payload client_addr sent answer st1)
          | Err _ \<Rightarrow> Ok st1
          | Panic \<Rightarrow> Panic
          | Pending \<Rightarrow> Pending) = Ok st'"
    by (auto simp: loop_of_Continue ebind_eq_Ok_conv assoc_reset_Ok)
  have "assoc_grows env ap ev st1 st'"
  proof (cases "length buf < 4 \<or> (\<exists>e. parse_udp_datagram buf = Err e)")
    case True
    with rest show ?thesis by (auto simp: assoc_grows_refl split: if_split_asm)
  next
    case False
    with rest obtain target n payload where "parse_udp_datagram buf = Ok (target, n)"
      "relay_payload env ap target payload client_addr sent answer st1 = Ok st'"
      by (auto simp: ebind_eq_Ok_conv split: outcome.splits)
    then show ?thesis using relay_payload_grows Relayed recv by blast
  qed
  then show ?thesis by (simp add: assoc_grows_def st1)
qed (use assms in \<open>auto simp: assoc_grows_refl split: if_split_asm\<close>)

lemma assoc_loop_grows:
  assumes "assoc_loop env ap lim evs st = (r, st')"
  shows "(\<exists>more. ac_contacted st' = ac_contacted st @ more \<and> list_all (permitted ap) more) \<and>
     (\<exists>new. ac_replies st' = ac_replies st @ new \<and> list_all (\<lambda>p. \<exists>e \<in> set evs. answers (snd e) p) new)"
  using assms
proof (induction env ap lim evs st rule: assoc_loop.induct)
  case (2 env ap lim now ev evs st)
  show ?case
  proof (cases "assoc_step env ap lim now ev st")
    case (Continue st1)
    with "2.prems" have "assoc_loop env ap lim evs st1 = (r, st')" by simp
    from "2.IH" [OF Continue this] assoc_step_grows [OF Continue] show ?thesis
      by (fastforce simp: assoc_grows_def list_all_iff)
  qed (use "2.prems" in simp)
qed simp

section \<open>Properties\<close>

text \<open>C33: the UDP relay of SOCKS5 answers only what it was asked: every packet it sends goes to the
  sender of a datagram it received, carries the target that datagram named and a non-empty answer,
  and can be read back by the datagram parser; and with private destinations off no forbidden
  address is contacted.\<close>
theorem udp_associate_replies:
  "case assoc_loop env ap lim evs (assoc_init lim t0) of (r, st) \<Rightarrow>
     list_all (\<lambda>p. list_ex (\<lambda>e. answers (snd e) p) evs) (ac_replies st) \<and>
     list_all (permitted ap) (ac_contacted st)"
  using assoc_loop_grows [of env ap lim evs "assoc_init lim t0"]
  by (cases "assoc_loop env ap lim evs (assoc_init lim t0)")
    (auto simp: assoc_init_def list_all_iff list_ex_iff)

text \<open>Without an idle timeout, the default of the configuration, the first datagram panics the
  session: the timer is restarted at the current time plus the longest duration, which no instant
  can hold.\<close>
lemma udp_associate_panics_without_idle:
  assumes "rl_idle lim = None"
  shows "assoc_loop env ap lim ((now, Relayed (Ok (buf, client_addr)) sent answer) # evs) (assoc_init lim t0) =
     (Panic, assoc_init lim t0)"
  using assms by (simp add: assoc_reset_def assoc_idle_def instant_add_max loop_of_def)

end
