(* ===== verification/Mux_Frame.thy ===== *)
theory Mux_Frame
  imports Vless_Parse
begin

text \<open>
  Frames of the Mux sub-protocol (\<open>crates/skadi-protocol/src/vless/mux/frame.rs\<close>): metadata with a
  two-byte length, optional data chunk with a two-byte length. The codec is an interpretation of
  \<open>wire_codec\<close>, so a sequence of frames written to a stream determines the frames.
\<close>

unbundle bit_operations_syntax

section \<open>Data\<close>

definition SESSION_STATUS_NEW :: u8 where [simp]: "SESSION_STATUS_NEW = 0x01"
definition SESSION_STATUS_KEEP :: u8 where [simp]: "SESSION_STATUS_KEEP = 0x02"
definition SESSION_STATUS_END :: u8 where [simp]: "SESSION_STATUS_END = 0x03"
definition SESSION_STATUS_KEEP_ALIVE :: u8 where [simp]: "SESSION_STATUS_KEEP_ALIVE = 0x04"
definition OPTION_DATA :: u8 where [simp]: "OPTION_DATA = 0x01"
definition OPTION_ERROR :: u8 where [simp]: "OPTION_ERROR = 0x02"
definition NETWORK_TCP :: u8 where [simp]: "NETWORK_TCP = 0x01"
definition NETWORK_UDP :: u8 where [simp]: "NETWORK_UDP = 0x02"
definition MAX_META_LEN :: nat where [simp]: "MAX_META_LEN = 512"
definition MAX_CHUNK_SIZE :: nat where [simp]: "MAX_CHUNK_SIZE = 8 * 1024"
definition XUDP_SESSION_ID :: u16 where [simp]: "XUDP_SESSION_ID = 0"
definition GLOBAL_ID_LEN :: nat where [simp]: "GLOBAL_ID_LEN = 8"

datatype mux_error =
    TooShort
  | MetaTooLarge nat
  | ChunkTooLarge nat
  | UnknownNetwork u8
  | UnknownStatus u8
  | MuxAddress vless_parse_error

record mux_meta =
  mm_session_id :: u16
  mm_status :: u8
  mm_option :: u8
  mm_network :: "u8 option"
  mm_target :: "endpoint option"
  mm_global_id :: "bytes option"

record mux_frame =
  mf_meta :: mux_meta
  mf_payload :: "bytes option"

definition has_data :: "mux_meta \<Rightarrow> bool" where
  "has_data meta \<longleftrightarrow> mm_option meta AND OPTION_DATA \<noteq> 0"

section \<open>Parsers\<close>

definition parse_meta_body :: "bytes \<Rightarrow> (mux_meta, mux_error) outcome" where
  "parse_meta_body body =
    (if length body < 4 then Err TooShort else
     ebind (idx body 0) (\<lambda>b0.
     ebind (idx body 1) (\<lambda>b1.
     ebind (idx body 2) (\<lambda>status.
     ebind (idx body 3) (\<lambda>option.
     let session_id = u16_from_be b0 b1; offset = 4;
         meta = \<lparr>mm_session_id = session_id, mm_status = status, mm_option = option,
                 mm_network = None, mm_target = None, mm_global_id = None\<rparr>;
         needs_target = (length body > offset \<and>
           (status = SESSION_STATUS_NEW \<and>
              (body ! offset = NETWORK_TCP \<or> body ! offset = NETWORK_UDP) \<or>
            status = SESSION_STATUS_KEEP \<and> body ! offset = NETWORK_UDP))
     in if needs_target then
       ebind (idx body offset) (\<lambda>network.
       let offset = offset + 1 in
       ebind (slice body offset (length body)) (\<lambda>rest.
       ebind (map_err MuxAddress (parse_port_address rest)) (\<lambda>(endpoint, consumed).
       let offset = offset + consumed;
           meta = meta\<lparr>mm_network := Some network, mm_target := Some endpoint\<rparr>
       in if status = SESSION_STATUS_NEW \<and> network = NETWORK_UDP \<and>
             length body \<ge> offset + GLOBAL_ID_LEN
          then ebind (slice body offset (offset + GLOBAL_ID_LEN)) (\<lambda>gid.
               Ok (meta\<lparr>mm_global_id := Some gid\<rparr>))
          else Ok meta)))
     else Ok meta)))))"

definition parse_frame :: "bytes \<Rightarrow> (mux_frame \<times> nat, mux_error) outcome" where
  "parse_frame input =
    (if length input < 2 then Err TooShort else
     ebind (idx input 0) (\<lambda>l0.
     ebind (idx input 1) (\<lambda>l1.
     let meta_len = unat (u16_from_be l0 l1) in
     if meta_len > MAX_META_LEN then Err (MetaTooLarge meta_len) else
     let meta_end = 2 + meta_len in
     if length input < meta_end then Err TooShort else
     ebind (slice input 2 meta_end) (\<lambda>body.
     ebind (parse_meta_body body) (\<lambda>meta.
     let consumed = meta_end in
     if has_data meta then
       (if length input < consumed + 2 then Err TooShort else
        ebind (idx input consumed) (\<lambda>c0.
        ebind (idx input (consumed + 1)) (\<lambda>c1.
        let chunk_len = unat (u16_from_be c0 c1); consumed = consumed + 2 in
        if chunk_len > MAX_CHUNK_SIZE then Err (ChunkTooLarge chunk_len)
        else if length input < consumed + chunk_len then Err TooShort
        else ebind (slice input consumed (consumed + chunk_len)) (\<lambda>data.
          Ok (\<lparr>mf_meta = meta, mf_payload = Some data\<rparr>, consumed + chunk_len)))))
     else Ok (\<lparr>mf_meta = meta, mf_payload = None\<rparr>, consumed))))))"

section \<open>Encoders\<close>

definition meta_body :: "mux_meta \<Rightarrow> bytes" where
  "meta_body meta =
     u16_to_be (mm_session_id meta) @ [mm_status meta] @ [mm_option meta] @
     (if mm_status meta = SESSION_STATUS_NEW then
        (case (mm_network meta, mm_target meta) of
           (Some network, Some target) \<Rightarrow>
             [network] @ encode_port_address target @
             (if network = NETWORK_UDP then
                (case mm_global_id meta of Some gid \<Rightarrow> gid | None \<Rightarrow> []) else [])
         | _ \<Rightarrow> [])
      else if mm_status meta = SESSION_STATUS_KEEP then
        (case (mm_network meta, mm_target meta) of
           (Some network, Some target) \<Rightarrow>
             if network = NETWORK_UDP then [NETWORK_UDP] @ encode_port_address target else []
         | _ \<Rightarrow> [])
      else [])"

definition encode_meta :: "mux_meta \<Rightarrow> bytes" where
  "encode_meta meta =
     (let body = meta_body meta in u16_to_be (word_of_nat (length body)) @ body)"

definition encode_data_frame :: "mux_meta \<Rightarrow> bytes \<Rightarrow> (bytes, mux_error) outcome" where
  "encode_data_frame meta payload =
     (if length payload > MAX_CHUNK_SIZE then Err (ChunkTooLarge (length payload))
      else Ok (encode_meta meta @ u16_to_be (word_of_nat (length payload)) @ payload))"

definition encode_end_frame :: "u16 \<Rightarrow> bool \<Rightarrow> bytes" where
  "encode_end_frame session_id with_error =
     encode_meta \<lparr>mm_session_id = session_id, mm_status = SESSION_STATUS_END,
       mm_option = (if with_error then OPTION_ERROR else 0), mm_network = None, mm_target = None,
       mm_global_id = None\<rparr>"

section \<open>The parsers without their accesses\<close>

lemma parse_meta_body_flat:
  "parse_meta_body body =
    (if length body < 4 then Err TooShort
     else let meta = \<lparr>mm_session_id = u16_from_be (body ! 0) (body ! 1), mm_status = body ! 2,
                mm_option = body ! 3, mm_network = None, mm_target = None, mm_global_id = None\<rparr>
       in if 4 < length body \<and> (body ! 2 = 1 \<and> (body ! 4 = 1 \<or> body ! 4 = 2) \<or>
              body ! 2 = 2 \<and> body ! 4 = 2)
       then ebind (map_err MuxAddress (parse_port_address (drop 5 body))) (\<lambda>(t, n).
         Ok (meta\<lparr>mm_network := Some (body ! 4), mm_target := Some t,
               mm_global_id := (if body ! 2 = 1 \<and> body ! 4 = 2 \<and> 13 + n \<le> length body
                 then Some (take 8 (drop (5 + n) body)) else None)\<rparr>))
       else Ok meta)"
  by (cases "parse_port_address (drop 5 body)")
    (auto simp: parse_meta_body_def Let_def idx_def slice_def add_ac)

lemma returns_parse_meta_body [simp]: "returns (parse_meta_body body)"
  by (auto simp: parse_meta_body_flat Let_def intro!: returns_ebind)

lemma parse_frame_flat:
  "parse_frame input =
    (if length input < 2 then Err TooShort
     else let m = be16_at input 0 in
       if 512 < m then Err (MetaTooLarge m)
       else if length input < 2 + m then Err TooShort
       else ebind (parse_meta_body (take m (drop 2 input))) (\<lambda>meta.
         if has_data meta then
           if length input < 2 + m + 2 then Err TooShort
           else let c = be16_at input (2 + m) in
             if 8192 < c then Err (ChunkTooLarge c)
             else if length input < 2 + m + 2 + c then Err TooShort
             else Ok (\<lparr>mf_meta = meta, mf_payload = Some (take c (drop (2 + m + 2) input))\<rparr>, 2 + m + 2 + c)
         else Ok (\<lparr>mf_meta = meta, mf_payload = None\<rparr>, 2 + m)))"
proof (cases "length input < 2")
  case False
  define m where "m = be16_at input 0"
  have m: "unat (u16_from_be (input ! 0) (input ! Suc 0)) = m" by (simp only: m_def be16_at_def)
  define c where "c = be16_at input (2 + m)"
  have c: "unat (u16_from_be (input ! Suc (Suc m)) (input ! Suc (Suc (Suc m)))) = c"
    by (simp add: c_def be16_at_def del: unat_u16_from_be)
  have c': "be16_at input (Suc (Suc m)) = c" by (simp add: c_def)
  have "input \<noteq> []" "Suc 0 < length input" using False by auto
  then show ?thesis
    using False
    by (cases "parse_meta_body (take m (drop 2 input))")
      (simp_all add: parse_frame_def Let_def idx_def slice_def m c c' add_ac del: unat_u16_from_be
        flip: m_def)
qed (simp add: parse_frame_def)

lemma parse_frame_Ok:
  "parse_frame bs = Ok (f, n) \<longleftrightarrow>
     (let m = be16_at bs 0 in
      2 + m \<le> length bs \<and> m \<le> 512 \<and> parse_meta_body (take m (drop 2 bs)) = Ok (mf_meta f) \<and>
      (if has_data (mf_meta f) then
         let c = be16_at bs (2 + m) in
         c \<le> 8192 \<and> n = 2 + m + 2 + c \<and> n \<le> length bs \<and> mf_payload f = Some (take c (drop (2 + m + 2) bs))
       else n = 2 + m \<and> mf_payload f = None))"
  by (cases f) (auto simp: parse_frame_flat ebind_eq_Ok_conv Let_def not_less split: if_split_asm)

interpretation mux_parser: prefix_parser parse_frame
proof unfold_locales
  fix bs ys :: bytes and f n
  show "returns (parse_frame bs)"
    by (auto simp: parse_frame_flat Let_def intro!: returns_ebind)
  assume p: "parse_frame bs = Ok (f, n)"
  then have a: "2 + be16_at bs 0 \<le> n" "n \<le> length bs" "has_data (mf_meta f) \<Longrightarrow> 4 + be16_at bs 0 \<le> n"
    by (auto simp: parse_frame_Ok Let_def split: if_split_asm)
  then show "0 < n \<and> n \<le> length bs" by simp
  show "parse_frame (bs @ ys) = Ok (f, n)"
    using p a by (auto simp: parse_frame_Ok Let_def)
  show "parse_frame (take n bs) = Ok (f, n)"
    using p a by (auto simp: parse_frame_Ok Let_def drop_take min_def)
qed

section \<open>Round trips\<close>

text \<open>The metadata the protocol gives a meaning to.\<close>

definition wf_meta :: "mux_meta \<Rightarrow> bool" where
  "wf_meta m \<longleftrightarrow>
     (case mm_target m of
        None \<Rightarrow> mm_network m = None \<and> mm_global_id m = None
      | Some t \<Rightarrow> wire_endpoint t \<and>
          (mm_status m = 1 \<and> mm_network m = Some 1 \<and> mm_global_id m = None \<or>
           mm_status m = 1 \<and> mm_network m = Some 2 \<and>
             (case mm_global_id m of None \<Rightarrow> True | Some g \<Rightarrow> length g = 8) \<or>
           mm_status m = 2 \<and> mm_network m = Some 2 \<and> mm_global_id m = None))"

lemma encode_port_address_length: "wire_endpoint t \<Longrightarrow> length (encode_port_address t) \<le> 259"
  by (cases t) (auto simp: encode_port_address_def split: ip_addr.split)

lemma parse_port_address_encoded:
  "wire_endpoint t \<Longrightarrow>
     parse_port_address (encode_port_address t @ r) = Ok (t, length (encode_port_address t))"
  by (rule port_address_codec.encode_parse_stream)

lemma meta_body_length: "wf_meta m \<Longrightarrow> 4 \<le> length (meta_body m) \<and> length (meta_body m) \<le> 272"
  using encode_port_address_length [of "the (mm_target m)"]
  by (auto simp: wf_meta_def meta_body_def split: option.splits)

lemma drop_5_Cons: "drop (5 + n) (a # b # c # d # e # xs) = drop n xs"
  by (simp add: numeral_eq_Suc)

lemma parse_meta_body_encoded:
  assumes "wf_meta m"
  shows "parse_meta_body (meta_body m) = Ok m"
proof (cases "mm_target m")
  case None
  with assms show ?thesis
    by (cases m) (auto simp: wf_meta_def parse_meta_body_flat meta_body_def u16_to_be_def split: option.splits)
next
  case (Some t)
  with assms have "wire_endpoint t" by (simp add: wf_meta_def)
  note enc = parse_port_address_encoded [OF this] parse_port_address_encoded [OF this, of "[]", simplified]
  from assms Some show ?thesis
    by (cases m) (auto simp: wf_meta_def parse_meta_body_flat meta_body_def u16_to_be_def enc drop_5_Cons
        split: option.splits)
qed

definition wf_frame :: "mux_frame \<Rightarrow> bool" where
  "wf_frame f \<longleftrightarrow> wf_meta (mf_meta f) \<and>
     (case mf_payload f of
        None \<Rightarrow> \<not> has_data (mf_meta f)
      | Some p \<Rightarrow> has_data (mf_meta f) \<and> length p \<le> 8192)"

text \<open>How the relay writes a frame: a data frame when there is a payload, bare metadata otherwise.\<close>

definition encode_frame :: "mux_frame \<Rightarrow> bytes" where
  "encode_frame f =
     (case mf_payload f of
        None \<Rightarrow> encode_meta (mf_meta f)
      | Some p \<Rightarrow> (case encode_data_frame (mf_meta f) p of Ok bs \<Rightarrow> bs | _ \<Rightarrow> []))"

lemma encode_meta_split:
  assumes "wf_meta m"
  shows "be16_at (encode_meta m @ r) 0 = length (meta_body m)"
    "take (length (meta_body m)) (drop 2 (encode_meta m @ r)) = meta_body m"
    "length (encode_meta m) = 2 + length (meta_body m)"
  using meta_body_length [OF assms] by (simp_all add: encode_meta_def Let_def)

lemma parse_encode_frame:
  assumes "wf_frame f"
  shows "parse_frame (encode_frame f) = Ok (f, length (encode_frame f))"
proof -
  let ?m = "mf_meta f"
  from assms have wf: "wf_meta ?m" by (simp add: wf_frame_def)
  note split = encode_meta_split [OF wf] and body = parse_meta_body_encoded [OF wf]
    meta_body_length [OF wf]
  show ?thesis
  proof (cases "mf_payload f")
    case None
    with assms split(1,2) [of "[]"] split(3) body show ?thesis
      by (simp add: wf_frame_def encode_frame_def parse_frame_Ok Let_def)
  next
    case (Some p)
    let ?r = "u16_to_be (word_of_nat (length p)) @ p"
    from Some assms have p: "has_data ?m" "length p \<le> 8192" by (simp_all add: wf_frame_def)
    have c: "be16_at (encode_meta ?m @ ?r) (2 + length (meta_body ?m)) = length p"
      using be16_at_skip [of "encode_meta ?m" ?r] split(3) p(2)
      by (simp add: del: be16_at_skip)
    from Some p split(1,2) [of ?r] split(3) body c show ?thesis
      by (simp add: encode_frame_def encode_data_frame_def parse_frame_Ok Let_def)
  qed
qed

interpretation mux_codec: wire_codec parse_frame encode_frame wf_frame
  by unfold_locales (rule parse_encode_frame)

section \<open>Properties\<close>

text \<open>Mux frames round trip: a well-formed frame written with the encoders parses back to itself,
  and two sequences of well-formed frames with the same bytes on the wire are the same sequence.\<close>
lemma mux_frames_roundtrip:
  assumes "\<forall>f \<in> set fs. wf_frame f" and "\<forall>g \<in> set gs. wf_frame g"
    and "concat (map encode_frame fs) = concat (map encode_frame gs)"
  shows "fs = gs \<and> (\<forall>f \<in> set fs. parse_frame (encode_frame f @ rest) = Ok (f, length (encode_frame f)))"
  using mux_codec.encode_concat_inj [OF assms] mux_codec.encode_parse_stream assms(1) by blast

text \<open>An accepted Mux frame stays within the announced limits: at most 512 bytes of metadata and
  8192 bytes of data, all of them inside the buffer; and no buffer makes the parser panic.\<close>
lemma mux_frame_bounds:
  "returns (parse_frame bs) \<and>
   (parse_frame bs = Ok (f, n) \<longrightarrow> n \<le> length bs \<and> n \<le> 2 + 512 + 2 + 8192 \<and>
      (\<forall>p. mf_payload f = Some p \<longrightarrow> length p \<le> 8192))"
  using mux_parser.parse_returns [of bs] mux_parser.parse_consumed [of bs f n]
  by (auto simp: parse_frame_Ok Let_def split: if_split_asm)

end
