(* ===== verification/Xudp.thy ===== *)
theory Xudp
  imports Endpoint Clock "HOL-Library.AList"
begin

text \<open>
  The registry of XUDP cone sockets by global id (\<open>crates/skadi-transport/src/xudp.rs\<close>). Every
  operation holds the lock, so each is one step. Sockets and reader tasks are numbers; the tasks
  whose abort handle was used are recorded. The table is a list in the (unspecified) order of the
  hash map.
\<close>

section \<open>State\<close>

datatype xudp_status = Active | Initializing | Expiring

record xudp_entry =
  xe_socket :: nat
  xe_status :: xudp_status
  xe_expire_at :: "instant option"
  xe_reader_abort :: "nat option"

record xudp_manager =
  xm_entries :: "(bytes \<times> xudp_entry) list"
  xm_aborted :: "nat list"

definition XUDP_EXPIRE_TTL :: duration where "XUDP_EXPIRE_TTL = from_secs 60"

definition xudp_empty :: xudp_manager where
  "xudp_empty = \<lparr>xm_entries = [], xm_aborted = []\<rparr>"

abbreviation entry_of :: "xudp_manager \<Rightarrow> bytes \<Rightarrow> xudp_entry option" where
  "entry_of m gid \<equiv> map_of (xm_entries m) gid"

definition put_entry :: "bytes \<Rightarrow> xudp_entry \<Rightarrow> xudp_manager \<Rightarrow> xudp_manager" where
  "put_entry gid e m = m\<lparr>xm_entries := AList.update gid e (xm_entries m)\<rparr>"

text \<open>\<open>if let Some(abort) = handle { abort.abort() }\<close>.\<close>

definition abort_reader :: "nat option \<Rightarrow> xudp_manager \<Rightarrow> xudp_manager" where
  "abort_reader h m = (case h of None \<Rightarrow> m | Some t \<Rightarrow> m\<lparr>xm_aborted := xm_aborted m @ [t]\<rparr>)"

section \<open>Operations\<close>

text \<open>\<open>bind\<close> is the result of binding a new socket.\<close>

definition acquire_inner ::
  "(nat, io_kind) outcome \<Rightarrow> bytes \<Rightarrow> xudp_manager \<Rightarrow> (nat \<times> bool, io_kind) outcome \<times> xudp_manager" where
  "acquire_inner bind gid m =
     (case entry_of m gid of
        Some e \<Rightarrow>
          if xe_status e = Initializing then (Ok (xe_socket e, True), m)
          else
            (let h = xe_reader_abort e;
                 e = e\<lparr>xe_status := Initializing, xe_reader_abort := None\<rparr>;
                 m = abort_reader h m;
                 e = e\<lparr>xe_expire_at := None\<rparr>;
                 e = e\<lparr>xe_status := Active\<rparr>
             in (Ok (xe_socket e, True), put_entry gid e m))
      | None \<Rightarrow>
          (case bind of
             Ok socket \<Rightarrow>
               (Ok (socket, False),
                put_entry gid \<lparr>xe_socket = socket, xe_status = Active, xe_expire_at = None,
                  xe_reader_abort = None\<rparr> m)
           | Err e \<Rightarrow> (Err e, m)
           | Panic \<Rightarrow> (Panic, m)
           | Pending \<Rightarrow> (Pending, m)))"

definition detach_inner :: "bytes \<Rightarrow> instant \<Rightarrow> xudp_manager \<Rightarrow> xudp_manager" where
  "detach_inner gid now m =
     (case entry_of m gid of
        None \<Rightarrow> m
      | Some e \<Rightarrow>
          if xe_status e = Active then
            put_entry gid (e\<lparr>xe_reader_abort := None, xe_status := Expiring,
                xe_expire_at := Some (now + XUDP_EXPIRE_TTL)\<rparr>)
              (abort_reader (xe_reader_abort e) m)
          else m)"

definition register_reader_inner :: "bytes \<Rightarrow> nat \<Rightarrow> xudp_manager \<Rightarrow> xudp_manager" where
  "register_reader_inner gid task m =
     (case entry_of m gid of
        None \<Rightarrow> m
      | Some e \<Rightarrow> put_entry gid (e\<lparr>xe_reader_abort := Some task\<rparr>) m)"

definition expired :: "instant \<Rightarrow> xudp_entry \<Rightarrow> bool" where
  "expired now e \<longleftrightarrow> xe_status e = Expiring \<and> (case xe_expire_at e of Some t \<Rightarrow> t \<le> now | None \<Rightarrow> False)"

fun remove_all :: "bytes list \<Rightarrow> xudp_manager \<Rightarrow> xudp_manager" where
  "remove_all [] m = m"
| "remove_all (gid # gids) m =
     (case entry_of m gid of
        None \<Rightarrow> remove_all gids m
      | Some e \<Rightarrow>
          remove_all gids (abort_reader (xe_reader_abort e)
            (m\<lparr>xm_entries := AList.delete gid (xm_entries m)\<rparr>)))"

definition cleanup_xudp :: "instant \<Rightarrow> xudp_manager \<Rightarrow> xudp_manager" where
  "cleanup_xudp now m = remove_all (map fst (filter (\<lambda>(_, e). expired now e) (xm_entries m))) m"

section \<open>Table lookups\<close>

lemma entries_abort [simp]: "xm_entries (abort_reader h m) = xm_entries m"
  by (simp add: abort_reader_def split: option.split)

lemma entry_put [simp]: "entry_of (put_entry gid e m) g = (if g = gid then Some e else entry_of m g)"
  by (simp add: put_entry_def update_conv')

lemma remove_all_entry: "entry_of (remove_all gids m) g = (if g \<in> set gids then None else entry_of m g)"
proof (induction gids arbitrary: m)
  case (Cons gid gids)
  show ?case
    by (cases "entry_of m gid") (auto simp: Cons.IH delete_conv')
qed simp

lemma entry_cleanup:
  assumes "distinct (map fst (xm_entries m))"
  shows "entry_of (cleanup_xudp now m) g =
    (case entry_of m g of Some e \<Rightarrow> if expired now e then None else Some e | None \<Rightarrow> None)"
proof (cases "entry_of m g")
  case None
  then show ?thesis by (simp add: cleanup_xudp_def remove_all_entry)
next
  case (Some e)
  then have "e' = e" if "(g, e') \<in> set (xm_entries m)" for e'
    using map_of_is_SomeI [OF assms that] by simp
  with Some show ?thesis
    by (auto simp: cleanup_xudp_def remove_all_entry image_iff dest: map_of_SomeD)
qed

lemma entry_detach:
  "entry_of (detach_inner gid now m) g =
     (if g = gid then map_option (\<lambda>e. if xe_status e = Active
          then e\<lparr>xe_reader_abort := None, xe_status := Expiring, xe_expire_at := Some (now + XUDP_EXPIRE_TTL)\<rparr>
          else e) (entry_of m g)
      else entry_of m g)"
  by (auto simp: detach_inner_def split: option.split)

lemma entry_register:
  "entry_of (register_reader_inner gid task m) g =
     (if g = gid then map_option (\<lambda>e. e\<lparr>xe_reader_abort := Some task\<rparr>) (entry_of m g) else entry_of m g)"
  by (auto simp: register_reader_inner_def split: option.split)

section \<open>Invariant\<close>

definition entry_ok :: "xudp_entry \<Rightarrow> bool" where
  "entry_ok e \<longleftrightarrow> xe_status e \<noteq> Initializing \<and> (xe_status e = Expiring \<longleftrightarrow> xe_expire_at e \<noteq> None)"

definition xudp_inv :: "xudp_manager \<Rightarrow> bool" where
  "xudp_inv m \<longleftrightarrow> distinct (map fst (xm_entries m)) \<and> (\<forall>g e. entry_of m g = Some e \<longrightarrow> entry_ok e)"

inductive xudp_step :: "xudp_manager \<Rightarrow> xudp_manager \<Rightarrow> bool" where
  acquire: "xudp_step m (snd (acquire_inner bind gid m))"
| detach: "xudp_step m (detach_inner gid now m)"
| register: "xudp_step m (register_reader_inner gid task m)"
| cleanup: "xudp_step m (cleanup_xudp now m)"

lemma distinct_put: "distinct (map fst (xm_entries m)) \<Longrightarrow> distinct (map fst (xm_entries (put_entry g e m)))"
  by (simp add: put_entry_def distinct_update)

lemma distinct_remove_all:
  "distinct (map fst (xm_entries m)) \<Longrightarrow> distinct (map fst (xm_entries (remove_all gids m)))"
  by (induction gids arbitrary: m) (auto simp: distinct_delete split: option.split)

lemma xudp_inv_put: "xudp_inv m \<Longrightarrow> entry_ok e \<Longrightarrow> xudp_inv (put_entry g e m)"
  by (simp add: xudp_inv_def distinct_put)

lemma xudp_inv_abort [simp]: "xudp_inv (abort_reader h m) = xudp_inv m"
  by (simp add: xudp_inv_def)

lemma xudp_invD: "xudp_inv m \<Longrightarrow> entry_of m g = Some e \<Longrightarrow> entry_ok e"
  by (simp add: xudp_inv_def)

lemma xudp_step_inv: "xudp_step m m' \<Longrightarrow> xudp_inv m \<Longrightarrow> xudp_inv m'"
proof (induction rule: xudp_step.induct)
  case (acquire m bind gid)
  show ?case
  proof (cases "entry_of m gid")
    case None
    with acquire show ?thesis
      by (cases bind) (auto simp: acquire_inner_def entry_ok_def intro!: xudp_inv_put)
  next
    case (Some e)
    with acquire show ?thesis
      by (auto simp: acquire_inner_def Let_def entry_ok_def intro!: xudp_inv_put)
  qed
next
  case (detach m gid now)
  then show ?case
    by (auto simp: detach_inner_def entry_ok_def split: option.split intro!: xudp_inv_put)
next
  case (register m gid task)
  then show ?case
    by (auto simp: register_reader_inner_def entry_ok_def split: option.split intro!: xudp_inv_put
        dest: xudp_invD)
next
  case (cleanup m now)
  then show ?case
    using entry_cleanup [of m now]
    by (auto simp: xudp_inv_def cleanup_xudp_def distinct_remove_all split: option.splits if_split_asm)
qed

inductive xudp_reachable :: "xudp_manager \<Rightarrow> bool" where
  start: "xudp_reachable xudp_empty"
| more: "xudp_reachable m \<Longrightarrow> xudp_step m m' \<Longrightarrow> xudp_reachable m'"

lemma xudp_reachable_inv: "xudp_reachable m \<Longrightarrow> xudp_inv m"
proof (induction rule: xudp_reachable.induct)
  case start
  show ?case by (simp add: xudp_inv_def xudp_empty_def)
next
  case (more m m')
  then show ?case using xudp_step_inv by blast
qed

lemma acquire_active:
  assumes "xudp_inv m" and "acquire_inner bind gid m = (Ok (s, hit), m')"
  shows "\<exists>e. entry_of m' gid = Some e \<and> xe_socket e = s \<and> xe_status e = Active \<and> xe_expire_at e = None"
proof (cases "entry_of m gid")
  case None
  with assms(2) show ?thesis by (auto simp: acquire_inner_def split: outcome.splits)
next
  case (Some e)
  with xudp_invD [OF assms(1) Some] assms(2) show ?thesis
    by (auto simp: acquire_inner_def Let_def entry_ok_def)
qed

lemma acquire_known:
  assumes "entry_of m gid = Some e"
  shows "fst (acquire_inner bind gid m) = Ok (xe_socket e, True)"
  using assms by (simp add: acquire_inner_def Let_def)

section \<open>Properties\<close>

text \<open>A cone survives a reconnect: from any reachable table, a client that acquires a global id,
  detaches, and acquires it again before a cleanup at the end of the sixty seconds gets the same
  socket, and the entry is active again.\<close>
lemma xudp_reattach:
  assumes "xudp_reachable m" and "acquire_inner bind gid m = (Ok (s, hit), m1)"
    and "m2 = detach_inner gid t m1" and "now < t + XUDP_EXPIRE_TTL"
    and "acquire_inner bind' gid (cleanup_xudp now m2) = (r, m3)"
  shows "r = Ok (s, True) \<and>
    (\<exists>e. entry_of m3 gid = Some e \<and> xe_socket e = s \<and> xe_status e = Active \<and> xe_expire_at e = None)"
proof -
  have inv: "xudp_inv m" using xudp_reachable_inv [OF assms(1)] .
  have m1: "m1 = snd (acquire_inner bind gid m)" using assms(2) by simp
  have inv1: "xudp_inv m1" unfolding m1 by (rule xudp_step_inv [OF xudp_step.acquire inv])
  have inv2: "xudp_inv m2" unfolding assms(3) by (rule xudp_step_inv [OF xudp_step.detach inv1])
  have inv3: "xudp_inv (cleanup_xudp now m2)" by (rule xudp_step_inv [OF xudp_step.cleanup inv2])
  from acquire_active [OF inv assms(2)] obtain e where
    e: "entry_of m1 gid = Some e" "xe_socket e = s" "xe_status e = Active" by blast
  then obtain e2 where e2: "entry_of m2 gid = Some e2" "xe_socket e2 = s"
    "xe_expire_at e2 = Some (t + XUDP_EXPIRE_TTL)"
    by (simp add: assms(3) entry_detach)
  then have "entry_of (cleanup_xudp now m2) gid = Some e2"
    using inv2 assms(4) by (simp add: entry_cleanup xudp_inv_def expired_def)
  from acquire_known [OF this, of bind'] e2(2) assms(5) have "r = Ok (s, True)" by simp
  with acquire_active [OF inv3, of bind' gid s True m3] assms(5) show ?thesis by simp
qed

text \<open>Two connections that use one global id share an entry without counting it: when the first
  one leaves, the reader of the second one is aborted although it is still in use, and the cleanup
  sixty seconds later drops the entry.\<close>
lemma xudp_foreign_detach:
  assumes "xudp_reachable m" and "entry_of m gid = None"
  shows "case acquire_inner (Ok s) gid m of (_, m1) \<Rightarrow>
    case acquire_inner bind gid (register_reader_inner gid first m1) of (r, m2) \<Rightarrow>
      (let m3 = detach_inner gid t (register_reader_inner gid second m2)
       in r = Ok (s, True) \<and> xm_aborted m3 = xm_aborted m @ [first, second] \<and>
          entry_of (cleanup_xudp (t + XUDP_EXPIRE_TTL) m3) gid = None)"
proof -
  let ?m1 = "register_reader_inner gid first (snd (acquire_inner (Ok s) gid m))"
  let ?m3 = "detach_inner gid t (register_reader_inner gid second (snd (acquire_inner bind gid ?m1)))"
  have inv: "xudp_inv ?m3"
    by (intro xudp_step_inv [OF xudp_step.detach] xudp_step_inv [OF xudp_step.register]
        xudp_step_inv [OF xudp_step.acquire] xudp_reachable_inv assms(1))
  have "entry_of (cleanup_xudp (t + XUDP_EXPIRE_TTL) ?m3) gid = None"
    using inv assms(2)
    by (simp add: entry_cleanup xudp_inv_def entry_detach entry_register acquire_inner_def Let_def expired_def)
  moreover have "fst (acquire_inner bind gid ?m1) = Ok (s, True)"
    using assms(2) by (simp add: acquire_inner_def register_reader_inner_def Let_def)
  moreover have "xm_aborted ?m3 = xm_aborted m @ [first, second]"
    using assms(2)
    by (simp add: acquire_inner_def register_reader_inner_def detach_inner_def Let_def abort_reader_def
        put_entry_def update_conv')
  ultimately show ?thesis by (simp add: Let_def case_prod_beta)
qed

end
