(* ===== verification/Mux_Relay.thy ===== *)
theory Mux_Relay
  imports Mux_Frame Outbound Relay Xudp
begin

text \<open>
  The Mux relay (\<open>crates/skadi-transport/src/mux.rs\<close>): one client stream carries frames of many
  TCP and UDP sessions and of one XUDP cone. The main task reads frames and handles them; each
  session has a reader task that copies from its upstream to the client. A session's upstream is
  behind a mutex that its reader holds while it waits for data. Upstreams and reader tasks are
  numbered; a reader has the number of its upstream. Handling one frame is one step of the main
  task, except that it waits when it needs an upstream whose mutex is held; reading and writing
  one chunk is one step of a reader.
\<close>

section \<open>State\<close>

datatype mux_session = MuxTcp nat | MuxUdp nat

fun session_upstream :: "mux_session \<Rightarrow> nat" where
  "session_upstream (MuxTcp u) = u"
| "session_upstream (MuxUdp u) = u"

record xudp_cone =
  cn_global_id :: "bytes option"
  cn_socket :: nat
  cn_reader :: "nat option"

text \<open>A reader task: the session it serves, and whether it holds the mutex of its upstream.\<close>

record reader_task =
  rt_session :: u16
  rt_udp :: bool
  rt_reading :: bool

record mux_state =
  mx_sessions :: "u16 \<rightharpoonup> mux_session"
  mx_cone :: "xudp_cone option"
  mx_manager :: xudp_manager
  mx_tasks :: "nat \<rightharpoonup> reader_task"
  mx_next :: nat
  mx_contacted :: "socket_addr list"
  mx_written :: "bytes list"
  mx_upstream :: "(nat \<times> bytes) list"
  mx_datagrams :: "(nat \<times> socket_addr \<times> bytes) list"

text \<open>
  The environment: the network, the configured transports, and the results of writing to the
  client, to an upstream, and of sending a datagram; the time is an argument of what reads it.
\<close>

record mux_env =
  me_net :: net_env
  me_tcp :: outbound_tcp
  me_allow_private :: bool
  me_client_write :: "bytes \<Rightarrow> (unit, io_kind) outcome"
  me_upstream_write :: "nat \<Rightarrow> bytes \<Rightarrow> (unit, io_kind) outcome"
  me_send_to :: "nat \<Rightarrow> socket_addr \<Rightarrow> bytes \<Rightarrow> (unit, io_kind) outcome"
  me_bind :: "(nat, io_kind) outcome"

datatype mux_relay_error =
    MrIo io_kind
  | MrFrame mux_error
  | MrConnect out_error
  | MrNoTarget
  | MrXudpNoTarget
  | MrUnknownStatus u8
  | MrUnknownXudpStatus u8
  | MrConeMissing
  | MrIdleTimeout
  | MrSessionLifetime

type_synonym 'a mux = "(mux_state, 'a, mux_relay_error) io"

text \<open>A change of the state, and a look at it.\<close>

definition mx_update :: "(mux_state \<Rightarrow> mux_state) \<Rightarrow> unit mux" where
  "mx_update f st = (Ok (), f st)"

definition mx_get :: "(mux_state \<Rightarrow> 'a) \<Rightarrow> 'a mux" where
  "mx_get f st = (Ok (f st), st)"

section \<open>Writing to the client\<close>

definition write_frame :: "mux_env \<Rightarrow> bytes \<Rightarrow> unit mux" where
  "write_frame env frame =
     io_bind (io_lift (map_err MrIo (me_client_write env frame))) (\<lambda>_.
     mx_update (\<lambda>st. st\<lparr>mx_written := mx_written st @ [frame]\<rparr>))"

definition write_mux_data :: "mux_env \<Rightarrow> u16 \<Rightarrow> u8 \<Rightarrow> endpoint option \<Rightarrow> bytes \<Rightarrow> unit mux" where
  "write_mux_data env session_id status target payload =
     (let meta = \<lparr>mm_session_id = session_id, mm_status = status, mm_option = OPTION_DATA,
                  mm_network = map_option (\<lambda>_. NETWORK_UDP) target, mm_target = target, mm_global_id = None\<rparr>
      in io_bind (io_lift (map_err MrFrame (encode_data_frame meta payload))) (write_frame env))"

definition write_data :: "mux_env \<Rightarrow> u16 \<Rightarrow> u8 \<Rightarrow> bytes \<Rightarrow> unit mux" where
  "write_data env session_id status payload = write_mux_data env session_id status None payload"

definition write_end :: "mux_env \<Rightarrow> u16 \<Rightarrow> unit mux" where
  "write_end env session_id = write_frame env (encode_end_frame session_id False)"

section \<open>Opening sessions\<close>

text \<open>Connecting, with the contacted addresses kept in the state.\<close>

definition mx_net :: "'a net \<Rightarrow> 'a mux" where
  "mx_net m st =
     (case m (mx_contacted st) of (r, log) \<Rightarrow> (map_err MrConnect r, st\<lparr>mx_contacted := log\<rparr>))"

definition upstream_write :: "mux_env \<Rightarrow> nat \<Rightarrow> bytes \<Rightarrow> unit mux" where
  "upstream_write env u payload =
     io_bind (io_lift (map_err MrIo (me_upstream_write env u payload))) (\<lambda>_.
     mx_update (\<lambda>st. st\<lparr>mx_upstream := mx_upstream st @ [(u, payload)]\<rparr>))"

definition byte_count :: "bytes \<Rightarrow> u64" where
  "byte_count payload = word_of_nat (length payload)"

text \<open>A new upstream number.\<close>

definition fresh_upstream :: "nat mux" where
  "fresh_upstream st = (Ok (mx_next st), st\<lparr>mx_next := mx_next st + 1\<rparr>)"

text \<open>Spawning the reader and entering the session in the table.\<close>

definition start_session :: "u16 \<Rightarrow> mux_session \<Rightarrow> bool \<Rightarrow> mux_state \<Rightarrow> mux_state" where
  "start_session session_id session udp st =
     st\<lparr>mx_tasks := (mx_tasks st)(session_upstream session \<mapsto>
          \<lparr>rt_session = session_id, rt_udp = udp, rt_reading = False\<rparr>),
        mx_sessions := (mx_sessions st)(session_id \<mapsto> session)\<rparr>"

definition open_tcp_session :: "mux_env \<Rightarrow> mux_frame \<Rightarrow> endpoint \<Rightarrow> u64 mux" where
  "open_tcp_session env frame target =
     io_bind (mx_net (outbound_connect (me_net env) (me_tcp env) target)) (\<lambda>_.
     io_bind fresh_upstream (\<lambda>u.
     io_bind
       (case mf_payload frame of
          Some payload \<Rightarrow> io_bind (upstream_write env u payload) (\<lambda>_. io_lift (Ok (byte_count payload)))
        | None \<Rightarrow> io_lift (Ok 0))
       (\<lambda>n.
     io_bind (mx_update (start_session (mm_session_id (mf_meta frame)) (MuxTcp u) False)) (\<lambda>_.
     io_lift (Ok n)))))"

definition open_udp_session :: "mux_env \<Rightarrow> mux_frame \<Rightarrow> endpoint \<Rightarrow> u64 mux" where
  "open_udp_session env frame target =
     io_bind (mx_net (udp_connect (me_net env) (me_allow_private env) target)) (\<lambda>_.
     io_bind fresh_upstream (\<lambda>u.
     io_bind
       (case mf_payload frame of
          Some payload \<Rightarrow>
            if payload \<noteq> [] then
              io_bind (upstream_write env u payload) (\<lambda>_. io_lift (Ok (byte_count payload)))
            else io_lift (Ok 0)
        | None \<Rightarrow> io_lift (Ok 0))
       (\<lambda>n.
     io_bind (mx_update (start_session (mm_session_id (mf_meta frame)) (MuxUdp u) True)) (\<lambda>_.
     io_lift (Ok n)))))"

section \<open>Forwarding\<close>

text \<open>\<open>upstream.lock().await\<close>: waits while the reader of the upstream holds the mutex.\<close>

definition lock_upstream :: "nat \<Rightarrow> unit mux" where
  "lock_upstream u st =
     (case mx_tasks st u of
        Some t \<Rightarrow> if rt_reading t then (Pending, st) else (Ok (), st)
      | None \<Rightarrow> (Ok (), st))"

text \<open>\<open>frame.payload.as_deref().filter(|p| !p.is_empty())\<close>.\<close>

definition nonempty_payload :: "mux_frame \<Rightarrow> bytes option" where
  "nonempty_payload frame =
     (case mf_payload frame of Some p \<Rightarrow> if p = [] then None else Some p | None \<Rightarrow> None)"

definition forward_keep_frame :: "mux_env \<Rightarrow> mux_frame \<Rightarrow> u64 mux" where
  "forward_keep_frame env frame =
     (let session_id = mm_session_id (mf_meta frame); payload = nonempty_payload frame in
      io_bind (mx_get (\<lambda>st. mx_sessions st session_id)) (\<lambda>handle.
      case handle of
        None \<Rightarrow> io_bind (write_end env session_id) (\<lambda>_. io_lift (Ok 0))
      | Some session \<Rightarrow>
          (case payload of
             None \<Rightarrow> io_lift (Ok 0)
           | Some p \<Rightarrow>
               io_bind (lock_upstream (session_upstream session)) (\<lambda>_.
               io_bind (upstream_write env (session_upstream session) p) (\<lambda>_.
               io_lift (Ok (byte_count p)))))))"

text \<open>\<open>MuxSession::abort\<close>: the reader is gone, and with it its hold on the mutex.\<close>

definition abort_task :: "nat \<Rightarrow> mux_state \<Rightarrow> mux_state" where
  "abort_task u st = st\<lparr>mx_tasks := (mx_tasks st)(u := None)\<rparr>"

definition end_session :: "u16 \<Rightarrow> mux_state \<Rightarrow> mux_state" where
  "end_session session_id st =
     (case mx_sessions st session_id of
        None \<Rightarrow> st
      | Some session \<Rightarrow>
          abort_task (session_upstream session) (st\<lparr>mx_sessions := (mx_sessions st)(session_id := None)\<rparr>))"

section \<open>The XUDP cone\<close>

definition is_xudp_frame :: "mux_meta \<Rightarrow> bool" where
  "is_xudp_frame meta \<longleftrightarrow> mm_session_id meta = XUDP_SESSION_ID \<and> mm_network meta = Some NETWORK_UDP"

definition mx_manager_op :: "(xudp_manager \<Rightarrow> ('a, io_kind) outcome \<times> xudp_manager) \<Rightarrow> 'a mux" where
  "mx_manager_op f st =
     (case f (mx_manager st) of (r, m) \<Rightarrow> (map_err MrIo r, st\<lparr>mx_manager := m\<rparr>))"

definition ensure_xudp_cone :: "mux_env \<Rightarrow> bytes option \<Rightarrow> unit mux" where
  "ensure_xudp_cone env global_id =
     io_bind (mx_get mx_cone) (\<lambda>cone.
     case cone of
       Some c \<Rightarrow>
         (case global_id of
            Some i \<Rightarrow> mx_update (\<lambda>st. st\<lparr>mx_cone := Some (c\<lparr>cn_global_id := Some i\<rparr>)\<rparr>)
          | None \<Rightarrow> io_lift (Ok ()))
     | None \<Rightarrow>
         io_bind
           (case global_id of
              Some i \<Rightarrow>
                io_bind (mx_manager_op (acquire_inner (me_bind env) i)) (\<lambda>(socket, hit). io_lift (Ok socket))
            | None \<Rightarrow> io_lift (map_err MrIo (me_bind env)))
           (\<lambda>socket.
         mx_update (\<lambda>st. st\<lparr>mx_cone := Some \<lparr>cn_global_id = global_id, cn_socket = socket, cn_reader = None\<rparr>\<rparr>)))"

definition start_xudp_reader_if_needed :: "unit mux" where
  "start_xudp_reader_if_needed =
     io_bind (mx_get mx_cone) (\<lambda>cone.
     case cone of
       None \<Rightarrow> io_lift (Err MrConeMissing)
     | Some c \<Rightarrow>
         if cn_reader c \<noteq> None then io_lift (Ok ())
         else
           io_bind fresh_upstream (\<lambda>task.
           io_bind
             (case cn_global_id c of
                Some i \<Rightarrow> mx_update (\<lambda>st. st\<lparr>mx_manager := register_reader_inner i task (mx_manager st)\<rparr>)
              | None \<Rightarrow> io_lift (Ok ()))
             (\<lambda>_.
           mx_update (\<lambda>st. st\<lparr>mx_cone := Some (c\<lparr>cn_reader := Some task\<rparr>)\<rparr>))))"

definition xudp_send :: "mux_env \<Rightarrow> mux_frame \<Rightarrow> endpoint \<Rightarrow> u64 mux" where
  "xudp_send env frame target =
     (case nonempty_payload frame of
        None \<Rightarrow> io_lift (Ok 0)
      | Some payload \<Rightarrow>
          io_bind (io_lift (map_err MrConnect (resolve_endpoint (me_net env) target (me_allow_private env)))) (\<lambda>addr.
          io_bind (mx_get mx_cone) (\<lambda>cone.
          case cone of
            None \<Rightarrow> io_lift (Err MrConeMissing)
          | Some c \<Rightarrow>
              io_bind (io_lift (map_err MrIo (me_send_to env (cn_socket c) addr payload))) (\<lambda>_.
              io_bind (mx_update (\<lambda>st. st\<lparr>mx_datagrams := mx_datagrams st @ [(cn_socket c, addr, payload)],
                  mx_contacted := mx_contacted st @ [addr]\<rparr>)) (\<lambda>_.
              io_lift (Ok (byte_count payload)))))))"

text \<open>Taking the cone: its reader is aborted and its global id detached.\<close>

definition close_cone :: "instant \<Rightarrow> mux_state \<Rightarrow> mux_state" where
  "close_cone now st =
     (case mx_cone st of
        None \<Rightarrow> st
      | Some c \<Rightarrow>
          st\<lparr>mx_cone := None,
             mx_manager := (case cn_global_id c of
                 Some i \<Rightarrow> detach_inner i now (mx_manager st) | None \<Rightarrow> mx_manager st)\<rparr>)"

definition handle_xudp_frame :: "mux_env \<Rightarrow> instant \<Rightarrow> mux_frame \<Rightarrow> u64 mux" where
  "handle_xudp_frame env now frame =
     (let meta = mf_meta frame; status = mm_status meta in
      if status = SESSION_STATUS_NEW then
        (case mm_target meta of
           None \<Rightarrow> io_lift (Err MrXudpNoTarget)
         | Some target \<Rightarrow>
             io_bind (ensure_xudp_cone env (mm_global_id meta)) (\<lambda>_.
             io_bind (xudp_send env frame target) (\<lambda>n.
             io_bind start_xudp_reader_if_needed (\<lambda>_. io_lift (Ok n)))))
      else if status = SESSION_STATUS_KEEP then
        (case mm_target meta of
           None \<Rightarrow> io_lift (Ok 0)
         | Some target \<Rightarrow>
             io_bind (mx_get mx_cone) (\<lambda>cone.
             io_bind (if cone = None then ensure_xudp_cone env None else io_lift (Ok ())) (\<lambda>_.
             io_bind (xudp_send env frame target) (\<lambda>n.
             io_bind start_xudp_reader_if_needed (\<lambda>_. io_lift (Ok n))))))
      else if status = SESSION_STATUS_END then
        io_bind (mx_update (close_cone now)) (\<lambda>_. io_lift (Ok 0))
      else if status = SESSION_STATUS_KEEP_ALIVE then io_lift (Ok 0)
      else io_lift (Err (MrUnknownXudpStatus status)))"

section \<open>One frame\<close>

record relay_bytes =
  rb_client_to_upstream :: u64
  rb_upstream_to_client :: u64

definition handle_mux_frame :: "mux_env \<Rightarrow> instant \<Rightarrow> mux_frame \<Rightarrow> relay_bytes mux" where
  "handle_mux_frame env now frame =
     (let meta = mf_meta frame; status = mm_status meta;
          counted = (\<lambda>n. io_lift (Ok \<lparr>rb_client_to_upstream = n, rb_upstream_to_client = 0\<rparr>)) in
      if is_xudp_frame meta then io_bind (handle_xudp_frame env now frame) counted
      else if status = SESSION_STATUS_NEW then
        (case mm_target meta of
           None \<Rightarrow> io_lift (Err MrNoTarget)
         | Some target \<Rightarrow>
             (let network = (case mm_network meta of Some n \<Rightarrow> n | None \<Rightarrow> NETWORK_TCP) in
              if network = NETWORK_TCP then io_bind (open_tcp_session env frame target) counted
              else if network = NETWORK_UDP then io_bind (open_udp_session env frame target) counted
              else io_bind (write_end env (mm_session_id meta)) (\<lambda>_. counted 0)))
      else if status = SESSION_STATUS_KEEP then io_bind (forward_keep_frame env frame) counted
      else if status = SESSION_STATUS_END then
        io_bind (mx_update (end_session (mm_session_id meta))) (\<lambda>_. counted 0)
      else if status = SESSION_STATUS_KEEP_ALIVE then counted 0
      else io_lift (Err (MrUnknownStatus status)))"

section \<open>Reading frames\<close>

definition read_mux_frame ::
  "(nat \<Rightarrow> ('s, bytes, io_kind) io) \<Rightarrow> ('s, mux_frame option, mux_relay_error) io" where
  "read_mux_frame rd s =
     (case rd 2 s of
        (Err e, s) \<Rightarrow> if e = UnexpectedEof then (Ok None, s) else (Err (MrIo e), s)
      | (Panic, s) \<Rightarrow> (Panic, s)
      | (Pending, s) \<Rightarrow> (Pending, s)
      | (Ok len_buf, s) \<Rightarrow>
          (let meta_len = be16_at len_buf 0 in
           if meta_len > MAX_META_LEN then (Err (MrFrame (MetaTooLarge meta_len)), s)
           else
             io_bind (io_map_err MrIo (rd meta_len)) (\<lambda>meta_body.
             io_bind (io_lift (map_err MrFrame (parse_meta_body meta_body))) (\<lambda>meta.
             if has_data meta then
               io_bind (io_map_err MrIo (rd 2)) (\<lambda>chunk_len_buf.
               let chunk_len = be16_at chunk_len_buf 0 in
               if chunk_len > MAX_CHUNK_SIZE then io_lift (Err (MrFrame (ChunkTooLarge chunk_len)))
               else
                 io_bind (if chunk_len > 0 then io_map_err MrIo (rd chunk_len) else io_lift (Ok []))
                   (\<lambda>payload. io_lift (Ok (Some \<lparr>mf_meta = meta, mf_payload = Some payload\<rparr>))))
             else io_lift (Ok (Some \<lparr>mf_meta = meta, mf_payload = None\<rparr>)))) s))"

section \<open>Reader tasks\<close>

text \<open>What ends a reader: it is gone, and its session id is removed from the table.\<close>

definition finish_reader :: "nat \<Rightarrow> u16 \<Rightarrow> mux_state \<Rightarrow> mux_state" where
  "finish_reader u session_id st =
     st\<lparr>mx_tasks := (mx_tasks st)(u := None), mx_sessions := (mx_sessions st)(session_id := None)\<rparr>"

text \<open>
  The readers. \<open>pump_lock\<close> takes the mutex before a read; \<open>pump_tcp\<close> and \<open>pump_udp\<close> are what
  follows when the read returns. The mutex is free again before the chunk is written.
\<close>

definition pump_lock :: "nat \<Rightarrow> mux_state \<Rightarrow> mux_state" where
  "pump_lock u st =
     (case mx_tasks st u of
        None \<Rightarrow> st
      | Some t \<Rightarrow> st\<lparr>mx_tasks := (mx_tasks st)(u \<mapsto> t\<lparr>rt_reading := True\<rparr>)\<rparr>)"

definition pump_unlock :: "nat \<Rightarrow> mux_state \<Rightarrow> mux_state" where
  "pump_unlock u st =
     (case mx_tasks st u of
        None \<Rightarrow> st
      | Some t \<Rightarrow> st\<lparr>mx_tasks := (mx_tasks st)(u \<mapsto> t\<lparr>rt_reading := False\<rparr>)\<rparr>)"

definition pump_tcp_upstream_to_client ::
  "mux_env \<Rightarrow> nat \<Rightarrow> u16 \<Rightarrow> (bytes, io_kind) outcome \<Rightarrow> mux_state \<Rightarrow> mux_state" where
  "pump_tcp_upstream_to_client env u session_id r st =
     (let st = pump_unlock u st in
      case r of
        Ok buf \<Rightarrow>
          if buf = [] then finish_reader u session_id (snd (write_end env session_id st))
          else (case write_data env session_id SESSION_STATUS_KEEP buf st of
              (Ok _, st) \<Rightarrow> st
            | (_, st) \<Rightarrow> finish_reader u session_id st)
      | _ \<Rightarrow> finish_reader u session_id st)"

definition pump_udp_upstream_to_client ::
  "mux_env \<Rightarrow> nat \<Rightarrow> u16 \<Rightarrow> (bytes, io_kind) outcome \<Rightarrow> mux_state \<Rightarrow> mux_state" where
  "pump_udp_upstream_to_client env u session_id r st =
     (let st = pump_unlock u st in
      case r of
        Ok buf \<Rightarrow>
          (case write_data env session_id SESSION_STATUS_KEEP buf st of
             (Ok _, st) \<Rightarrow> st
           | (_, st) \<Rightarrow> finish_reader u session_id (snd (write_end env session_id st)))
      | _ \<Rightarrow> finish_reader u session_id (snd (write_end env session_id st)))"

definition pump_step :: "mux_env \<Rightarrow> nat \<Rightarrow> (bytes, io_kind) outcome \<Rightarrow> mux_state \<Rightarrow> mux_state" where
  "pump_step env u r st =
     (case mx_tasks st u of
        None \<Rightarrow> st
      | Some t \<Rightarrow>
          if \<not> rt_reading t then st
          else if rt_udp t then pump_udp_upstream_to_client env u (rt_session t) r st
          else pump_tcp_upstream_to_client env u (rt_session t) r st)"

text \<open>The reader of the cone: one received datagram, with its source as the frame's target.\<close>

definition pump_xudp_upstream_to_client ::
  "mux_env \<Rightarrow> (bytes \<times> socket_addr, io_kind) outcome \<Rightarrow> unit mux" where
  "pump_xudp_upstream_to_client env r =
     (case r of
        Ok (buf, source) \<Rightarrow>
          (\<lambda>st. case write_mux_data env XUDP_SESSION_ID SESSION_STATUS_KEEP (Some (EpIp source)) buf st of
             (Ok _, st) \<Rightarrow> (Ok (), st)
           | (_, st) \<Rightarrow> write_end env XUDP_SESSION_ID st)
      | _ \<Rightarrow> write_end env XUDP_SESSION_ID)"

section \<open>The main loop\<close>

text \<open>
  What happens: a frame (or the end, or an error) is read from the client, a reader takes its
  mutex, a reader's read returns, or a timer fires.
\<close>

datatype mux_event =
    ClientFrame "(mux_frame option, mux_relay_error) outcome"
  | ReaderLocks nat
  | ReaderReads nat "(bytes, io_kind) outcome"
  | MuxIdle
  | MuxLifetime

record mux_main =
  mm_state :: mux_state
  mm_bytes :: relay_bytes
  mm_idle_deadline :: "instant option"
  mm_lifetime_deadline :: "instant option"
  mm_waiting :: "mux_frame option"

definition mux_main_init :: "relay_limits \<Rightarrow> instant \<Rightarrow> xudp_manager \<Rightarrow> mux_main" where
  "mux_main_init lim now manager =
     \<lparr>mm_state = \<lparr>mx_sessions = Map.empty, mx_cone = None, mx_manager = manager, mx_tasks = Map.empty,
         mx_next = 0, mx_contacted = [], mx_written = [], mx_upstream = [], mx_datagrams = []\<rparr>,
      mm_bytes = \<lparr>rb_client_to_upstream = 0, rb_upstream_to_client = 0\<rparr>,
      mm_idle_deadline = sleep_deadline now (case rl_idle lim of Some d \<Rightarrow> d | None \<Rightarrow> DURATION_MAX),
      mm_lifetime_deadline =
        sleep_deadline now (case rl_max_lifetime lim of Some d \<Rightarrow> d | None \<Rightarrow> DURATION_MAX),
      mm_waiting = None\<rparr>"

text \<open>
  After the client's end of stream: the readers of the sessions in the table are aborted, the
  table is emptied, the cone is closed.
\<close>

definition mux_cleanup :: "instant \<Rightarrow> mux_state \<Rightarrow> mux_state" where
  "mux_cleanup now st =
     close_cone now
       (st\<lparr>mx_sessions := Map.empty,
           mx_tasks := (\<lambda>u. case mx_tasks st u of
               None \<Rightarrow> None
             | Some t \<Rightarrow>
                 (case mx_sessions st (rt_session t) of
                    Some s \<Rightarrow> if session_upstream s = u then None else Some t
                  | None \<Rightarrow> Some t))\<rparr>)"

definition mux_reset_idle :: "relay_limits \<Rightarrow> instant \<Rightarrow> mux_main \<Rightarrow> (mux_main, mux_relay_error) outcome" where
  "mux_reset_idle lim now m =
     (case rl_idle lim of
        None \<Rightarrow> Ok m
      | Some idle \<Rightarrow> ebind (instant_add now idle) (\<lambda>t. Ok (m\<lparr>mm_idle_deadline := Some t\<rparr>)))"

text \<open>
  Handling the frame in hand; when it has to wait for a mutex the frame stays in hand. A turn
  gives the function's result, if it returns, and the new state.
\<close>

definition mux_try_frame ::
  "mux_env \<Rightarrow> instant \<Rightarrow> mux_frame \<Rightarrow> mux_main \<Rightarrow> (u64 \<times> u64, mux_relay_error) outcome option \<times> mux_main" where
  "mux_try_frame env now frame m =
     (case handle_mux_frame env now frame (mm_state m) of
        (Ok n, st) \<Rightarrow>
          (None, m\<lparr>mm_state := st, mm_waiting := None,
             mm_bytes := \<lparr>rb_client_to_upstream = rb_client_to_upstream (mm_bytes m) + rb_client_to_upstream n,
               rb_upstream_to_client = rb_upstream_to_client (mm_bytes m) + rb_upstream_to_client n\<rparr>\<rparr>)
      | (Err e, st) \<Rightarrow> (Some (Err e), m\<lparr>mm_state := st\<rparr>)
      | (Panic, st) \<Rightarrow> (Some Panic, m\<lparr>mm_state := st\<rparr>)
      | (Pending, st) \<Rightarrow> (None, m\<lparr>mm_waiting := Some frame\<rparr>))"

text \<open>
  One turn. A reader event is followed by another attempt at the frame in hand: the mutex is
  fair, so the main task gets it before the reader takes it again. While a frame is in hand the
  client and the timers are not polled.
\<close>

definition mux_retry ::
  "mux_env \<Rightarrow> instant \<Rightarrow> mux_main \<Rightarrow> (u64 \<times> u64, mux_relay_error) outcome option \<times> mux_main" where
  "mux_retry env now m = (case mm_waiting m of None \<Rightarrow> (None, m) | Some frame \<Rightarrow> mux_try_frame env now frame m)"

fun mux_turn ::
  "mux_env \<Rightarrow> relay_limits \<Rightarrow> instant \<Rightarrow> mux_event \<Rightarrow> mux_main \<Rightarrow>
     (u64 \<times> u64, mux_relay_error) outcome option \<times> mux_main" where
  "mux_turn env lim now (ReaderLocks u) m = (None, m\<lparr>mm_state := pump_lock u (mm_state m)\<rparr>)"
| "mux_turn env lim now (ReaderReads u r) m =
     mux_retry env now (m\<lparr>mm_state := pump_step env u r (mm_state m)\<rparr>)"
| "mux_turn env lim now (ClientFrame r) m =
     (if mm_waiting m \<noteq> None then (None, m)
      else case r of
          Ok None \<Rightarrow>
            (Some (Ok (rb_client_to_upstream (mm_bytes m), rb_upstream_to_client (mm_bytes m))),
             m\<lparr>mm_state := mux_cleanup now (mm_state m)\<rparr>)
        | Ok (Some frame) \<Rightarrow>
            (case mux_reset_idle lim now m of
               Ok m \<Rightarrow> mux_try_frame env now frame m
             | Err e \<Rightarrow> (Some (Err e), m)
             | Panic \<Rightarrow> (Some Panic, m)
             | Pending \<Rightarrow> (None, m))
        | Err e \<Rightarrow> (Some (Err e), m)
        | Panic \<Rightarrow> (Some Panic, m)
        | Pending \<Rightarrow> (None, m))"
| "mux_turn env lim now MuxIdle m =
     (if mm_waiting m = None \<and> rl_idle lim \<noteq> None \<and> elapsed now (mm_idle_deadline m)
      then (Some (Err MrIdleTimeout), m) else (None, m))"
| "mux_turn env lim now MuxLifetime m =
     (if mm_waiting m = None \<and> rl_max_lifetime lim \<noteq> None \<and> elapsed now (mm_lifetime_deadline m)
      then (Some (Err MrSessionLifetime), m) else (None, m))"

fun relay_vless_mux ::
  "mux_env \<Rightarrow> relay_limits \<Rightarrow> (instant \<times> mux_event) list \<Rightarrow> mux_main \<Rightarrow>
     (u64 \<times> u64, mux_relay_error) outcome \<times> mux_main" where
  "relay_vless_mux env lim [] m = (Pending, m)"
| "relay_vless_mux env lim ((now, ev) # evs) m =
     (case mux_turn env lim now ev m of
        (None, m') \<Rightarrow> relay_vless_mux env lim evs m'
      | (Some r, m') \<Rightarrow> (r, m'))"

section \<open>Reading agrees with the frame parser\<close>

lemma read_mux_frame_run:
  assumes "2 \<le> length (rx s)"
  shows "read_mux_frame flat_read s =
    (let m = be16_at (rx s) 0 in
     if 512 < m then (Err (MrFrame (MetaTooLarge m)), s\<lparr>rx := drop 2 (rx s)\<rparr>)
     else if length (rx s) < 2 + m then (short_read MrIo (rx_end s), s\<lparr>rx := []\<rparr>)
     else case parse_meta_body (take m (drop 2 (rx s))) of
         Ok meta \<Rightarrow>
           if has_data meta then
             if length (rx s) < 2 + m + 2 then (short_read MrIo (rx_end s), s\<lparr>rx := []\<rparr>)
             else let c = be16_at (rx s) (2 + m) in
               if 8192 < c then (Err (MrFrame (ChunkTooLarge c)), s\<lparr>rx := drop (2 + m + 2) (rx s)\<rparr>)
               else if length (rx s) < 2 + m + 2 + c then (short_read MrIo (rx_end s), s\<lparr>rx := []\<rparr>)
               else (Ok (Some \<lparr>mf_meta = meta, mf_payload = Some (take c (drop (2 + m + 2) (rx s)))\<rparr>),
                     s\<lparr>rx := drop (2 + m + 2 + c) (rx s)\<rparr>)
           else (Ok (Some \<lparr>mf_meta = meta, mf_payload = None\<rparr>), s\<lparr>rx := drop (2 + m) (rx s)\<rparr>)
       | Err e \<Rightarrow> (Err (MrFrame e), s\<lparr>rx := drop (2 + m) (rx s)\<rparr>)
       | Panic \<Rightarrow> (Panic, s\<lparr>rx := drop (2 + m) (rx s)\<rparr>)
       | Pending \<Rightarrow> (Pending, s\<lparr>rx := drop (2 + m) (rx s)\<rparr>))"
proof -
  define m where "m = be16_at (rx s) 0"
  define c where "c = be16_at (rx s) (2 + m)"
  have two: "flat_read 2 s = (Ok (take 2 (rx s)), s\<lparr>rx := drop 2 (rx s)\<rparr>)"
    using assms by (simp add: flat_read_def)
  have c: "be16_at (drop (2 + m) (rx s)) 0 = c" if "2 + m + 2 \<le> length (rx s)"
    using be16_at_skip [of "take (2 + m) (rx s)" "drop (2 + m) (rx s)"] that by (simp add: c_def)
  let ?s = "s\<lparr>rx := drop 2 (rx s)\<rparr>" and ?t = "s\<lparr>rx := drop (2 + m) (rx s)\<rparr>"
  have m: "be16_at (take 2 (rx s)) 0 = m" by (simp add: m_def)
  define body where "body = (\<lambda>meta.
    if has_data meta then
      io_bind (io_map_err MrIo (flat_read 2)) (\<lambda>chunk_len_buf.
      let chunk_len = be16_at chunk_len_buf 0 in
      if chunk_len > MAX_CHUNK_SIZE then io_lift (Err (MrFrame (ChunkTooLarge chunk_len)))
      else
        io_bind (if chunk_len > 0 then io_map_err MrIo (flat_read chunk_len) else io_lift (Ok []))
          (\<lambda>payload. io_lift (Ok (Some \<lparr>mf_meta = meta, mf_payload = Some payload\<rparr>))))
    else io_lift (Ok (Some \<lparr>mf_meta = meta, mf_payload = None\<rparr>)))"
  have body: "body meta ?t =
     (if has_data meta then
        if length (rx s) < 2 + m + 2 then (short_read MrIo (rx_end s), s\<lparr>rx := []\<rparr>)
        else
          if 8192 < c then (Err (MrFrame (ChunkTooLarge c)), s\<lparr>rx := drop (2 + m + 2) (rx s)\<rparr>)
          else if length (rx s) < 2 + m + 2 + c then (short_read MrIo (rx_end s), s\<lparr>rx := []\<rparr>)
          else (Ok (Some \<lparr>mf_meta = meta, mf_payload = Some (take c (drop (2 + m + 2) (rx s)))\<rparr>),
                s\<lparr>rx := drop (2 + m + 2 + c) (rx s)\<rparr>)
      else (Ok (Some \<lparr>mf_meta = meta, mf_payload = None\<rparr>), ?t))" if "2 + m \<le> length (rx s)" for meta
  proof (cases "has_data meta \<and> 2 + m + 2 \<le> length (rx s)")
    case True
    then have "be16_at (take 2 (drop (2 + m) (rx s))) 0 = c" using c by simp
    moreover have "2 \<le> length (rx s) - (2 + m)" using True by linarith
    ultimately show ?thesis
      using True by (cases "c = 0") (auto simp: body_def run_simps add_ac simp del: be16_at_take)
  next
    case False
    with that show ?thesis by (auto simp: body_def run_simps)
  qed
  have "read_mux_frame flat_read s =
     (if 512 < m then (Err (MrFrame (MetaTooLarge m)), ?s)
      else io_bind (io_map_err MrIo (flat_read m)) (\<lambda>meta_body.
             io_bind (io_lift (map_err MrFrame (parse_meta_body meta_body))) body) ?s)"
    by (simp add: read_mux_frame_def two m Let_def body_def del: be16_at_take)
  also have "\<dots> =
     (if 512 < m then (Err (MrFrame (MetaTooLarge m)), ?s)
      else if length (rx s) < 2 + m then (short_read MrIo (rx_end s), s\<lparr>rx := []\<rparr>)
      else case parse_meta_body (take m (drop 2 (rx s))) of
          Ok meta \<Rightarrow> body meta ?t
        | Err e \<Rightarrow> (Err (MrFrame e), ?t) | Panic \<Rightarrow> (Panic, ?t) | Pending \<Rightarrow> (Pending, ?t))"
    using assms by (auto simp: run_simps add_ac split: outcome.split)
  finally have run: "read_mux_frame flat_read s = \<dots>" .
  show ?thesis
  proof (cases "2 + m \<le> length (rx s)")
    case True
    show ?thesis unfolding run body [OF True] by (simp only: Let_def m_def c_def)
  next
    case False
    then show ?thesis unfolding run by (simp add: Let_def m_def)
  qed
qed

lemma read_mux_frame_Some:
  "read_mux_frame flat_read s = (Ok (Some f), t) \<longleftrightarrow>
     (\<exists>n. parse_frame (rx s) = Ok (f, n) \<and> t = s\<lparr>rx := drop n (rx s)\<rparr>)"
proof (cases "2 \<le> length (rx s)")
  case True
  then show ?thesis
    by (cases f; cases "parse_meta_body (take (be16_at (rx s) 0) (drop 2 (rx s)))")
      (auto simp: read_mux_frame_run parse_frame_Ok Let_def)
next
  case False
  then show ?thesis
    by (auto simp: read_mux_frame_def parse_frame_Ok Let_def flat_read_def split: rx_end.splits)
qed

lemma read_mux_frame_None:
  "read_mux_frame flat_read s = (Ok None, t) \<longleftrightarrow>
     length (rx s) < 2 \<and> (rx_end s = Closed \<or> rx_end s = Failed UnexpectedEof) \<and> t = s\<lparr>rx := []\<rparr>"
proof (cases "2 \<le> length (rx s)")
  case True
  then show ?thesis
    by (cases "parse_meta_body (take (be16_at (rx s) 0) (drop 2 (rx s)))")
      (auto simp: read_mux_frame_run Let_def)
next
  case False
  then show ?thesis
    by (auto simp: read_mux_frame_def flat_read_def split: rx_end.splits)
qed

section \<open>Sessions do not touch each other\<close>

text \<open>Whose upstream it is.\<close>

definition owns :: "mux_state \<Rightarrow> u16 \<Rightarrow> nat \<Rightarrow> bool" where
  "owns st i u \<longleftrightarrow> (\<exists>s. mx_sessions st i = Some s \<and> session_upstream s = u)"

definition mux_inv :: "mux_state \<Rightarrow> bool" where
  "mux_inv st \<longleftrightarrow>
     (\<forall>i u. owns st i u \<longrightarrow> u < mx_next st) \<and>
     (\<forall>i j u. owns st i u \<and> owns st j u \<longrightarrow> i = j) \<and>
     (\<forall>u t. mx_tasks st u = Some t \<longrightarrow> u < mx_next st)"

text \<open>What a step on behalf of session \<open>i\<close> may change.\<close>

definition only :: "u16 \<Rightarrow> mux_state \<Rightarrow> mux_state \<Rightarrow> bool" where
  "only i st st' \<longleftrightarrow>
     mx_next st \<le> mx_next st' \<and>
     (\<forall>j. j \<noteq> i \<longrightarrow> mx_sessions st' j = mx_sessions st j) \<and>
     (\<forall>u. owns st' i u \<longrightarrow> owns st i u \<or> mx_next st \<le> u \<and> u < mx_next st') \<and>
     (\<forall>u. \<not> owns st i u \<and> u < mx_next st \<longrightarrow> mx_tasks st' u = mx_tasks st u) \<and>
     (\<forall>u t. mx_next st' \<le> u \<and> mx_tasks st' u = Some t \<longrightarrow> mx_tasks st u = Some t) \<and>
     (\<exists>new. mx_upstream st' = mx_upstream st @ new \<and>
        (\<forall>x \<in> set new. owns st i (fst x) \<or> mx_next st \<le> fst x))"

lemma only_same:
  "mx_sessions st' = mx_sessions st \<Longrightarrow> mx_tasks st' = mx_tasks st \<Longrightarrow> mx_next st' = mx_next st \<Longrightarrow>
     mx_upstream st' = mx_upstream st \<Longrightarrow> only i st st'"
  by (simp add: only_def owns_def)

lemma only_owns: "only i st st' \<Longrightarrow> j \<noteq> i \<Longrightarrow> owns st' j u = owns st j u"
  by (simp add: only_def owns_def)

lemma only_inv:
  assumes "only i st st'" and "mux_inv st"
  shows "mux_inv st'"
  unfolding mux_inv_def
proof (intro conjI allI impI)
  show "u < mx_next st'" if "owns st' j u" for j u
    using that assms only_owns [OF assms(1), of j u] unfolding mux_inv_def only_def by (metis less_le_trans)
  show "u < mx_next st'" if "mx_tasks st' u = Some t" for u t
    using that assms unfolding mux_inv_def only_def by (metis le_less_linear less_le_trans)
  have "j = i" if "owns st' i u" "owns st' j u" for j u
  proof (rule ccontr)
    assume "j \<noteq> i"
    with that(2) have j: "owns st j u" using only_owns [OF assms(1)] by blast
    then have "u < mx_next st" using assms(2) by (simp add: mux_inv_def)
    with that(1) assms(1) have "owns st i u" unfolding only_def by (metis leD)
    with j assms(2) \<open>j \<noteq> i\<close> show False unfolding mux_inv_def by blast
  qed
  then show "j = k" if "owns st' j u \<and> owns st' k u" for j k u
    using that assms only_owns [OF assms(1)] unfolding mux_inv_def by metis
qed

lemma write_frame_cases:
  "write_frame env frame st =
     (case me_client_write env frame of
        Ok _ \<Rightarrow> (Ok (), st\<lparr>mx_written := mx_written st @ [frame]\<rparr>)
      | Err e \<Rightarrow> (Err (MrIo e), st) | Panic \<Rightarrow> (Panic, st) | Pending \<Rightarrow> (Pending, st))"
  by (cases "me_client_write env frame") (simp_all add: write_frame_def run_simps mx_update_def)

lemma upstream_write_cases:
  "upstream_write env u p st =
     (case me_upstream_write env u p of
        Ok _ \<Rightarrow> (Ok (), st\<lparr>mx_upstream := mx_upstream st @ [(u, p)]\<rparr>)
      | Err e \<Rightarrow> (Err (MrIo e), st) | Panic \<Rightarrow> (Panic, st) | Pending \<Rightarrow> (Pending, st))"
  by (cases "me_upstream_write env u p") (simp_all add: upstream_write_def run_simps mx_update_def)

text \<open>Reasoning along the code about what a step on behalf of a session changes.\<close>

definition keeps :: "(mux_state \<Rightarrow> mux_state \<Rightarrow> bool) \<Rightarrow> 'a mux \<Rightarrow> bool" where
  "keeps R m \<longleftrightarrow> (\<forall>st. R st (snd (m st)))"

lemma keepsD: "keeps R m \<Longrightarrow> m st = (r, st') \<Longrightarrow> R st st'"
  unfolding keeps_def by (metis snd_conv)

lemma keeps_bind:
  assumes "keeps R m" and "\<And>x. keeps R (f x)" and "transp R"
  shows "keeps R (io_bind m f)"
  unfolding keeps_def
proof
  fix st
  obtain r st1 where m: "m st = (r, st1)" by (cases "m st")
  have one: "R st st1" using keepsD [OF assms(1) m] .
  show "R st (snd (io_bind m f st))"
  proof (cases r)
    case (Ok x)
    have "R st1 (snd (f x st1))" using assms(2) by (simp add: keeps_def)
    with one m Ok show ?thesis using transpD [OF assms(3)] by simp
  qed (use m one in simp_all)
qed

lemma transp_only: "transp (only i)"
proof (rule transpI)
  fix a b c
  assume 1: "only i a b" and 2: "only i b c"
  show "only i a c"
    unfolding only_def
  proof (intro conjI allI impI)
    show "mx_next a \<le> mx_next c" using 1 2 by (auto simp: only_def)
    show "mx_sessions c j = mx_sessions a j" if "j \<noteq> i" for j using that 1 2 by (simp add: only_def)
    show "owns a i u \<or> mx_next a \<le> u \<and> u < mx_next c" if "owns c i u" for u
      using that 1 2 unfolding only_def by (metis le_trans less_le_trans)
    show "mx_tasks c u = mx_tasks a u" if "\<not> owns a i u \<and> u < mx_next a" for u
      using that 1 2 unfolding only_def by (metis leD less_le_trans)
    show "mx_tasks a u = Some t" if "mx_next c \<le> u \<and> mx_tasks c u = Some t" for u t
      using that 1 2 unfolding only_def by (metis le_trans)
    obtain n1 where n1: "mx_upstream b = mx_upstream a @ n1" "\<forall>x \<in> set n1. owns a i (fst x) \<or> mx_next a \<le> fst x"
      using 1 unfolding only_def by blast
    obtain n2 where n2: "mx_upstream c = mx_upstream b @ n2" "\<forall>x \<in> set n2. owns b i (fst x) \<or> mx_next b \<le> fst x"
      using 2 unfolding only_def by blast
    have "owns a i u \<or> mx_next a \<le> u" if "owns b i u \<or> mx_next b \<le> u" for u
      using that 1 unfolding only_def by (metis le_trans)
    with n1 n2 show "\<exists>new. mx_upstream c = mx_upstream a @ new \<and>
        (\<forall>x \<in> set new. owns a i (fst x) \<or> mx_next a \<le> fst x)"
      by (intro exI [of _ "n1 @ n2"]) auto
  qed
qed

lemmas keeps_only_bind = keeps_bind [OF _ _ transp_only]

lemma keeps_only_quiet:
  assumes "\<And>st. mx_sessions (snd (m st)) = mx_sessions st \<and> mx_tasks (snd (m st)) = mx_tasks st \<and>
    mx_next (snd (m st)) = mx_next st \<and> mx_upstream (snd (m st)) = mx_upstream st"
  shows "keeps (only i) m"
  unfolding keeps_def using assms only_same by blast

named_theorems only_rules \<open>computations on behalf of a session\<close>

lemma only_lift [only_rules]: "keeps (only i) (io_lift r)"
  by (rule keeps_only_quiet) (simp add: io_lift_def)

lemma only_get [only_rules]: "keeps (only i) (mx_get f)"
  by (rule keeps_only_quiet) (simp add: mx_get_def)

lemma only_net [only_rules]: "keeps (only i) (mx_net m)"
  by (rule keeps_only_quiet) (simp add: mx_net_def split: prod.split)

lemma only_write_frame [only_rules]: "keeps (only i) (write_frame env frame)"
  by (rule keeps_only_quiet) (simp add: write_frame_cases split: outcome.split)

lemma only_write_end [only_rules]: "keeps (only i) (write_end env j)"
  unfolding write_end_def by (rule only_rules)

lemma only_manager [only_rules]: "keeps (only i) (mx_manager_op f)"
  by (rule keeps_only_quiet) (simp add: mx_manager_op_def split: prod.split)

lemma only_fresh [only_rules]: "keeps (only i) fresh_upstream"
  by (auto simp: keeps_def fresh_upstream_def only_def owns_def)

lemma only_end_session [only_rules]: "keeps (only i) (mx_update (end_session i))"
  by (auto simp: keeps_def mx_update_def end_session_def abort_task_def only_def owns_def split: option.split)

text \<open>Opening: the upstream number is fresh.\<close>

lemma only_open [only_rules]:
  assumes "\<And>u st. snd (w u st) = st \<or> (\<exists>p. snd (w u st) = st\<lparr>mx_upstream := mx_upstream st @ [(u, p)]\<rparr>)"
    and "\<And>u. session_upstream (session u) = u"
  shows "keeps (only i) (io_bind fresh_upstream (\<lambda>u. io_bind (w u) (\<lambda>n.
     io_bind (mx_update (start_session i (session u) udp)) (\<lambda>_. io_lift (Ok n)))))"
  unfolding keeps_def
proof
  fix st :: mux_state
  let ?st = "st\<lparr>mx_next := mx_next st + 1\<rparr>" and ?u = "mx_next st"
  obtain r st1 where w: "w ?u ?st = (r, st1)" by (cases "w ?u ?st")
  then have st1: "st1 = ?st \<or> (\<exists>p. st1 = ?st\<lparr>mx_upstream := mx_upstream st @ [(?u, p)]\<rparr>)"
    using assms(1) [of ?u ?st] by simp
  show "only i st (snd (io_bind fresh_upstream (\<lambda>u. io_bind (w u) (\<lambda>n.
     io_bind (mx_update (start_session i (session u) udp)) (\<lambda>_. io_lift (Ok n)))) st))"
    using st1 w assms(2) [of ?u]
    by (cases r) (auto simp: fresh_upstream_def mx_update_def io_lift_def io_bind_def start_session_def
        only_def owns_def)
qed

lemma only_forward [only_rules]: "keeps (only (mm_session_id (mf_meta frame))) (forward_keep_frame env frame)"
  unfolding keeps_def
proof
  fix st
  let ?i = "mm_session_id (mf_meta frame)"
  show "only ?i st (snd (forward_keep_frame env frame st))"
  proof (cases "mx_sessions st ?i")
    case None
    then have "forward_keep_frame env frame st = io_bind (write_end env ?i) (\<lambda>_. io_lift (Ok 0)) st"
      by (simp add: forward_keep_frame_def Let_def io_bind_def mx_get_def)
    moreover have "keeps (only ?i) (io_bind (write_end env ?i) (\<lambda>_. io_lift (Ok 0)))"
      by (intro keeps_only_bind only_rules)
    ultimately show ?thesis unfolding keeps_def by metis
  next
    case (Some session)
    then have "owns st ?i (session_upstream session)" by (simp add: owns_def)
    with Some show ?thesis
      by (auto simp: forward_keep_frame_def Let_def io_bind_def mx_get_def io_lift_def lock_upstream_def
          upstream_write_cases only_def owns_def split: option.splits outcome.splits)
  qed
qed

lemma only_open_tcp [only_rules]: "keeps (only (mm_session_id (mf_meta frame))) (open_tcp_session env frame target)"
  unfolding open_tcp_session_def
proof (rule keeps_only_bind [OF only_net only_open])
  fix u st
  show "snd ((case mf_payload frame of
          Some payload \<Rightarrow> io_bind (upstream_write env u payload) (\<lambda>_. io_lift (Ok (byte_count payload)))
        | None \<Rightarrow> io_lift (Ok 0)) st) = st \<or>
      (\<exists>p. snd ((case mf_payload frame of
          Some payload \<Rightarrow> io_bind (upstream_write env u payload) (\<lambda>_. io_lift (Ok (byte_count payload)))
        | None \<Rightarrow> io_lift (Ok 0)) st) = st\<lparr>mx_upstream := mx_upstream st @ [(u, p)]\<rparr>)"
    by (auto simp: io_lift_def io_bind_def upstream_write_cases split: option.splits outcome.splits)
qed simp

lemma only_open_udp [only_rules]: "keeps (only (mm_session_id (mf_meta frame))) (open_udp_session env frame target)"
  unfolding open_udp_session_def
proof (rule keeps_only_bind [OF only_net only_open])
  fix u st
  let ?w = "case mf_payload frame of
          Some payload \<Rightarrow>
            if payload \<noteq> [] then
              io_bind (upstream_write env u payload) (\<lambda>_. io_lift (Ok (byte_count payload)))
            else io_lift (Ok 0)
        | None \<Rightarrow> io_lift (Ok 0)"
  show "snd (?w st) = st \<or> (\<exists>p. snd (?w st) = st\<lparr>mx_upstream := mx_upstream st @ [(u, p)]\<rparr>)"
    by (auto simp: io_lift_def io_bind_def upstream_write_cases split: option.splits outcome.splits)
qed simp

lemma only_cone [only_rules]: "keeps (only i) (mx_update (\<lambda>st. st\<lparr>mx_cone := f st\<rparr>))"
  "keeps (only i) (mx_update (\<lambda>st. st\<lparr>mx_manager := g st\<rparr>))"
  "keeps (only i) (mx_update (\<lambda>st. st\<lparr>mx_datagrams := h st, mx_contacted := k st\<rparr>))"
  "keeps (only i) (mx_update (close_cone now))"
  by (rule keeps_only_quiet, simp add: mx_update_def close_cone_def split: option.split)+

lemma only_case_option [only_rules]:
  "keeps R m \<Longrightarrow> (\<And>x. keeps R (f x)) \<Longrightarrow> keeps R (case opt of None \<Rightarrow> m | Some x \<Rightarrow> f x)"
  "keeps R m \<Longrightarrow> keeps R n \<Longrightarrow> keeps R (if b then m else n)"
  "(\<And>a b. keeps R (g a b)) \<Longrightarrow> keeps R (case p of (a, b) \<Rightarrow> g a b)"
  by (auto split: option.split prod.split)

lemma only_xudp [only_rules]: "keeps (only i) (handle_xudp_frame env now frame)"
  unfolding handle_xudp_frame_def ensure_xudp_cone_def start_xudp_reader_if_needed_def xudp_send_def Let_def
  by (intro keeps_only_bind only_rules)

lemma only_handle: "keeps (only (mm_session_id (mf_meta frame))) (handle_mux_frame env now frame)"
  unfolding handle_mux_frame_def Let_def
  by (intro keeps_only_bind only_rules)

section \<open>Contacted addresses\<close>

definition contacts_more :: "mux_env \<Rightarrow> mux_state \<Rightarrow> mux_state \<Rightarrow> bool" where
  "contacts_more env st st' \<longleftrightarrow>
     (\<exists>more. mx_contacted st' = mx_contacted st @ more \<and>
        list_all (\<lambda>a. allows_private (me_tcp env) \<or> me_allow_private env \<or> \<not> is_forbidden_ip (sock_ip a)) more)"

lemma transp_contacts: "transp (contacts_more env)"
  by (rule transpI) (auto simp: contacts_more_def)

lemmas keeps_contacts_bind = keeps_bind [OF _ _ transp_contacts]

lemma contacts_more_same: "mx_contacted st' = mx_contacted st \<Longrightarrow> contacts_more env st st'"
  by (simp add: contacts_more_def)

lemma keeps_contacts_quiet:
  "(\<And>st. mx_contacted (snd (m st)) = mx_contacted st) \<Longrightarrow> keeps (contacts_more env) m"
  unfolding keeps_def using contacts_more_same by blast

lemma contacts_of_net:
  assumes "contacts_only (permitted p) m" and "p \<Longrightarrow> allows_private (me_tcp env) \<or> me_allow_private env"
  shows "keeps (contacts_more env) (mx_net m)"
  unfolding keeps_def
proof
  fix st :: mux_state
  obtain more where "snd (m (mx_contacted st)) = mx_contacted st @ more" "list_all (permitted p) more"
    using assms(1) unfolding contacts_only_def by blast
  then show "contacts_more env st (snd (mx_net m st))"
    using assms(2) by (auto simp: contacts_more_def mx_net_def permitted_def list_all_iff split: prod.split)
qed

named_theorems contacts_more_rules \<open>computations that contact permitted addresses only\<close>

lemma contacts_quiet [contacts_more_rules]:
  "keeps (contacts_more env) (io_lift r)" "keeps (contacts_more env) (mx_get f)"
  "keeps (contacts_more env) (write_frame env' frame)" "keeps (contacts_more env) (mx_manager_op g)"
  "keeps (contacts_more env) fresh_upstream" "keeps (contacts_more env) (mx_update (end_session i))"
  "keeps (contacts_more env) (mx_update (start_session i s b))"
  "keeps (contacts_more env) (upstream_write env' u p)" "keeps (contacts_more env) (lock_upstream u)"
  "keeps (contacts_more env) (mx_update (\<lambda>st. st\<lparr>mx_cone := h st\<rparr>))"
  "keeps (contacts_more env) (mx_update (\<lambda>st. st\<lparr>mx_manager := k st\<rparr>))"
  "keeps (contacts_more env) (mx_update (close_cone now))"
  by (rule keeps_contacts_quiet,
      simp add: io_lift_def mx_get_def write_frame_cases mx_manager_op_def fresh_upstream_def mx_update_def
        end_session_def abort_task_def start_session_def upstream_write_cases lock_upstream_def close_cone_def
        split: outcome.split option.split prod.split)+

lemma contacts_tcp [contacts_more_rules]:
  "keeps (contacts_more env) (mx_net (outbound_connect (me_net env) (me_tcp env) target))"
  by (rule contacts_of_net [OF outbound_connect_contacts]) simp

lemma contacts_udp [contacts_more_rules]:
  "keeps (contacts_more env) (mx_net (udp_connect (me_net env) (me_allow_private env) target))"
  by (rule contacts_of_net [OF udp_connect_contacts]) simp

lemma contacts_xudp_send [contacts_more_rules]: "keeps (contacts_more env) (xudp_send env frame target)"
  unfolding keeps_def
  by (auto simp: xudp_send_def contacts_more_def io_bind_def io_lift_def mx_get_def mx_update_def permitted_def
      map_err_eq_Err_conv dest: resolve_endpoint_permitted split: option.splits outcome.splits)

lemma contacts_handle: "keeps (contacts_more env) (handle_mux_frame env now frame)"
  unfolding handle_mux_frame_def Let_def handle_xudp_frame_def ensure_xudp_cone_def
    start_xudp_reader_if_needed_def open_tcp_session_def open_udp_session_def forward_keep_frame_def write_end_def
  by (intro keeps_contacts_bind contacts_more_rules only_case_option)

section \<open>Whole runs\<close>

definition mux_safe :: "mux_env \<Rightarrow> mux_main \<Rightarrow> bool" where
  "mux_safe env m \<longleftrightarrow>
     mux_inv (mm_state m) \<and>
     list_all (\<lambda>a. allows_private (me_tcp env) \<or> me_allow_private env \<or> \<not> is_forbidden_ip (sock_ip a))
       (mx_contacted (mm_state m)) \<and>
     rb_upstream_to_client (mm_bytes m) = 0"

lemma mux_safe_init: "mux_safe env (mux_main_init lim now manager)"
  by (simp add: mux_safe_def mux_main_init_def mux_inv_def owns_def)

lemma mux_inv_shrink:
  assumes "mux_inv st" and "mx_next st' = mx_next st"
    and "\<And>i s. mx_sessions st' i = Some s \<Longrightarrow> mx_sessions st i = Some s"
    and "\<And>u t. mx_tasks st' u = Some t \<Longrightarrow> mx_tasks st u \<noteq> None"
  shows "mux_inv st'"
proof -
  have "owns st' i u \<Longrightarrow> owns st i u" for i u using assms(3) by (auto simp: owns_def)
  then show ?thesis using assms(1,2,4) unfolding mux_inv_def by (metis option.exhaust)
qed

text \<open>Reader steps write to the client and forget sessions and tasks, nothing else.\<close>

definition reader_only :: "mux_state \<Rightarrow> mux_state \<Rightarrow> bool" where
  "reader_only st st' \<longleftrightarrow>
     mx_next st' = mx_next st \<and> mx_contacted st' = mx_contacted st \<and> mx_upstream st' = mx_upstream st \<and>
     (\<forall>i s. mx_sessions st' i = Some s \<longrightarrow> mx_sessions st i = Some s) \<and>
     (\<forall>u t. mx_tasks st' u = Some t \<longrightarrow> mx_tasks st u \<noteq> None)"

lemma reader_only_trans: "reader_only a b \<Longrightarrow> reader_only b c \<Longrightarrow> reader_only a c"
  unfolding reader_only_def by (metis option.exhaust)

lemma reader_only_write: "reader_only st (snd (write_frame env f st))"
  by (simp add: reader_only_def write_frame_cases split: outcome.split)

lemma reader_only_finish: "reader_only st (finish_reader u i st)"
  by (simp add: reader_only_def finish_reader_def)

lemma reader_only_lock: "reader_only st (pump_lock u st)" "reader_only st (pump_unlock u st)"
  by (auto simp: reader_only_def pump_lock_def pump_unlock_def split: option.split if_split_asm)

lemma write_data_step:
  "write_data env i status p st = (r, st') \<Longrightarrow> reader_only st st'"
  using reader_only_write [of st env]
  by (auto simp: write_data_def write_mux_data_def Let_def io_bind_def io_lift_def reader_only_def
      encode_data_frame_def split: if_split_asm) (metis snd_conv)+

lemma reader_only_end: "reader_only st (finish_reader u i (snd (write_end env j st)))"
  unfolding write_end_def by (rule reader_only_trans [OF reader_only_write reader_only_finish])

lemma reader_only_tcp: "reader_only st (pump_tcp_upstream_to_client env u i r st)"
proof -
  let ?st = "pump_unlock u st"
  note unlock = reader_only_trans [OF reader_only_lock(2) [of st u]]
  obtain w st1 where w: "write_data env i SESSION_STATUS_KEEP (case r of Ok buf \<Rightarrow> buf | _ \<Rightarrow> []) ?st = (w, st1)"
    by (cases "write_data env i SESSION_STATUS_KEEP (case r of Ok buf \<Rightarrow> buf | _ \<Rightarrow> []) ?st")
  note wrote = unlock [OF write_data_step [OF w]]
  note finished = reader_only_trans [OF wrote reader_only_finish] unlock [OF reader_only_finish] unlock [OF reader_only_end]
  show ?thesis
  proof (cases r)
    case (Ok buf)
    with w show ?thesis
      by (cases w) (simp_all add: pump_tcp_upstream_to_client_def Let_def wrote finished)
  qed (simp_all add: pump_tcp_upstream_to_client_def Let_def finished)
qed

lemma reader_only_udp: "reader_only st (pump_udp_upstream_to_client env u i r st)"
proof -
  let ?st = "pump_unlock u st"
  note unlock = reader_only_trans [OF reader_only_lock(2) [of st u]]
  obtain w st1 where w: "write_data env i SESSION_STATUS_KEEP (case r of Ok buf \<Rightarrow> buf | _ \<Rightarrow> []) ?st = (w, st1)"
    by (cases "write_data env i SESSION_STATUS_KEEP (case r of Ok buf \<Rightarrow> buf | _ \<Rightarrow> []) ?st")
  note wrote = unlock [OF write_data_step [OF w]]
  note finished = reader_only_trans [OF wrote reader_only_end] unlock [OF reader_only_end]
  show ?thesis
  proof (cases r)
    case (Ok buf)
    with w show ?thesis
      by (cases w) (simp_all add: pump_udp_upstream_to_client_def Let_def wrote finished)
  qed (simp_all add: pump_udp_upstream_to_client_def Let_def finished)
qed

lemma reader_only_refl: "reader_only st st"
  by (simp add: reader_only_def)

lemma reader_only_pump: "reader_only st (pump_step env u r st)"
  by (simp add: pump_step_def reader_only_refl reader_only_tcp reader_only_udp split: option.split)

lemma mux_safe_reader:
  assumes "mux_safe env m" and "reader_only (mm_state m) st"
  shows "mux_safe env (m\<lparr>mm_state := st\<rparr>)"
  using assms mux_inv_shrink [of "mm_state m" st] unfolding mux_safe_def reader_only_def by auto

lemma mux_safe_try:
  assumes "mux_safe env m"
  shows "mux_safe env (snd (mux_try_frame env now frame m))"
proof -
  obtain r st where h: "handle_mux_frame env now frame (mm_state m) = (r, st)"
    by (cases "handle_mux_frame env now frame (mm_state m)")
  note step = only_inv [OF keepsD [OF only_handle h]] keepsD [OF contacts_handle h]
  have safe: "mux_safe env (m\<lparr>mm_state := st\<rparr>)"
    using assms step by (auto simp: mux_safe_def contacts_more_def)
  have zero: "rb_upstream_to_client n = 0" if "r = Ok n" for n
    using h that
    by (auto simp: handle_mux_frame_def Let_def io_bind_Ok split: if_split_asm option.splits)
  show ?thesis
    using safe zero assms h by (cases r) (simp_all add: mux_try_frame_def mux_safe_def)
qed

lemma mux_safe_fields:
  "mux_safe env m \<Longrightarrow> mm_state m' = mm_state m \<Longrightarrow> mm_bytes m' = mm_bytes m \<Longrightarrow> mux_safe env m'"
  by (simp add: mux_safe_def)

lemma mux_safe_cleanup:
  assumes "mux_safe env m"
  shows "mux_safe env (m\<lparr>mm_state := mux_cleanup now (mm_state m)\<rparr>)"
proof -
  have "mux_inv (mux_cleanup now (mm_state m))"
    by (rule mux_inv_shrink [of "mm_state m"])
      (use assms in \<open>auto simp: mux_safe_def mux_cleanup_def close_cone_def split: option.splits\<close>)
  with assms show ?thesis by (simp add: mux_safe_def mux_cleanup_def close_cone_def split: option.split)
qed

lemma mux_safe_turn:
  assumes "mux_safe env m"
  shows "mux_safe env (snd (mux_turn env lim now ev m))"
proof (cases ev)
  case (ReaderLocks u)
  with assms show ?thesis by (simp add: mux_safe_reader reader_only_lock)
next
  case (ReaderReads u r)
  have "mux_safe env (m\<lparr>mm_state := pump_step env u r (mm_state m)\<rparr>)"
    using assms by (simp add: mux_safe_reader reader_only_pump)
  with ReaderReads show ?thesis by (simp add: mux_retry_def mux_safe_try split: option.split)
next
  case (ClientFrame r)
  have reset: "mux_safe env m'" if "mux_reset_idle lim now m = Ok m'" for m'
    using that assms
    by (auto simp: mux_reset_idle_def ebind_eq_Ok_conv split: option.splits intro: mux_safe_fields [OF assms])
  show ?thesis
    using ClientFrame assms reset
    by (auto simp: mux_safe_try mux_safe_cleanup split: outcome.splits option.splits)
qed (use assms in simp_all)

lemma mux_safe_run: "mux_safe env m \<Longrightarrow> mux_safe env (snd (relay_vless_mux env lim evs m))"
proof (induction env lim evs m rule: relay_vless_mux.induct)
  case (2 env lim now ev evs m)
  then show ?case
    using mux_safe_turn [of env m lim now ev]
    by (cases "mux_turn env lim now ev m"; cases "fst (mux_turn env lim now ev m)") auto
qed simp

section \<open>Behaviours of the readers\<close>

text \<open>A datagram larger than a chunk ends its session.\<close>

lemma large_datagram_ends_session:
  assumes "mx_tasks st u = Some t" and "rt_reading t" and "rt_udp t" and "8192 < length buf"
  shows "mx_sessions (pump_step env u (Ok buf) st) (rt_session t) = None \<and>
    mx_tasks (pump_step env u (Ok buf) st) u = None"
  using assms
  by (simp add: pump_step_def pump_udp_upstream_to_client_def Let_def write_data_def write_mux_data_def
      encode_data_frame_def run_simps finish_reader_def)

text \<open>A timeout returns with every reader still running.\<close>

lemma timeout_leaves_readers:
  assumes "mm_waiting m = None" and "rl_idle lim \<noteq> None" and "elapsed now (mm_idle_deadline m)"
  shows "relay_vless_mux env lim ((now, MuxIdle) # evs) m = (Err MrIdleTimeout, m)"
  using assms by simp

text \<open>
  A second global id replaces the first in an open cone: closing the cone then detaches the second
  id, and the entry of the first stays active.
\<close>

lemma cone_id_replaced:
  assumes "mx_cone st = Some c" and "cn_global_id c = Some i" and "i \<noteq> j"
    and "entry_of (mx_manager st) i = Some e"
  shows "case ensure_xudp_cone env (Some j) st of (r, st1) \<Rightarrow>
    r = Ok () \<and> entry_of (mx_manager (close_cone now st1)) i = Some e"
  using assms
  by (simp add: ensure_xudp_cone_def io_bind_def mx_get_def mx_update_def close_cone_def entry_detach)






text \<open>An environment in which every call succeeds.\<close>

definition calm_env :: mux_env where
  "calm_env = \<lparr>me_net = calm_net, me_tcp = OutPlain True, me_allow_private = True,
     me_client_write = (\<lambda>_. Ok ()), me_upstream_write = (\<lambda>_ _. Ok ()), me_send_to = (\<lambda>_ _ _. Ok ()),
     me_bind = Ok 0\<rparr>"

section \<open>Properties\<close>

text \<open>Reading a frame from the client agrees with the frame parser: a frame is returned exactly when
  the bytes that arrived begin with one, and exactly its bytes are consumed; the end of the
  connection is reported only when the stream ends with less than a length field.\<close>
lemma mux_reads_frames:
  "(read_mux_frame flat_read s = (Ok (Some f), t) \<longleftrightarrow>
      (\<exists>n. parse_frame (rx s) = Ok (f, n) \<and> t = s\<lparr>rx := drop n (rx s)\<rparr>)) \<and>
   (read_mux_frame flat_read s = (Ok None, t) \<longleftrightarrow>
      length (rx s) < 2 \<and> (rx_end s = Closed \<or> rx_end s = Failed UnexpectedEof) \<and> t = s\<lparr>rx := []\<rparr>)"
  using read_mux_frame_Some read_mux_frame_None by blast

text \<open>C5: sessions are isolated: handling a frame, whatever it is and however it ends, leaves the table
  entry, the reader and the upstream bytes of every other session as they were, and keeps the
  assignment of upstreams to sessions one-to-one.\<close>
theorem mux_sessions_isolated:
  assumes "mux_inv st" and "handle_mux_frame env now f st = (r, st')" and "j \<noteq> mm_session_id (mf_meta f)"
    and "mx_sessions st j = Some s"
  shows "mux_inv st' \<and> mx_sessions st' j = Some s \<and>
    mx_tasks st' (session_upstream s) = mx_tasks st (session_upstream s) \<and>
    filter (\<lambda>x. fst x = session_upstream s) (mx_upstream st') =
      filter (\<lambda>x. fst x = session_upstream s) (mx_upstream st)"
proof -
  let ?i = "mm_session_id (mf_meta f)"
  have on: "only ?i st st'" using keepsD [OF only_handle assms(2)] .
  have own: "owns st j (session_upstream s)" using assms(4) by (simp add: owns_def)
  then have u: "\<not> owns st ?i (session_upstream s)" "session_upstream s < mx_next st"
    using assms(1,3) unfolding mux_inv_def by blast+
  from on obtain new where new: "mx_upstream st' = mx_upstream st @ new"
    "\<forall>x \<in> set new. owns st ?i (fst x) \<or> mx_next st \<le> fst x" unfolding only_def by blast
  have "filter (\<lambda>x. fst x = session_upstream s) new = []"
    using new(2) u by (auto simp: filter_empty_conv)
  moreover have "mx_tasks st' (session_upstream s) = mx_tasks st (session_upstream s)"
    using on u unfolding only_def by blast
  moreover have "mx_sessions st' j = Some s" using on assms(3,4) unfolding only_def by metis
  ultimately show ?thesis using new(1) only_inv [OF on assms(1)] by simp
qed

theorem mux_sessions_isolated_witness:
  "(let st = (mm_state (mux_main_init \<lparr>rl_idle = None, rl_max_lifetime = None\<rparr> 0 xudp_empty))
               \<lparr>mx_sessions := [1 \<mapsto> MuxTcp 0], mx_next := 1\<rparr>;
        f = \<lparr>mf_meta = \<lparr>mm_session_id = 2, mm_status = 3, mm_option = 0, mm_network = None, mm_target = None,
          mm_global_id = None\<rparr>, mf_payload = None\<rparr>
    in mx_sessions (snd (handle_mux_frame calm_env 0 f st)) 1 = Some (MuxTcp 0))"
proof -
  let ?st = "(mm_state (mux_main_init \<lparr>rl_idle = None, rl_max_lifetime = None\<rparr> 0 xudp_empty))
               \<lparr>mx_sessions := [1 \<mapsto> MuxTcp 0], mx_next := 1\<rparr>"
  let ?f = "\<lparr>mf_meta = \<lparr>mm_session_id = 2, mm_status = 3, mm_option = 0, mm_network = None, mm_target = None,
          mm_global_id = None\<rparr>, mf_payload = None\<rparr>"
  have "mux_inv ?st" by (auto simp: mux_inv_def owns_def mux_main_init_def)
  then have "mx_sessions (snd (handle_mux_frame env 0 ?f ?st)) 1 = Some (MuxTcp 0)" for env
    using mux_sessions_isolated [of ?st env 0 ?f "fst (handle_mux_frame env 0 ?f ?st)"
        "snd (handle_mux_frame env 0 ?f ?st)" 1 "MuxTcp 0"] by simp
  then show ?thesis by (simp add: Let_def)
qed

text \<open>C6: over a whole run, under every interleaving of client frames, readers and timers: upstreams
  stay assigned to sessions one-to-one, with private destinations off no forbidden address is
  contacted on behalf of any session or of the XUDP cone, and the count of bytes towards the client
  that the relay reports is zero (no reader adds to it).\<close>
theorem mux_run_safe:
  "let m = snd (relay_vless_mux env lim evs (mux_main_init lim t0 manager)) in
     mux_inv (mm_state m) \<and>
     list_all (permitted (allows_private (me_tcp env) \<or> me_allow_private env)) (mx_contacted (mm_state m)) \<and>
     rb_upstream_to_client (mm_bytes m) = 0"
  using mux_safe_run [OF mux_safe_init] unfolding mux_safe_def Let_def permitted_def disj_assoc .



text \<open>A session id that is opened again is lost when the reader of the earlier session ends: a new
  session replaces the table entry but not the earlier reader, which on the end of its upstream
  removes whatever session has the id, while the new session's reader keeps running.\<close>
lemma mux_reopened_session_lost:
  assumes "mux_inv st" and "mx_tasks st u0 = Some t" and "rt_reading t" and "\<not> rt_udp t"
    and "rt_session t = mm_session_id (mf_meta f)"
    and "open_tcp_session env f target st = (Ok n, st1)"
  shows "\<exists>u1. mx_sessions st1 (mm_session_id (mf_meta f)) = Some (MuxTcp u1) \<and> u1 \<noteq> u0 \<and>
    mx_sessions (pump_step env u0 (Ok []) st1) (mm_session_id (mf_meta f)) = None \<and>
    mx_tasks (pump_step env u0 (Ok []) st1) u1 \<noteq> None"
proof -
  have u0: "u0 < mx_next st" using assms(1,2) by (simp add: mux_inv_def)
  from assms(6) obtain st0 where st1: "st1 = start_session (mm_session_id (mf_meta f)) (MuxTcp (mx_next st)) False st0"
    and st0: "mx_tasks st0 = mx_tasks st"
    by (auto simp: open_tcp_session_def io_bind_Ok mx_net_def fresh_upstream_def mx_update_def
        upstream_write_cases split: prod.splits option.splits outcome.splits)
  have "mx_tasks st1 u0 = Some t" "mx_sessions st1 (mm_session_id (mf_meta f)) = Some (MuxTcp (mx_next st))"
    "mx_tasks st1 (mx_next st) \<noteq> None"
    using st1 st0 u0 assms(2) by (simp_all add: start_session_def)
  then show ?thesis
    using u0 assms(3-5)
    by (intro exI [of _ "mx_next st"])
      (simp add: pump_step_def pump_tcp_upstream_to_client_def Let_def finish_reader_def write_end_def
        write_frame_cases pump_unlock_def split: outcome.split)
qed

end
