(* ===== verification/Conn_Gate.thy ===== *)
theory Conn_Gate
  imports Prelude
begin

text \<open>
  The limit on concurrent connections (\<open>crates/skadi-server/src/connection_gate.rs\<close>). The counter is
  an atomic \<open>u32\<close> that any number of tasks change with a compare-and-swap loop, so the gate is a
  step relation over all interleavings of loads, exchanges and drops. Each rule is one atomic
  access of the source.
\<close>

section \<open>State\<close>

text \<open>
  Where a task is: outside, inside the \<open>while\<close> loop with the value of \<open>current\<close>, holding a permit
  that counts, holding a permit of an unlimited gate, or returned from \<open>try_acquire\<close> with \<open>None\<close>.
\<close>

datatype task = Outside | Trying u32 | Permit | FreePermit | Refused

record gate =
  g_max :: "u32 option"
  g_active :: u32

record 'tid gate_sys =
  gs_gate :: gate
  gs_task :: "'tid \<Rightarrow> task"

definition gate_new :: "u32 option \<Rightarrow> gate" where
  "gate_new max_connections = \<lparr>g_max = max_connections, g_active = 0\<rparr>"

definition gate_init :: "u32 option \<Rightarrow> 'tid gate_sys" where
  "gate_init max_connections = \<lparr>gs_gate = gate_new max_connections, gs_task = (\<lambda>_. Outside)\<rparr>"

definition set_task :: "'tid \<Rightarrow> task \<Rightarrow> 'tid gate_sys \<Rightarrow> 'tid gate_sys" where
  "set_task t p s = s\<lparr>gs_task := (gs_task s)(t := p)\<rparr>"

definition set_active :: "u32 \<Rightarrow> 'tid gate_sys \<Rightarrow> 'tid gate_sys" where
  "set_active n s = s\<lparr>gs_gate := (gs_gate s)\<lparr>g_active := n\<rparr>\<rparr>"

section \<open>Steps\<close>

text \<open>
  \<open>cas_fail\<close> covers both a lost race and the spurious failure that \<open>compare_exchange_weak\<close> permits.
  \<open>fetch_sub\<close> wraps, as the atomic operation does.
\<close>

inductive try_acquire_step :: "'tid gate_sys \<Rightarrow> 'tid gate_sys \<Rightarrow> bool" where
  unlimited: "gs_task s t = Outside \<Longrightarrow> g_max (gs_gate s) = None \<Longrightarrow>
     try_acquire_step s (set_task t FreePermit s)"
| load: "gs_task s t = Outside \<Longrightarrow> g_max (gs_gate s) = Some cap \<Longrightarrow>
     try_acquire_step s (set_task t (Trying (g_active (gs_gate s))) s)"
| cas_ok: "gs_task s t = Trying current \<Longrightarrow> g_max (gs_gate s) = Some cap \<Longrightarrow> current < cap \<Longrightarrow>
     g_active (gs_gate s) = current \<Longrightarrow>
     try_acquire_step s (set_task t Permit (set_active (current + 1) s))"
| cas_fail: "gs_task s t = Trying current \<Longrightarrow> g_max (gs_gate s) = Some cap \<Longrightarrow> current < cap \<Longrightarrow>
     try_acquire_step s (set_task t (Trying (g_active (gs_gate s))) s)"
| refuse: "gs_task s t = Trying current \<Longrightarrow> g_max (gs_gate s) = Some cap \<Longrightarrow> \<not> current < cap \<Longrightarrow>
     try_acquire_step s (set_task t Refused s)"

inductive drop_step :: "'tid gate_sys \<Rightarrow> 'tid gate_sys \<Rightarrow> bool" where
  drop_counted: "gs_task s t = Permit \<Longrightarrow>
     drop_step s (set_task t Outside (set_active (g_active (gs_gate s) - 1) s))"
| drop_free: "gs_task s t = FreePermit \<Longrightarrow> drop_step s (set_task t Outside s)"
| again: "gs_task s t = Refused \<Longrightarrow> drop_step s (set_task t Outside s)"

inductive reachable :: "u32 option \<Rightarrow> 'tid gate_sys \<Rightarrow> bool" for m where
  start: "reachable m (gate_init m)"
| acquire: "reachable m s \<Longrightarrow> try_acquire_step s s' \<Longrightarrow> reachable m s'"
| release: "reachable m s \<Longrightarrow> drop_step s s' \<Longrightarrow> reachable m s'"

lemmas gate_updates = set_task_def set_active_def

section \<open>The call without interference\<close>

text \<open>\<open>try_acquire\<close> run alone: the loop makes at most one exchange and it succeeds.\<close>

definition try_acquire :: "gate \<Rightarrow> gate \<times> task option" where
  "try_acquire g =
     (case g_max g of
        None \<Rightarrow> (g, Some FreePermit)
      | Some cap \<Rightarrow>
          if g_active g < cap then (g\<lparr>g_active := g_active g + 1\<rparr>, Some Permit) else (g, None))"

lemma try_acquire_run:
  assumes "gs_task s t = Outside"
  shows "\<exists>s'. try_acquire_step\<^sup>*\<^sup>* s s' \<and> gs_gate s' = fst (try_acquire (gs_gate s)) \<and>
    gs_task s' t = (case snd (try_acquire (gs_gate s)) of None \<Rightarrow> Refused | Some p \<Rightarrow> p)"
proof (cases "g_max (gs_gate s)")
  case None
  with unlimited [OF assms] show ?thesis
    by (intro exI [of _ "set_task t FreePermit s"]) (auto simp: try_acquire_def gate_updates)
next
  case (Some m)
  let ?a = "g_active (gs_gate s)"
  let ?s1 = "set_task t (Trying ?a) s"
  have l: "try_acquire_step s ?s1" by (rule load [OF assms Some])
  have p: "gs_task ?s1 t = Trying ?a" "g_max (gs_gate ?s1) = Some m" "g_active (gs_gate ?s1) = ?a"
    using Some by (simp_all add: gate_updates)
  show ?thesis
  proof (cases "?a < m")
    case True
    from cas_ok [OF p(1,2) True p(3)] l
    have "try_acquire_step\<^sup>*\<^sup>* s (set_task t Permit (set_active (?a + 1) ?s1))" by auto
    with Some True show ?thesis by (auto simp: try_acquire_def gate_updates)
  next
    case False
    from refuse [OF p(1,2) False] l
    have "try_acquire_step\<^sup>*\<^sup>* s (set_task t Refused ?s1)" by auto
    with Some False show ?thesis by (auto simp: try_acquire_def gate_updates)
  qed
qed

section \<open>The invariant\<close>

definition holders :: "'tid gate_sys \<Rightarrow> 'tid set" where
  "holders s = {t. gs_task s t = Permit}"

definition gate_inv :: "u32 option \<Rightarrow> 'tid gate_sys \<Rightarrow> bool" where
  "gate_inv m s \<longleftrightarrow> g_max (gs_gate s) = m \<and> finite (holders s) \<and>
     card (holders s) = unat (g_active (gs_gate s)) \<and>
     (case m of None \<Rightarrow> holders s = {} | Some k \<Rightarrow> g_active (gs_gate s) \<le> k)"

lemma holders_set_task:
  "holders (set_task t p s) = (if p = Permit then insert t (holders s) else holders s - {t})"
  by (auto simp: holders_def set_task_def)

lemma holders_set_active [simp]: "holders (set_active n s) = holders s"
  by (simp add: holders_def set_active_def)

lemma gate_fields [simp]:
  "gs_gate (set_task t p s) = gs_gate s"
  "g_max (gs_gate (set_active n s)) = g_max (gs_gate s)"
  "g_active (gs_gate (set_active n s)) = n"
  by (simp_all add: gate_updates)

lemma not_holder: "gs_task s t \<noteq> Permit \<Longrightarrow> holders s - {t} = holders s" "gs_task s t \<noteq> Permit \<Longrightarrow> t \<notin> holders s"
  by (auto simp: holders_def)

lemma unat_pred: "(c::u32) \<noteq> 0 \<Longrightarrow> unat (c - 1) = unat c - 1 \<and> c - 1 \<le> c"
  by (simp add: unat_minus_one word_le_nat_alt)

lemma gate_inv_acquire: "try_acquire_step s s' \<Longrightarrow> gate_inv m s \<Longrightarrow> gate_inv m s'"
proof (induction rule: try_acquire_step.induct)
  case (cas_ok s t current cap)
  with unat_succ_below [OF cas_ok(3)] show ?case
    by (auto simp: gate_inv_def holders_set_task not_holder split: option.splits)
qed (auto simp: gate_inv_def holders_set_task not_holder split: option.splits)

lemma gate_inv_release: "drop_step s s' \<Longrightarrow> gate_inv m s \<Longrightarrow> gate_inv m s'"
proof (induction rule: drop_step.induct)
  case (drop_counted s t)
  then have t: "t \<in> holders s" by (simp add: holders_def)
  moreover from drop_counted have "finite (holders s)" by (simp add: gate_inv_def)
  ultimately have "0 < card (holders s)" by (auto simp: card_gt_0_iff)
  with drop_counted have "g_active (gs_gate s) \<noteq> 0" by (auto simp: gate_inv_def)
  from unat_pred [OF this] t drop_counted show ?case
    by (auto simp: gate_inv_def holders_set_task split: option.splits intro: order_trans)
qed (auto simp: gate_inv_def holders_set_task not_holder split: option.splits)

lemma reachable_inv: "reachable m s \<Longrightarrow> gate_inv m s"
proof (induction rule: reachable.induct)
  case start
  show ?case
    by (auto simp: gate_inv_def gate_init_def gate_new_def holders_def split: option.split)
qed (auto intro: gate_inv_acquire gate_inv_release)

section \<open>Properties\<close>

text \<open>C12: in every interleaving of any number of tasks, a gate with a limit never has more permits
  out than the limit, and its counter equals the number of permits out (so it neither overflows
  nor wraps below zero).\<close>
theorem gate_never_exceeds_max:
  assumes "reachable (Some k) s"
  shows "card (holders s) \<le> unat k \<and> unat (g_active (gs_gate s)) = card (holders s) \<and> finite (holders s)"
  using reachable_inv [OF assms] by (simp add: gate_inv_def word_le_nat_alt)

theorem gate_never_exceeds_max_witness:
  "\<exists>s :: nat gate_sys. holders s = {0} \<and> card (holders s) \<le> unat (1 :: u32)"
proof -
  let ?s0 = "gate_init (Some 1) :: nat gate_sys"
  let ?s1 = "set_task 0 (Trying 0) ?s0" and ?s2 = "set_task 0 Permit (set_active 1 (set_task 0 (Trying 0) ?s0))"
  have "try_acquire_step ?s0 (set_task 0 (Trying (g_active (gs_gate ?s0))) ?s0)"
    by (rule load [where cap = 1]) (simp_all add: gate_init_def gate_new_def)
  moreover have "try_acquire_step ?s1 (set_task 0 Permit (set_active (0 + 1) ?s1))"
    by (rule cas_ok [where cap = 1]) (simp_all add: gate_updates gate_init_def gate_new_def)
  ultimately have "reachable (Some 1) ?s2"
    using reachable.acquire [OF reachable.acquire [OF reachable.start]]
    by (simp add: gate_init_def gate_new_def)
  from gate_never_exceeds_max [OF this] have "card (holders ?s2) \<le> unat (1 :: u32)" by blast
  moreover have "holders ?s2 = {0}" by (auto simp: holders_def gate_updates gate_init_def)
  ultimately show ?thesis by blast
qed

end
