(* ===== verification/User_Store.thy ===== *)
theory User_Store
  imports Socks5_Handler Vless_Auth
begin

text \<open>
  The shared user store (\<open>crates/skadi-server/src/store.rs\<close>). Every operation runs under the lock, so
  each is one step on the state. The two kinds of users share a contract, the locale
  \<open>user_registry\<close>: a registry of entries with distinct keys that refines a map, whose refused
  operations change nothing.
\<close>

section \<open>State\<close>

record store_state =
  st_vless_enabled :: bool
  st_socks_enabled :: bool
  st_socks_auth :: auth_method
  st_socks_bind :: bool
  st_socks_udp_associate :: bool
  st_vless_users :: "vless_user list"
  st_socks_users :: "user_credential list"

record protocol_config =
  pc_vless :: vless_config
  pc_socks5 :: socks5_config

datatype store_error =
    InvalidVlessId uuid_parse_error
  | VlessExists rstring
  | VlessNotFound rstring
  | EmptySocksUsername
  | EmptySocksPassword
  | SocksExists rstring
  | SocksNotFound rstring

section \<open>Operations\<close>

definition reload_from_protocol ::
  "protocol_config \<Rightarrow> store_state \<Rightarrow> (unit, store_error) outcome \<times> store_state" where
  "reload_from_protocol p s =
     (Ok (), s\<lparr>st_vless_enabled := vl_enabled (pc_vless p),
               st_socks_enabled := s5_enabled (pc_socks5 p),
               st_socks_auth := s5_auth (pc_socks5 p),
               st_socks_bind := s5_bind (pc_socks5 p),
               st_socks_udp_associate := s5_udp_associate (pc_socks5 p),
               st_vless_users := vl_users (pc_vless p),
               st_socks_users := s5_users (pc_socks5 p)\<rparr>)"

definition store_from_protocol :: "protocol_config \<Rightarrow> store_state" where
  "store_from_protocol p =
     snd (reload_from_protocol p
       \<lparr>st_vless_enabled = vl_enabled (pc_vless p), st_socks_enabled = s5_enabled (pc_socks5 p),
        st_socks_auth = s5_auth (pc_socks5 p), st_socks_bind = s5_bind (pc_socks5 p),
        st_socks_udp_associate = s5_udp_associate (pc_socks5 p),
        st_vless_users = [], st_socks_users = []\<rparr>)"

definition store_vless_config :: "store_state \<Rightarrow> vless_config" where
  "store_vless_config s = \<lparr>vl_enabled = st_vless_enabled s, vl_users = st_vless_users s\<rparr>"

definition store_socks5_config :: "store_state \<Rightarrow> socks5_config" where
  "store_socks5_config s =
     \<lparr>s5_enabled = st_socks_enabled s, s5_auth = st_socks_auth s, s5_users = st_socks_users s,
      s5_bind = st_socks_bind s, s5_udp_associate = st_socks_udp_associate s\<rparr>"

definition vless_user_count :: "store_state \<Rightarrow> u64" where
  "vless_user_count s = word_of_nat (length (st_vless_users s))"

definition socks5_user_count :: "store_state \<Rightarrow> u64" where
  "socks5_user_count s = word_of_nat (length (st_socks_users s))"

definition add_vless_user ::
  "vless_user \<Rightarrow> store_state \<Rightarrow> (unit, store_error) outcome \<times> store_state" where
  "add_vless_user user s =
     (case map_err InvalidVlessId (uuid_parse (vu_id user)) of
        Ok _ \<Rightarrow>
          if list_ex (\<lambda>u. vu_id u = vu_id user) (st_vless_users s)
          then (Err (VlessExists (vu_id user)), s)
          else (Ok (), s\<lparr>st_vless_users := st_vless_users s @ [user]\<rparr>)
      | Err e \<Rightarrow> (Err e, s)
      | Panic \<Rightarrow> (Panic, s)
      | Pending \<Rightarrow> (Pending, s))"

definition remove_vless_user ::
  "rstring \<Rightarrow> store_state \<Rightarrow> (unit, store_error) outcome \<times> store_state" where
  "remove_vless_user uid s =
     (let len_before = length (st_vless_users s);
          s = s\<lparr>st_vless_users := filter (\<lambda>u. vu_id u \<noteq> uid) (st_vless_users s)\<rparr>
      in if length (st_vless_users s) = len_before then (Err (VlessNotFound uid), s) else (Ok (), s))"

definition add_socks5_user ::
  "user_credential \<Rightarrow> store_state \<Rightarrow> (unit, store_error) outcome \<times> store_state" where
  "add_socks5_user user s =
     (if uc_username user = [] then (Err EmptySocksUsername, s)
      else if uc_password user = [] then (Err EmptySocksPassword, s)
      else if list_ex (\<lambda>u. uc_username u = uc_username user) (st_socks_users s)
        then (Err (SocksExists (uc_username user)), s)
      else (Ok (), s\<lparr>st_socks_users := st_socks_users s @ [user]\<rparr>))"

definition remove_socks5_user ::
  "rstring \<Rightarrow> store_state \<Rightarrow> (unit, store_error) outcome \<times> store_state" where
  "remove_socks5_user username s =
     (let len_before = length (st_socks_users s);
          s = s\<lparr>st_socks_users := filter (\<lambda>u. uc_username u \<noteq> username) (st_socks_users s)\<rparr>
      in if length (st_socks_users s) = len_before then (Err (SocksNotFound username), s) else (Ok (), s))"

section \<open>The contract\<close>

locale user_registry =
  fixes key :: "'u \<Rightarrow> 'k" and valid :: "'u \<Rightarrow> bool" and users :: "'s \<Rightarrow> 'u list"
    and add :: "'u \<Rightarrow> 's \<Rightarrow> (unit, 'e) outcome \<times> 's"
    and remove :: "'k \<Rightarrow> 's \<Rightarrow> (unit, 'e) outcome \<times> 's"
  assumes add_new: "valid u \<Longrightarrow> key u \<notin> key ` set (users s) \<Longrightarrow>
        fst (add u s) = Ok () \<and> users (snd (add u s)) = users s @ [u]"
    and add_refused: "\<not> (valid u \<and> key u \<notin> key ` set (users s)) \<Longrightarrow>
        (\<exists>e. fst (add u s) = Err e) \<and> snd (add u s) = s"
    and remove_known: "k \<in> key ` set (users s) \<Longrightarrow>
        fst (remove k s) = Ok () \<and> users (snd (remove k s)) = filter (\<lambda>u. key u \<noteq> k) (users s)"
    and remove_unknown: "k \<notin> key ` set (users s) \<Longrightarrow>
        (\<exists>e. fst (remove k s) = Err e) \<and> snd (remove k s) = s"
begin

text \<open>The abstract registry: the user found under a key.\<close>

definition entry :: "'s \<Rightarrow> 'k \<Rightarrow> 'u option" where
  "entry s k = find (\<lambda>u. key u = k) (users s)"

lemma find_key_None: "find (\<lambda>u. key u = k) us = None \<longleftrightarrow> k \<notin> key ` set us"
  by (auto simp: find_None_iff)

lemma find_append: "find P (xs @ ys) = (case find P xs of None \<Rightarrow> find P ys | Some x \<Rightarrow> Some x)"
  by (induction xs) auto

lemma find_filter_key:
  "find (\<lambda>u. key u = k') (filter (\<lambda>u. key u \<noteq> k) us) =
     (if k' = k then None else find (\<lambda>u. key u = k') us)"
  by (induction us) auto

lemma add_entry:
  assumes "fst (add u s) = Ok ()"
  shows "entry s (key u) = None \<and> entry (snd (add u s)) = (entry s)(key u \<mapsto> u)"
proof -
  have "valid u \<and> key u \<notin> key ` set (users s)"
    using assms add_refused [of u s] by (metis outcome.distinct(1))
  then have new: "valid u" "key u \<notin> key ` set (users s)" by blast+
  with add_new have us: "users (snd (add u s)) = users s @ [u]" by blast
  have none: "find (\<lambda>v. key v = key u) (users s) = None" using new(2) by (simp add: find_key_None)
  have "entry (snd (add u s)) k = ((entry s)(key u \<mapsto> u)) k" for k
    using none us by (auto simp: entry_def find_append split: option.split)
  with none show ?thesis by (auto simp: entry_def)
qed

lemma remove_entry:
  assumes "fst (remove k s) = Ok ()"
  shows "entry s k \<noteq> None \<and> entry (snd (remove k s)) = (entry s)(k := None)"
proof -
  from assms remove_unknown have old: "k \<in> key ` set (users s)" by force
  with remove_known have us: "users (snd (remove k s)) = filter (\<lambda>u. key u \<noteq> k) (users s)" by blast
  with old show ?thesis by (auto simp: entry_def find_filter_key find_key_None fun_eq_iff)
qed

lemma refused_unchanged:
  "fst (add u s) \<noteq> Ok () \<Longrightarrow> snd (add u s) = s"
  "fst (remove k s) \<noteq> Ok () \<Longrightarrow> snd (remove k s) = s"
  using add_new add_refused remove_known remove_unknown by metis+

lemma distinct_kept:
  assumes "distinct (map key (users s))"
  shows "distinct (map key (users (snd (add u s))))" "distinct (map key (users (snd (remove k s))))"
proof -
  show "distinct (map key (users (snd (add u s))))"
  proof (cases "valid u \<and> key u \<notin> key ` set (users s)")
    case True
    with assms add_new [of u s] show ?thesis by simp
  next
    case False
    with assms add_refused show ?thesis by metis
  qed
  show "distinct (map key (users (snd (remove k s))))"
  proof (cases "k \<in> key ` set (users s)")
    case True
    with assms remove_known [of k s] show ?thesis by (simp add: distinct_map_filter)
  next
    case False
    with assms remove_unknown show ?thesis by metis
  qed
qed

end

lemma filter_length_eq: "length (filter P xs) = length xs \<longleftrightarrow> filter P xs = xs"
  by (metis filter_id_conv length_filter_less less_irrefl)

lemma filter_key_same: "filter (\<lambda>u. f u \<noteq> k) us = us \<longleftrightarrow> k \<notin> f ` set us"
  by (auto simp: filter_id_conv)

interpretation vless: user_registry vu_id "\<lambda>u. \<exists>b. uuid_parse (vu_id u) = Ok b" st_vless_users
  add_vless_user remove_vless_user
proof unfold_locales
  fix u s k
  note defs = add_vless_user_def remove_vless_user_def Let_def filter_length_eq filter_key_same
  show "\<exists>b. uuid_parse (vu_id u) = Ok b \<Longrightarrow> vu_id u \<notin> vu_id ` set (st_vless_users s) \<Longrightarrow>
      fst (add_vless_user u s) = Ok () \<and> st_vless_users (snd (add_vless_user u s)) = st_vless_users s @ [u]"
    by (auto simp: defs list_ex_iff image_iff)
  show "\<not> ((\<exists>b. uuid_parse (vu_id u) = Ok b) \<and> vu_id u \<notin> vu_id ` set (st_vless_users s)) \<Longrightarrow>
      (\<exists>e. fst (add_vless_user u s) = Err e) \<and> snd (add_vless_user u s) = s"
    using returns_uuid_parse [of "vu_id u"]
    by (cases "uuid_parse (vu_id u)") (auto simp: defs list_ex_iff image_iff)
  show "k \<in> vu_id ` set (st_vless_users s) \<Longrightarrow> fst (remove_vless_user k s) = Ok () \<and>
      st_vless_users (snd (remove_vless_user k s)) = filter (\<lambda>u. vu_id u \<noteq> k) (st_vless_users s)"
    by (simp add: defs)
  show "k \<notin> vu_id ` set (st_vless_users s) \<Longrightarrow>
      (\<exists>e. fst (remove_vless_user k s) = Err e) \<and> snd (remove_vless_user k s) = s"
    using filter_key_same [of vu_id k "st_vless_users s"] by (simp add: defs)
qed

interpretation socks: user_registry uc_username "\<lambda>u. uc_username u \<noteq> [] \<and> uc_password u \<noteq> []"
  st_socks_users add_socks5_user remove_socks5_user
proof unfold_locales
  fix u s k
  note defs = add_socks5_user_def remove_socks5_user_def Let_def filter_length_eq filter_key_same
  show "uc_username u \<noteq> [] \<and> uc_password u \<noteq> [] \<Longrightarrow> uc_username u \<notin> uc_username ` set (st_socks_users s) \<Longrightarrow>
      fst (add_socks5_user u s) = Ok () \<and> st_socks_users (snd (add_socks5_user u s)) = st_socks_users s @ [u]"
    by (auto simp: defs list_ex_iff image_iff)
  show "\<not> ((uc_username u \<noteq> [] \<and> uc_password u \<noteq> []) \<and> uc_username u \<notin> uc_username ` set (st_socks_users s)) \<Longrightarrow>
      (\<exists>e. fst (add_socks5_user u s) = Err e) \<and> snd (add_socks5_user u s) = s"
    by (auto simp: defs list_ex_iff image_iff)
  show "k \<in> uc_username ` set (st_socks_users s) \<Longrightarrow> fst (remove_socks5_user k s) = Ok () \<and>
      st_socks_users (snd (remove_socks5_user k s)) = filter (\<lambda>u. uc_username u \<noteq> k) (st_socks_users s)"
    by (simp add: defs)
  show "k \<notin> uc_username ` set (st_socks_users s) \<Longrightarrow>
      (\<exists>e. fst (remove_socks5_user k s) = Err e) \<and> snd (remove_socks5_user k s) = s"
    using filter_key_same [of uc_username k "st_socks_users s"] by (simp add: defs)
qed

section \<open>Authentication sees the store\<close>

definition canonical :: "bytes \<Rightarrow> vless_user" where
  "canonical b = \<lparr>vu_id = uuid_display b, vu_email = None, vu_flow = None\<rparr>"

text \<open>The same identifier written without dashes.\<close>

definition undashed :: "bytes \<Rightarrow> vless_user" where
  "undashed b = \<lparr>vu_id = concat (map fmt_02x b), vu_email = None, vu_flow = None\<rparr>"

lemma uuid_parse_undashed: "length b = 16 \<Longrightarrow> uuid_parse (vu_id (undashed b)) = Ok b"
  using map_nth [of b] by (simp add: undashed_def uuid_parse_def Let_def filter_fmt uuid_loop_fmt)

lemma uuid_parse_canonical: "length b = 16 \<Longrightarrow> uuid_parse (vu_id (canonical b)) = Ok b"
  by (simp add: canonical_def uuid_parse_display)

lemma undashed_differs: "length b = 16 \<Longrightarrow> vu_id (undashed b) \<noteq> vu_id (canonical b)"
proof
  assume "length b = 16" and eq: "vu_id (undashed b) = vu_id (canonical b)"
  have "0x2D \<in> set (vu_id (canonical b))" by (simp add: canonical_def uuid_display_def)
  moreover have "0x2D \<notin> set (vu_id (undashed b))"
  proof
    assume "0x2D \<in> set (vu_id (undashed b))"
    then have "0x2D \<in> set (concat (map fmt_02x b))" by (simp add: undashed_def)
    then show False using filter_fmt [of b] by (metis (mono_tags, lifting) filter_id_conv)
  qed
  ultimately show False using eq by simp
qed

section \<open>Properties\<close>

text \<open>C13: the user store refines a map from keys to users, for VLESS and SOCKS5 users alike: a
  successful addition binds a key that was free, a successful removal frees a bound key, other
  keys keep their users, and a refused operation changes nothing at all.\<close>
theorem store_refines_map:
  "(fst (add_vless_user u s) = Ok () \<longrightarrow>
      vless.entry s (vu_id u) = None \<and>
      vless.entry (snd (add_vless_user u s)) = (vless.entry s)(vu_id u \<mapsto> u)) \<and>
   (fst (remove_vless_user k s) = Ok () \<longrightarrow>
      vless.entry s k \<noteq> None \<and> vless.entry (snd (remove_vless_user k s)) = (vless.entry s)(k := None)) \<and>
   (fst (add_vless_user u s) \<noteq> Ok () \<longrightarrow> snd (add_vless_user u s) = s) \<and>
   (fst (remove_vless_user k s) \<noteq> Ok () \<longrightarrow> snd (remove_vless_user k s) = s) \<and>
   (fst (add_socks5_user c s) = Ok () \<longrightarrow>
      socks.entry s (uc_username c) = None \<and>
      socks.entry (snd (add_socks5_user c s)) = (socks.entry s)(uc_username c \<mapsto> c)) \<and>
   (fst (remove_socks5_user k s) = Ok () \<longrightarrow>
      socks.entry s k \<noteq> None \<and> socks.entry (snd (remove_socks5_user k s)) = (socks.entry s)(k := None)) \<and>
   (fst (add_socks5_user c s) \<noteq> Ok () \<longrightarrow> snd (add_socks5_user c s) = s) \<and>
   (fst (remove_socks5_user k s) \<noteq> Ok () \<longrightarrow> snd (remove_socks5_user k s) = s)"
  using vless.add_entry [of u s] vless.remove_entry [of k s] vless.refused_unchanged
    socks.add_entry [of c s] socks.remove_entry [of k s] socks.refused_unchanged by blast

theorem store_refines_map_witness:
  "(let s = \<lparr>st_vless_enabled = True, st_socks_enabled = True, st_socks_auth = UserPass, st_socks_bind = False,
        st_socks_udp_associate = False, st_vless_users = [], st_socks_users = []\<rparr>;
        c = \<lparr>uc_username = lit ''bob'', uc_password = lit ''pw''\<rparr>
    in socks.entry (snd (add_socks5_user c s)) = (socks.entry s)(uc_username c \<mapsto> c))"
  using store_refines_map [of undefined "\<lparr>st_vless_enabled = True, st_socks_enabled = True,
      st_socks_auth = UserPass, st_socks_bind = False, st_socks_udp_associate = False,
      st_vless_users = [], st_socks_users = []\<rparr>" undefined "\<lparr>uc_username = lit ''bob'', uc_password = lit ''pw''\<rparr>"]
  by (simp add: Let_def add_socks5_user_def lit_def)

text \<open>Keys stay distinct: no sequence of additions and removals gives two users the same key.\<close>
lemma store_keys_distinct:
  assumes "distinct (map vu_id (st_vless_users s))" and "distinct (map uc_username (st_socks_users s))"
  shows "distinct (map vu_id (st_vless_users (snd (add_vless_user u s)))) \<and>
    distinct (map vu_id (st_vless_users (snd (remove_vless_user k s)))) \<and>
    distinct (map uc_username (st_socks_users (snd (add_socks5_user c s)))) \<and>
    distinct (map uc_username (st_socks_users (snd (remove_socks5_user k s))))"
  using vless.distinct_kept [OF assms(1)] socks.distinct_kept [OF assms(2)] by blast

text \<open>Uniqueness is of the spelling, not of the identifier: the store accepts the same VLESS
  identifier in a second spelling, and removing the first spelling leaves the identifier able to
  authenticate.\<close>
lemma removed_uuid_still_authenticates:
  assumes "length b = 16" and "ct_eq_spec ct" and "st_vless_users s = []"
  shows "\<exists>s1 s2 s3. add_vless_user (canonical b) s = (Ok (), s1) \<and>
    add_vless_user (undashed b) s1 = (Ok (), s2) \<and>
    remove_vless_user (uuid_display b) s2 = (Ok (), s3) \<and>
    authenticate ct (store_vless_config s3) b = Some (undashed b)"
proof -
  note parse = uuid_parse_canonical [OF assms(1)] uuid_parse_undashed [OF assms(1)]
  have id: "vu_id (canonical b) = uuid_display b" by (simp add: canonical_def)
  with undashed_differs [OF assms(1)] have ne: "vu_id (undashed b) \<noteq> uuid_display b" by simp
  let ?s1 = "s\<lparr>st_vless_users := [canonical b]\<rparr>" and ?s2 = "s\<lparr>st_vless_users := [canonical b, undashed b]\<rparr>"
  let ?s3 = "s\<lparr>st_vless_users := [undashed b]\<rparr>"
  have "add_vless_user (canonical b) s = (Ok (), ?s1)" "add_vless_user (undashed b) ?s1 = (Ok (), ?s2)"
    using parse assms(3) ne ne [symmetric] by (simp_all add: add_vless_user_def id)
  moreover have "remove_vless_user (uuid_display b) ?s2 = (Ok (), ?s3)"
    using ne by (simp add: remove_vless_user_def Let_def id)
  moreover have "authenticate ct (store_vless_config ?s3) b = Some (undashed b)"
    using parse by (simp add: authenticate_find [OF assms(2,1)] store_vless_config_def)
  ultimately show ?thesis by blast
qed

end
