(* ===== verification/Auth_Rate_Limit.thy ===== *)
theory Auth_Rate_Limit
  imports Endpoint Clock
begin

text \<open>
  The per-address limiter of failed authentications
  (\<open>crates/skadi-server/src/auth_rate_limit.rs\<close>). Every operation holds the mutex, so each is one
  step on the table, at the instant it reads the clock.
\<close>

section \<open>State\<close>

record ip_state =
  is_failures :: nat
  is_window_start :: instant
  is_blocked_until :: "instant option"
  is_ban_level :: nat

record limiter =
  li_max_failures :: nat
  li_window :: duration
  li_ban_base :: duration
  li_ban_max :: duration
  li_states :: "ip_addr \<rightharpoonup> ip_state"

record auth_rate_limit_config =
  ar_enabled :: bool
  ar_max_failures :: "u32 option"
  ar_window_secs :: u64
  ar_ban_base_secs :: u64
  ar_ban_max_secs :: u64

section \<open>Operations\<close>

definition limiter_from_config :: "auth_rate_limit_config \<Rightarrow> limiter option" where
  "limiter_from_config cfg =
     (if \<not> ar_enabled cfg then None
      else case ar_max_failures cfg of
          None \<Rightarrow> None
        | Some n \<Rightarrow>
            if n > 0 then
              Some \<lparr>li_max_failures = unat n, li_window = from_secs (unat (ar_window_secs cfg)),
                    li_ban_base = from_secs (unat (ar_ban_base_secs cfg)),
                    li_ban_max = from_secs (unat (ar_ban_max_secs cfg)), li_states = Map.empty\<rparr>
            else None)"

definition keep_state :: "duration \<Rightarrow> instant \<Rightarrow> ip_state \<Rightarrow> bool" where
  "keep_state window now st =
     (let window_alive = now - is_window_start st < window;
          ban_active = (case is_blocked_until st of None \<Rightarrow> False | Some until_t \<Rightarrow> now < until_t)
      in window_alive \<or> ban_active \<or> is_failures st > 0)"

definition cleanup_expired :: "instant \<Rightarrow> limiter \<Rightarrow> limiter" where
  "cleanup_expired now l =
     l\<lparr>li_states := (\<lambda>ip. case li_states l ip of
          None \<Rightarrow> None
        | Some st \<Rightarrow> if keep_state (li_window l) now st then Some st else None)\<rparr>"

definition is_blocked :: "ip_addr \<Rightarrow> instant \<Rightarrow> limiter \<Rightarrow> bool \<times> limiter" where
  "is_blocked ip now l =
     (let l = cleanup_expired now l in
      case li_states l ip of
        None \<Rightarrow> (False, l)
      | Some st \<Rightarrow>
          (case is_blocked_until st of
             None \<Rightarrow> (False, l)
           | Some until_t \<Rightarrow>
               if now < until_t then (True, l)
               else (False, l\<lparr>li_states := (li_states l)(ip \<mapsto> st\<lparr>is_blocked_until := None\<rparr>)\<rparr>)))"

definition fresh_state :: "instant \<Rightarrow> ip_state" where
  "fresh_state now =
     \<lparr>is_failures = 0, is_window_start = now, is_blocked_until = None, is_ban_level = 0\<rparr>"

definition ban_duration :: "limiter \<Rightarrow> nat \<Rightarrow> duration" where
  "ban_duration l level =
     min (min (li_ban_base l * 2 ^ min level 10) DURATION_MAX) (li_ban_max l)"

definition count_failure :: "limiter \<Rightarrow> instant \<Rightarrow> ip_state \<Rightarrow> ip_state" where
  "count_failure l now st =
     (let st = (if now - is_window_start st \<ge> li_window l
                then st\<lparr>is_window_start := now, is_failures := 0\<rparr> else st);
          st = st\<lparr>is_failures := is_failures st + 1\<rparr>
      in if is_failures st < li_max_failures l then st
         else
           let level = min (is_ban_level st + 1) U32_MAX
           in st\<lparr>is_failures := 0, is_window_start := now, is_ban_level := level,
                 is_blocked_until := Some (now + ban_duration l level)\<rparr>)"

definition record_failure :: "ip_addr \<Rightarrow> instant \<Rightarrow> limiter \<Rightarrow> limiter" where
  "record_failure ip now l =
     (let l = cleanup_expired now l;
          st = (case li_states l ip of Some st \<Rightarrow> st | None \<Rightarrow> fresh_state now)
      in l\<lparr>li_states := (li_states l)(ip \<mapsto> count_failure l now st)\<rparr>)"

section \<open>Frame facts\<close>

lemma cleanup_fields [simp]:
  "li_max_failures (cleanup_expired now l) = li_max_failures l"
  "li_window (cleanup_expired now l) = li_window l"
  "li_ban_base (cleanup_expired now l) = li_ban_base l"
  "li_ban_max (cleanup_expired now l) = li_ban_max l"
  by (simp_all add: cleanup_expired_def)

lemma record_fields [simp]:
  "li_max_failures (record_failure ip now l) = li_max_failures l"
  "li_window (record_failure ip now l) = li_window l"
  "li_ban_base (record_failure ip now l) = li_ban_base l"
  "li_ban_max (record_failure ip now l) = li_ban_max l"
  by (simp_all add: record_failure_def Let_def)

lemma blocked_fields [simp]:
  "li_max_failures (snd (is_blocked ip now l)) = li_max_failures l"
  "li_window (snd (is_blocked ip now l)) = li_window l"
  "li_ban_base (snd (is_blocked ip now l)) = li_ban_base l"
  "li_ban_max (snd (is_blocked ip now l)) = li_ban_max l"
  by (simp_all add: is_blocked_def Let_def split: option.splits)

lemma cleanup_Some:
  "li_states (cleanup_expired now l) ip = Some st \<longleftrightarrow>
     li_states l ip = Some st \<and> keep_state (li_window l) now st"
  by (auto simp: cleanup_expired_def split: option.splits if_split_asm)

text \<open>The verdict depends only on the ban recorded for the address.\<close>

lemma is_blocked_iff:
  "fst (is_blocked ip now l) \<longleftrightarrow>
     (\<exists>st b. li_states l ip = Some st \<and> is_blocked_until st = Some b \<and> now < b)"
proof
  assume "fst (is_blocked ip now l)"
  then show "\<exists>st b. li_states l ip = Some st \<and> is_blocked_until st = Some b \<and> now < b"
    by (auto simp: is_blocked_def Let_def cleanup_Some split: option.splits if_split_asm)
next
  assume "\<exists>st b. li_states l ip = Some st \<and> is_blocked_until st = Some b \<and> now < b"
  then obtain st b where st: "li_states l ip = Some st" "is_blocked_until st = Some b" "now < b" by blast
  then have "li_states (cleanup_expired now l) ip = Some st"
    by (simp add: cleanup_Some keep_state_def)
  with st show "fst (is_blocked ip now l)" by (simp add: is_blocked_def Let_def)
qed

lemma count_failure_cleanup: "count_failure (cleanup_expired t l) = count_failure l"
  by (intro ext) (unfold count_failure_def ban_duration_def cleanup_fields, rule refl)

lemma record_failure_self:
  "li_states (record_failure ip now l) ip =
     Some (count_failure l now
       (case li_states (cleanup_expired now l) ip of Some st \<Rightarrow> st | None \<Rightarrow> fresh_state now))"
  by (simp add: record_failure_def Let_def count_failure_cleanup)

lemma record_failure_other:
  "ip' \<noteq> ip \<Longrightarrow> li_states (record_failure ip now l) ip' = li_states (cleanup_expired now l) ip'"
  by (simp add: record_failure_def Let_def)

section \<open>Traces\<close>

datatype limiter_event = Check ip_addr instant | Failure ip_addr instant

fun limiter_step :: "limiter_event \<Rightarrow> limiter \<Rightarrow> limiter" where
  "limiter_step (Check ip now) l = snd (is_blocked ip now l)"
| "limiter_step (Failure ip now) l = record_failure ip now l"

fun limiter_run :: "limiter_event list \<Rightarrow> limiter \<Rightarrow> limiter" where
  "limiter_run [] l = l"
| "limiter_run (e # es) l = limiter_run es (limiter_step e l)"

fun failures_of :: "ip_addr \<Rightarrow> limiter_event list \<Rightarrow> nat" where
  "failures_of ip [] = 0"
| "failures_of ip (Failure ip' _ # es) = (if ip' = ip then 1 else 0) + failures_of ip es"
| "failures_of ip (Check _ _ # es) = failures_of ip es"

lemma step_fields [simp]:
  "li_max_failures (limiter_step e l) = li_max_failures l"
  "li_window (limiter_step e l) = li_window l"
  "li_ban_base (limiter_step e l) = li_ban_base l"
  "li_ban_max (limiter_step e l) = li_ban_max l"
  by (cases e; simp)+

text \<open>
  What the table may hold for an address after \<open>n\<close> failures from it: fewer than the limit counted
  in the window, no more than \<open>n\<close>, and a ban only when \<open>n\<close> reached the limit.
\<close>

definition counted :: "limiter \<Rightarrow> nat \<Rightarrow> ip_state option \<Rightarrow> bool" where
  "counted l n so \<longleftrightarrow>
     (case so of
        None \<Rightarrow> True
      | Some st \<Rightarrow> is_failures st \<le> n \<and> is_failures st < li_max_failures l \<and>
          (is_blocked_until st \<noteq> None \<longrightarrow> li_max_failures l \<le> n))"

lemma counted_mono: "counted l n so \<Longrightarrow> n \<le> m \<Longrightarrow> counted l m so"
  by (auto simp: counted_def split: option.splits)

lemma counted_cleanup: "counted l n (li_states l ip) \<Longrightarrow> counted l n (li_states (cleanup_expired now l) ip)"
  by (auto simp: counted_def cleanup_expired_def split: option.splits)

lemma counted_failure:
  assumes "counted l n (Some st)"
  shows "counted l (Suc n) (Some (count_failure l now st))"
  using assms by (auto simp: counted_def count_failure_def Let_def)

lemma counted_fresh: "0 < li_max_failures l \<Longrightarrow> counted l n (Some (fresh_state now))"
  by (simp add: counted_def fresh_state_def)

lemma counted_step:
  assumes "counted l n (li_states l ip)" and "0 < li_max_failures l"
  shows "counted (limiter_step e l) (n + failures_of ip [e]) (li_states (limiter_step e l) ip)"
proof (cases e)
  case (Check ip' t)
  with counted_cleanup [OF assms(1), of t] show ?thesis
    by (auto simp: is_blocked_def Let_def counted_def split: option.splits if_split_asm)
next
  case (Failure ip' t)
  have c: "counted l n (li_states (cleanup_expired t l) ip)" by (rule counted_cleanup [OF assms(1)])
  show ?thesis
  proof (cases "ip' = ip")
    case True
    have "counted l n (Some (case li_states (cleanup_expired t l) ip of Some st \<Rightarrow> st | None \<Rightarrow> fresh_state t))"
      using c counted_fresh [OF assms(2)] by (auto split: option.split)
    from counted_failure [OF this] Failure True show ?thesis
      by (simp add: record_failure_self counted_def)
  next
    case False
    with c Failure show ?thesis by (auto simp: record_failure_other counted_def split: option.splits)
  qed
qed

lemma counted_run:
  "counted l n (li_states l ip) \<Longrightarrow> 0 < li_max_failures l \<Longrightarrow>
     counted (limiter_run es l) (n + failures_of ip es) (li_states (limiter_run es l) ip) \<and>
     li_max_failures (limiter_run es l) = li_max_failures l"
proof (induction es arbitrary: l n)
  case (Cons e es)
  have "failures_of ip [e] + failures_of ip es = failures_of ip (e # es)" by (cases e) simp_all
  with Cons.IH [OF counted_step [OF Cons.prems, of e]] Cons.prems show ?case
    by (simp add: add.assoc)
qed simp

section \<open>Reaching the limit\<close>


lemma ban_duration_upper: "ban_duration l level \<le> li_ban_max l"
  by (simp add: ban_duration_def)


lemma count_failure_counts:
  assumes "now - is_window_start st < li_window l" and "Suc (is_failures st) < li_max_failures l"
  shows "count_failure l now st = st\<lparr>is_failures := Suc (is_failures st)\<rparr>"
  using assms by (simp add: count_failure_def Let_def)



lemma fail_fresh:
  assumes "li_states l ip = None" and "1 < li_max_failures l" and "0 < li_window l"
  shows "li_states (record_failure ip t l) ip = Some ((fresh_state t)\<lparr>is_failures := 1\<rparr>)"
proof -
  have "li_states (cleanup_expired t l) ip = None"
    using assms(1) by (simp add: cleanup_expired_def)
  with assms(2,3) show ?thesis
    by (simp add: record_failure_self count_failure_counts fresh_state_def)
qed



section \<open>Properties\<close>

text \<open>C34: nobody is banned by mistake: in every history of checks and failures that starts from a
  new limiter, an address found blocked has itself failed at least \<open>max_failures\<close> times.\<close>
theorem blocked_only_after_max_failures:
  assumes "limiter_from_config cfg = Some l" and "fst (is_blocked ip now (limiter_run es l))"
  shows "li_max_failures l \<le> failures_of ip es"
proof -
  have "0 < li_max_failures l" "li_states l = Map.empty"
    using assms(1) by (auto simp: limiter_from_config_def word_less_nat_alt split: if_split_asm option.splits)
  with counted_run [of l 0 ip es] assms(2) show ?thesis
    by (auto simp: is_blocked_iff counted_def)
qed

theorem blocked_only_after_max_failures_witness:
  "li_max_failures (the (limiter_from_config \<lparr>ar_enabled = True, ar_max_failures = Some 1,
      ar_window_secs = 60, ar_ban_base_secs = 1, ar_ban_max_secs = 10\<rparr>)) \<le>
    failures_of (V4 (Ipv4 9 9 9 9)) [Failure (V4 (Ipv4 9 9 9 9)) 5]"
  (is "li_max_failures (the (limiter_from_config ?cfg)) \<le> _")
proof (rule blocked_only_after_max_failures)
  show l: "limiter_from_config ?cfg = Some (the (limiter_from_config ?cfg))"
    by (simp add: limiter_from_config_def)
  show "fst (is_blocked (V4 (Ipv4 9 9 9 9)) 6
      (limiter_run [Failure (V4 (Ipv4 9 9 9 9)) 5] (the (limiter_from_config ?cfg))))"
    by (simp add: is_blocked_iff limiter_from_config_def record_failure_def Let_def cleanup_expired_def
        count_failure_def fresh_state_def ban_duration_def from_secs_def DURATION_MAX_def U32_MAX_def)
qed



text \<open>Addresses are independent: what one address does, and the clean-up that runs with it, does
  not change whether another address is found blocked at that time or later.\<close>
lemma addresses_are_independent:
  assumes "ip' \<noteq> ip" and "t \<le> now"
  shows "fst (is_blocked ip now (record_failure ip' t l)) = fst (is_blocked ip now l) \<and>
    fst (is_blocked ip now (snd (is_blocked ip' t l))) = fst (is_blocked ip now l)"
proof -
  have c: "(\<exists>st b. li_states (cleanup_expired t l) ip = Some st \<and> is_blocked_until st = Some b \<and> now < b) \<longleftrightarrow>
      (\<exists>st b. li_states l ip = Some st \<and> is_blocked_until st = Some b \<and> now < b)"
    using assms(2) by (auto simp: cleanup_Some keep_state_def)
  have "li_states (snd (is_blocked ip' t l)) ip = li_states (cleanup_expired t l) ip"
    using assms(1) by (simp add: is_blocked_def Let_def split: option.splits)
  with c show ?thesis
    unfolding is_blocked_iff by (simp add: record_failure_other assms(1) [symmetric])
qed

text \<open>The clean-up never drops an address with a counted failure, however long ago its window
  closed: the table keeps one entry for every address that has failed once and gone away.\<close>
lemma cleanup_keeps_stale_failures:
  assumes "li_states l ip = None" and "1 < li_max_failures l" and "0 < li_window l"
  shows "li_states (cleanup_expired later (record_failure ip t l)) ip \<noteq> None"
  using fail_fresh [OF assms, of t] by (auto simp: cleanup_Some keep_state_def)

end
