(* ===== verification/Api_Service.thy ===== *)
theory Api_Service
  imports User_Store Auth_Rate_Limit Text_Format
begin

text \<open>
  The management API (\<open>crates/skadi-server/src/api\<close>): the fixed-window limiter, the interceptor
  that runs before every call (\<open>mod.rs\<close>), and the seven calls of the service with the audit
  records they write (\<open>service.rs\<close>, \<open>audit.rs\<close>). The gRPC framework is a parameter: the peer
  address it reports, the \<open>authorization\<close> header it received and its conversion to text.
\<close>

section \<open>Messages\<close>

datatype grpc_status = Unauthenticated rstring | ResourceExhausted rstring

record user_response =
  ur_ok :: bool
  ur_message :: rstring

record proto_vless_user =
  pv_id :: rstring
  pv_email :: rstring

record proto_socks5_user =
  ps_username :: rstring
  ps_password :: rstring

datatype api_call =
    AddVlessUser "proto_vless_user option"
  | RemoveVlessUser rstring
  | ListVlessUsers
  | AddSocks5User "proto_socks5_user option"
  | RemoveSocks5User rstring
  | ListSocks5Users
  | GetStats

datatype api_response =
    UserResponse user_response
  | VlessUsers "proto_vless_user list"
  | Socks5Users "proto_socks5_user list"
  | Stats u64 u64

datatype audit_record =
    AuditAuthFailure rstring rstring
  | AuditRateLimited rstring
  | AuditRpc rstring rstring rstring bool

section \<open>Fixed-window limiter\<close>

record window_state =
  ws_start :: instant
  ws_count :: u32

record api_limiter =
  al_limit :: u32
  al_window :: duration
  al_state :: window_state

definition api_limiter_new :: "u32 option \<Rightarrow> instant \<Rightarrow> api_limiter option" where
  "api_limiter_new limit_per_sec now =
     (case limit_per_sec of
        None \<Rightarrow> None
      | Some limit \<Rightarrow>
          if limit > 0 then
            Some \<lparr>al_limit = limit, al_window = from_secs 1, al_state = \<lparr>ws_start = now, ws_count = 0\<rparr>\<rparr>
          else None)"

definition api_check :: "instant \<Rightarrow> api_limiter \<Rightarrow> (unit, grpc_status) outcome \<times> api_limiter" where
  "api_check now l =
     (let st = al_state l;
          st = (if now - ws_start st \<ge> al_window l then \<lparr>ws_start = now, ws_count = 0\<rparr> else st)
      in if ws_count st \<ge> al_limit l
         then (Err (ResourceExhausted (lit ''rate limit exceeded'')), l\<lparr>al_state := st\<rparr>)
         else (Ok (), l\<lparr>al_state := st\<lparr>ws_count := ws_count st + 1\<rparr>\<rparr>))"

section \<open>Interceptor\<close>

record api_request =
  rq_peer :: "rstring option"
  rq_authorization :: "bytes option"

record api_state =
  as_limiter :: "api_limiter option"
  as_store :: store_state
  as_audit :: "audit_record list"

text \<open>\<open>peer.unwrap_or("unknown")\<close>, in every audit record.\<close>

definition peer_text :: "rstring option \<Rightarrow> rstring" where
  "peer_text peer = (case peer of Some p \<Rightarrow> p | None \<Rightarrow> lit ''unknown'')"

definition audit_auth_failure :: "rstring option \<Rightarrow> rstring \<Rightarrow> api_state \<Rightarrow> api_state" where
  "audit_auth_failure peer reason st =
     st\<lparr>as_audit := as_audit st @ [AuditAuthFailure (peer_text peer) reason]\<rparr>"

definition audit_rate_limited :: "rstring option \<Rightarrow> api_state \<Rightarrow> api_state" where
  "audit_rate_limited peer st = st\<lparr>as_audit := as_audit st @ [AuditRateLimited (peer_text peer)]\<rparr>"

definition audit_rpc :: "rstring option \<Rightarrow> rstring \<Rightarrow> rstring \<Rightarrow> bool \<Rightarrow> api_state \<Rightarrow> api_state" where
  "audit_rpc peer rpc detail ok st =
     st\<lparr>as_audit := as_audit st @ [AuditRpc (peer_text peer) rpc detail ok]\<rparr>"

definition check_auth ::
  "(bytes \<Rightarrow> rstring option) \<Rightarrow> rstring \<Rightarrow> bool \<Rightarrow> api_request \<Rightarrow> api_state \<Rightarrow>
     (unit, grpc_status) outcome \<times> api_state" where
  "check_auth to_str token audit_log req st =
     (let peer = rq_peer req in
      case Option.bind (rq_authorization req) to_str of
        None \<Rightarrow>
          (Err (Unauthenticated (lit ''missing authorization header'')),
           if audit_log then audit_auth_failure peer (lit ''missing authorization header'') st else st)
      | Some auth_header \<Rightarrow>
          if auth_header \<noteq> lit ''Bearer '' @ token then
            (Err (Unauthenticated (lit ''invalid token'')),
             if audit_log then audit_auth_failure peer (lit ''invalid token'') st else st)
          else (Ok (), st))"

definition interceptor ::
  "(bytes \<Rightarrow> rstring option) \<Rightarrow> rstring \<Rightarrow> bool \<Rightarrow> api_request \<Rightarrow> instant \<Rightarrow> api_state \<Rightarrow>
     (unit, grpc_status) outcome \<times> api_state" where
  "interceptor to_str token audit_log req now st =
     (case as_limiter st of
        None \<Rightarrow> check_auth to_str token audit_log req st
      | Some l \<Rightarrow>
          (case api_check now l of
             (Ok _, l) \<Rightarrow> check_auth to_str token audit_log req (st\<lparr>as_limiter := Some l\<rparr>)
           | (Err status, l) \<Rightarrow>
               (let st = st\<lparr>as_limiter := Some l\<rparr>
                in (Err status, if audit_log then audit_rate_limited (rq_peer req) st else st))
           | (Panic, l) \<Rightarrow> (Panic, st)
           | (Pending, l) \<Rightarrow> (Pending, st)))"

section \<open>Calls\<close>

definition uuid_error_text :: "uuid_parse_error \<Rightarrow> rstring" where
  "uuid_error_text e =
     (case e of
        BadLength n \<Rightarrow> lit ''UUID must contain 32 hex digits, got '' @ fmt_dec n
      | BadHex c \<Rightarrow> lit ''invalid hex character: '' @ fmt_char c)"

definition store_error_text :: "store_error \<Rightarrow> rstring" where
  "store_error_text e =
     (case e of
        InvalidVlessId u \<Rightarrow> lit ''invalid VLESS user id: '' @ uuid_error_text u
      | VlessExists i \<Rightarrow> lit ''VLESS user already exists: '' @ i
      | VlessNotFound i \<Rightarrow> lit ''VLESS user not found: '' @ i
      | EmptySocksUsername \<Rightarrow> lit ''SOCKS5 username must not be empty''
      | EmptySocksPassword \<Rightarrow> lit ''SOCKS5 password must not be empty''
      | SocksExists u \<Rightarrow> lit ''SOCKS5 user already exists: '' @ u
      | SocksNotFound u \<Rightarrow> lit ''SOCKS5 user not found: '' @ u)"

definition ok_response :: "rstring \<Rightarrow> user_response" where
  "ok_response message = \<lparr>ur_ok = True, ur_message = message\<rparr>"

definition err_response :: "rstring \<Rightarrow> user_response" where
  "err_response message = \<lparr>ur_ok = False, ur_message = message\<rparr>"

definition optional_string :: "rstring \<Rightarrow> rstring option" where
  "optional_string v = (if v = [] then None else Some v)"

definition svc_audit ::
  "bool \<Rightarrow> rstring option \<Rightarrow> rstring \<Rightarrow> rstring \<Rightarrow> bool \<Rightarrow> api_state \<Rightarrow> api_state" where
  "svc_audit audit_log peer rpc detail ok st = (if audit_log then audit_rpc peer rpc detail ok st else st)"

text \<open>The common tail of the mutating calls: run the store operation, audit it, answer.\<close>

definition finish_mutation ::
  "bool \<Rightarrow> rstring option \<Rightarrow> rstring \<Rightarrow> rstring \<Rightarrow> rstring \<Rightarrow>
     (store_state \<Rightarrow> (unit, store_error) outcome \<times> store_state) \<Rightarrow> api_state \<Rightarrow>
     (api_response, grpc_status) outcome \<times> api_state" where
  "finish_mutation audit_log peer rpc detail done_text f st =
     (case f (as_store st) of
        (Ok _, s) \<Rightarrow>
          (Ok (UserResponse (ok_response done_text)),
           svc_audit audit_log peer rpc detail True (st\<lparr>as_store := s\<rparr>))
      | (Err e, s) \<Rightarrow>
          (let msg = store_error_text e in
           (Ok (UserResponse (err_response msg)),
            svc_audit audit_log peer rpc (detail @ lit '' err='' @ msg) False (st\<lparr>as_store := s\<rparr>)))
      | (Panic, s) \<Rightarrow> (Panic, st)
      | (Pending, s) \<Rightarrow> (Pending, st))"

definition refuse_call ::
  "bool \<Rightarrow> rstring option \<Rightarrow> rstring \<Rightarrow> rstring \<Rightarrow> api_state \<Rightarrow>
     (api_response, grpc_status) outcome \<times> api_state" where
  "refuse_call audit_log peer rpc message st =
     (Ok (UserResponse (err_response message)), svc_audit audit_log peer rpc message False st)"

definition rpc_add_vless_user ::
  "bool \<Rightarrow> rstring option \<Rightarrow> proto_vless_user option \<Rightarrow> api_state \<Rightarrow>
     (api_response, grpc_status) outcome \<times> api_state" where
  "rpc_add_vless_user audit_log peer user st =
     (case user of
        None \<Rightarrow> refuse_call audit_log peer (lit ''AddVlessUser'') (lit ''user is required'') st
      | Some user \<Rightarrow>
          if pv_id user = [] then
            refuse_call audit_log peer (lit ''AddVlessUser'') (lit ''id is required'') st
          else
            finish_mutation audit_log peer (lit ''AddVlessUser'') (lit ''vless_id='' @ pv_id user) (lit ''added'')
              (add_vless_user
                 \<lparr>vu_id = pv_id user, vu_email = optional_string (pv_email user), vu_flow = None\<rparr>) st)"

definition rpc_remove_vless_user ::
  "bool \<Rightarrow> rstring option \<Rightarrow> rstring \<Rightarrow> api_state \<Rightarrow>
     (api_response, grpc_status) outcome \<times> api_state" where
  "rpc_remove_vless_user audit_log peer uid st =
     (if uid = [] then refuse_call audit_log peer (lit ''RemoveVlessUser'') (lit ''id is required'') st
      else
        finish_mutation audit_log peer (lit ''RemoveVlessUser'') (lit ''vless_id='' @ uid) (lit ''removed'')
          (remove_vless_user uid) st)"

definition rpc_list_vless_users ::
  "bool \<Rightarrow> rstring option \<Rightarrow> api_state \<Rightarrow> (api_response, grpc_status) outcome \<times> api_state" where
  "rpc_list_vless_users audit_log peer st =
     (let users = map (\<lambda>u. \<lparr>pv_id = vu_id u,
                             pv_email = (case vu_email u of Some e \<Rightarrow> e | None \<Rightarrow> [])\<rparr>)
                    (st_vless_users (as_store st))
      in (Ok (VlessUsers users),
          svc_audit audit_log peer (lit ''ListVlessUsers'') (lit ''count='' @ fmt_dec (length users)) True st))"

definition rpc_add_socks5_user ::
  "bool \<Rightarrow> rstring option \<Rightarrow> proto_socks5_user option \<Rightarrow> api_state \<Rightarrow>
     (api_response, grpc_status) outcome \<times> api_state" where
  "rpc_add_socks5_user audit_log peer user st =
     (case user of
        None \<Rightarrow> refuse_call audit_log peer (lit ''AddSocks5User'') (lit ''user is required'') st
      | Some user \<Rightarrow>
          finish_mutation audit_log peer (lit ''AddSocks5User'') (lit ''socks5_user='' @ ps_username user)
            (lit ''added'')
            (add_socks5_user \<lparr>uc_username = ps_username user, uc_password = ps_password user\<rparr>) st)"

definition rpc_remove_socks5_user ::
  "bool \<Rightarrow> rstring option \<Rightarrow> rstring \<Rightarrow> api_state \<Rightarrow>
     (api_response, grpc_status) outcome \<times> api_state" where
  "rpc_remove_socks5_user audit_log peer username st =
     (if username = [] then
        refuse_call audit_log peer (lit ''RemoveSocks5User'') (lit ''username is required'') st
      else
        finish_mutation audit_log peer (lit ''RemoveSocks5User'') (lit ''socks5_user='' @ username)
          (lit ''removed'') (remove_socks5_user username) st)"

definition rpc_list_socks5_users ::
  "bool \<Rightarrow> rstring option \<Rightarrow> api_state \<Rightarrow> (api_response, grpc_status) outcome \<times> api_state" where
  "rpc_list_socks5_users audit_log peer st =
     (let users = map (\<lambda>u. \<lparr>ps_username = uc_username u, ps_password = uc_password u\<rparr>)
                    (st_socks_users (as_store st))
      in (Ok (Socks5Users users),
          svc_audit audit_log peer (lit ''ListSocks5Users'') (lit ''count='' @ fmt_dec (length users)) True st))"

definition rpc_get_stats ::
  "bool \<Rightarrow> rstring option \<Rightarrow> api_state \<Rightarrow> (api_response, grpc_status) outcome \<times> api_state" where
  "rpc_get_stats audit_log peer st =
     (let vless_users = vless_user_count (as_store st); socks5_users = socks5_user_count (as_store st)
      in (Ok (Stats vless_users socks5_users),
          svc_audit audit_log peer (lit ''GetStats'')
            (lit ''vless_users='' @ fmt_dec (unat vless_users) @
             lit '' socks5_users='' @ fmt_dec (unat socks5_users)) True st))"

definition rpc ::
  "bool \<Rightarrow> rstring option \<Rightarrow> api_call \<Rightarrow> api_state \<Rightarrow>
     (api_response, grpc_status) outcome \<times> api_state" where
  "rpc audit_log peer call st =
     (case call of
        AddVlessUser u \<Rightarrow> rpc_add_vless_user audit_log peer u st
      | RemoveVlessUser i \<Rightarrow> rpc_remove_vless_user audit_log peer i st
      | ListVlessUsers \<Rightarrow> rpc_list_vless_users audit_log peer st
      | AddSocks5User u \<Rightarrow> rpc_add_socks5_user audit_log peer u st
      | RemoveSocks5User u \<Rightarrow> rpc_remove_socks5_user audit_log peer u st
      | ListSocks5Users \<Rightarrow> rpc_list_socks5_users audit_log peer st
      | GetStats \<Rightarrow> rpc_get_stats audit_log peer st)"

text \<open>A request: the interceptor, then the call.\<close>

definition serve_call ::
  "(bytes \<Rightarrow> rstring option) \<Rightarrow> rstring \<Rightarrow> bool \<Rightarrow> api_request \<Rightarrow> api_call \<Rightarrow> instant \<Rightarrow> api_state \<Rightarrow>
     (api_response, grpc_status) outcome \<times> api_state" where
  "serve_call to_str token audit_log req call now st =
     (case interceptor to_str token audit_log req now st of
        (Ok _, st) \<Rightarrow> rpc audit_log (rq_peer req) call st
      | (Err status, st) \<Rightarrow> (Err status, st)
      | (Panic, st) \<Rightarrow> (Panic, st)
      | (Pending, st) \<Rightarrow> (Pending, st))"

section \<open>What a call does\<close>

fun rpc_name :: "api_call \<Rightarrow> rstring" where
  "rpc_name (AddVlessUser _) = lit ''AddVlessUser''"
| "rpc_name (RemoveVlessUser _) = lit ''RemoveVlessUser''"
| "rpc_name ListVlessUsers = lit ''ListVlessUsers''"
| "rpc_name (AddSocks5User _) = lit ''AddSocks5User''"
| "rpc_name (RemoveSocks5User _) = lit ''RemoveSocks5User''"
| "rpc_name ListSocks5Users = lit ''ListSocks5Users''"
| "rpc_name GetStats = lit ''GetStats''"

fun succeeded :: "api_response \<Rightarrow> bool" where
  "succeeded (UserResponse r) = ur_ok r"
| "succeeded _ = True"

fun api_allows :: "api_call \<Rightarrow> store_state \<Rightarrow> bool" where
  "api_allows (AddVlessUser None) s = False"
| "api_allows (AddVlessUser (Some u)) s =
     ((\<exists>b. uuid_parse (pv_id u) = Ok b) \<and> pv_id u \<notin> vu_id ` set (st_vless_users s))"
| "api_allows (RemoveVlessUser i) s = (i \<noteq> [] \<and> i \<in> vu_id ` set (st_vless_users s))"
| "api_allows (AddSocks5User None) s = False"
| "api_allows (AddSocks5User (Some u)) s =
     (ps_username u \<noteq> [] \<and> ps_password u \<noteq> [] \<and> ps_username u \<notin> uc_username ` set (st_socks_users s))"
| "api_allows (RemoveSocks5User n) s = (n \<noteq> [] \<and> n \<in> uc_username ` set (st_socks_users s))"
| "api_allows _ s = True"

fun api_effect :: "api_call \<Rightarrow> store_state \<Rightarrow> store_state" where
  "api_effect (AddVlessUser (Some u)) s =
     s\<lparr>st_vless_users := st_vless_users s @
        [\<lparr>vu_id = pv_id u, vu_email = (if pv_email u = [] then None else Some (pv_email u)), vu_flow = None\<rparr>]\<rparr>"
| "api_effect (RemoveVlessUser i) s = s\<lparr>st_vless_users := filter (\<lambda>u. vu_id u \<noteq> i) (st_vless_users s)\<rparr>"
| "api_effect (AddSocks5User (Some u)) s =
     s\<lparr>st_socks_users := st_socks_users s @ [\<lparr>uc_username = ps_username u, uc_password = ps_password u\<rparr>]\<rparr>"
| "api_effect (RemoveSocks5User n) s = s\<lparr>st_socks_users := filter (\<lambda>u. uc_username u \<noteq> n) (st_socks_users s)\<rparr>"
| "api_effect _ s = s"

text \<open>The specification of one call on the service state.\<close>

definition does_call :: "bool \<Rightarrow> rstring option \<Rightarrow> api_call \<Rightarrow> api_state \<Rightarrow>
    (api_response, grpc_status) outcome \<times> api_state \<Rightarrow> bool" where
  "does_call audit_log peer call st res =
     (\<exists>r detail. res = (Ok r,
        st\<lparr>as_store := (if api_allows call (as_store st) then api_effect call (as_store st) else as_store st),
           as_audit := as_audit st @
             (if audit_log then [AuditRpc (peer_text peer) (rpc_name call) detail (succeeded r)] else [])\<rparr>) \<and>
        (succeeded r \<longleftrightarrow> api_allows call (as_store st)))"

lemma does_callI:
  assumes "succeeded r \<longleftrightarrow> api_allows call (as_store st)"
    and "s = (if api_allows call (as_store st) then api_effect call (as_store st) else as_store st)"
    and "name = rpc_name call" and "ok = succeeded r"
  shows "does_call audit_log peer call st (Ok r, svc_audit audit_log peer name detail ok (st\<lparr>as_store := s\<rparr>))"
  unfolding does_call_def using assms by (intro exI [of _ r] exI [of _ detail]) (simp add: svc_audit_def audit_rpc_def)

lemma does_refuse:
  assumes "\<not> api_allows call (as_store st)" and "name = rpc_name call"
  shows "does_call audit_log peer call st (refuse_call audit_log peer name m st)"
  using assms does_callI [of "UserResponse (err_response m)" call st "as_store st" name False]
  by (simp add: refuse_call_def err_response_def)

lemma does_mutation:
  assumes "f (as_store st) = (Ok (), api_effect call (as_store st)) \<and> api_allows call (as_store st) \<or>
      (\<exists>e. f (as_store st) = (Err e, as_store st)) \<and> \<not> api_allows call (as_store st)"
    and "name = rpc_name call"
  shows "does_call audit_log peer call st (finish_mutation audit_log peer name d m f st)"
  using assms(1)
proof (elim disjE conjE exE)
  assume "f (as_store st) = (Ok (), api_effect call (as_store st))" "api_allows call (as_store st)"
  then show ?thesis by (simp add: finish_mutation_def does_callI ok_response_def assms(2))
next
  fix e
  assume "f (as_store st) = (Err e, as_store st)" "\<not> api_allows call (as_store st)"
  then show ?thesis
    using does_callI [of "UserResponse (err_response (store_error_text e))" call st "as_store st" name False]
    by (simp add: finish_mutation_def err_response_def assms(2) Let_def)
qed

lemma does_read:
  assumes "api_allows call (as_store st)" and "api_effect call (as_store st) = as_store st" and "succeeded r"
    and "name = rpc_name call"
  shows "does_call audit_log peer call st (Ok r, svc_audit audit_log peer name d True st)"
  using does_callI [of r call st "as_store st" name True audit_log peer d] assms by simp

text \<open>The store operations in terms of their guards.\<close>

lemma uuid_parse_empty: "uuid_parse [] \<noteq> Ok b"
  by (simp add: uuid_parse_def)

lemma list_ex_key: "list_ex (\<lambda>u. f u = k) us \<longleftrightarrow> k \<in> f ` set us"
  by (auto simp: list_ex_iff)

lemma add_vless_user_cases:
  "(if (\<exists>b. uuid_parse (vu_id u) = Ok b) \<and> vu_id u \<notin> vu_id ` set (st_vless_users s)
    then add_vless_user u s = (Ok (), s\<lparr>st_vless_users := st_vless_users s @ [u]\<rparr>)
    else \<exists>e. add_vless_user u s = (Err e, s))"
  using returns_uuid_parse [of "vu_id u"]
  by (cases "uuid_parse (vu_id u)") (auto simp: add_vless_user_def list_ex_key)

lemma add_socks5_user_cases:
  "(if uc_username u \<noteq> [] \<and> uc_password u \<noteq> [] \<and> uc_username u \<notin> uc_username ` set (st_socks_users s)
    then add_socks5_user u s = (Ok (), s\<lparr>st_socks_users := st_socks_users s @ [u]\<rparr>)
    else \<exists>e. add_socks5_user u s = (Err e, s))"
  by (auto simp: add_socks5_user_def list_ex_key)

lemma remove_user_cases:
  "(if k \<in> vu_id ` set (st_vless_users s)
    then remove_vless_user k s = (Ok (), s\<lparr>st_vless_users := filter (\<lambda>u. vu_id u \<noteq> k) (st_vless_users s)\<rparr>)
    else \<exists>e. remove_vless_user k s = (Err e, s))"
  "(if k \<in> uc_username ` set (st_socks_users s)
    then remove_socks5_user k s = (Ok (), s\<lparr>st_socks_users := filter (\<lambda>u. uc_username u \<noteq> k) (st_socks_users s)\<rparr>)
    else \<exists>e. remove_socks5_user k s = (Err e, s))"
  using filter_key_same [of vu_id k "st_vless_users s"] filter_key_same [of uc_username k "st_socks_users s"]
  by (auto simp: remove_vless_user_def remove_socks5_user_def Let_def filter_length_eq)

lemma rpc_correct: "does_call audit_log peer call st (rpc audit_log peer call st)"
proof (cases call)
  case (AddVlessUser u)
  show ?thesis
  proof (cases u)
    case None
    with AddVlessUser show ?thesis by (simp add: rpc_def rpc_add_vless_user_def does_refuse)
  next
    case (Some v)
    let ?new = "\<lparr>vu_id = pv_id v, vu_email = optional_string (pv_email v), vu_flow = None\<rparr>"
    show ?thesis
      using AddVlessUser Some add_vless_user_cases [of ?new "as_store st"]
      by (auto simp: rpc_def rpc_add_vless_user_def optional_string_def uuid_parse_empty
          intro!: does_refuse does_mutation split: if_split_asm)
  qed
next
  case (RemoveVlessUser i)
  then show ?thesis using remove_user_cases(1) [of i "as_store st"]
    by (auto simp: rpc_def rpc_remove_vless_user_def intro!: does_refuse does_mutation split: if_split_asm)
next
  case (AddSocks5User u)
  show ?thesis
  proof (cases u)
    case None
    with AddSocks5User show ?thesis by (simp add: rpc_def rpc_add_socks5_user_def does_refuse)
  next
    case (Some v)
    show ?thesis
      using AddSocks5User Some
        add_socks5_user_cases [of "\<lparr>uc_username = ps_username v, uc_password = ps_password v\<rparr>" "as_store st"]
      by (auto simp: rpc_def rpc_add_socks5_user_def intro!: does_mutation split: if_split_asm)
  qed
next
  case (RemoveSocks5User n)
  then show ?thesis using remove_user_cases(2) [of n "as_store st"]
    by (auto simp: rpc_def rpc_remove_socks5_user_def intro!: does_refuse does_mutation split: if_split_asm)
qed (simp_all add: rpc_def rpc_list_vless_users_def rpc_list_socks5_users_def rpc_get_stats_def Let_def does_read)

section \<open>The limiter over time\<close>

text \<open>How many of the calls made at the given times are admitted in the second that starts at \<open>a\<close>.\<close>

fun admitted :: "instant \<Rightarrow> instant list \<Rightarrow> api_limiter \<Rightarrow> nat" where
  "admitted a [] l = 0"
| "admitted a (t # ts) l =
     (case api_check t l of
        (r, l') \<Rightarrow> (if r = Ok () \<and> a \<le> t \<and> t < a + from_secs 1 then 1 else 0) + admitted a ts l')"

lemma api_check_cases:
  "api_check t l =
     (let fresh = (t - ws_start (al_state l) \<ge> al_window l);
          c = (if fresh then 0 else ws_count (al_state l));
          s = (if fresh then t else ws_start (al_state l))
      in if c < al_limit l
         then (Ok (), l\<lparr>al_state := \<lparr>ws_start = s, ws_count = c + 1\<rparr>\<rparr>)
         else (Err (ResourceExhausted (lit ''rate limit exceeded'')), l\<lparr>al_state := \<lparr>ws_start = s, ws_count = c\<rparr>\<rparr>))"
  by (cases "al_state l") (simp add: api_check_def Let_def not_less)

lemma admitted_late: "list_all (\<lambda>t. a + from_secs 1 \<le> t) ts \<Longrightarrow> admitted a ts l = 0"
  by (induction ts arbitrary: l) (auto split: prod.split)

definition timely :: "instant list \<Rightarrow> api_limiter \<Rightarrow> bool" where
  "timely ts l \<longleftrightarrow> sorted ts \<and> list_all (\<lambda>t. ws_start (al_state l) \<le> t) ts \<and>
     al_window l = from_secs 1 \<and> 0 < al_limit l \<and> ws_count (al_state l) \<le> al_limit l"

abbreviation "limit_of l \<equiv> unat (al_limit l)"
abbreviation "count_of l \<equiv> unat (ws_count (al_state l))"
abbreviation "start_of l \<equiv> ws_start (al_state l)"

text \<open>One check: within the window while there is quota, within a used-up window, or in a new one.\<close>

lemma check_step:
  assumes "timely (t # ts) l"
  obtains (within) "t < start_of l + from_secs 1" "fst (api_check t l) = Ok ()"
      "start_of (snd (api_check t l)) = start_of l" "count_of (snd (api_check t l)) = count_of l + 1"
    | (used_up) "t < start_of l + from_secs 1" "fst (api_check t l) \<noteq> Ok ()"
      "start_of (snd (api_check t l)) = start_of l" "count_of (snd (api_check t l)) = count_of l"
    | (renewed) "start_of l + from_secs 1 \<le> t" "fst (api_check t l) = Ok ()"
      "start_of (snd (api_check t l)) = t" "count_of (snd (api_check t l)) = 1"
proof (cases "al_window l \<le> t - start_of l")
  case True
  with assms show ?thesis
    by (intro renewed) (auto simp: api_check_cases Let_def timely_def from_secs_def)
next
  case False
  with assms have lt: "t < start_of l + from_secs 1" by (auto simp: timely_def)
  show ?thesis
  proof (cases "ws_count (al_state l) < al_limit l")
    case True
    with False lt show ?thesis by (intro within) (auto simp: api_check_cases Let_def unat_succ_below)
  next
    case full: False
    with False lt show ?thesis by (intro used_up) (auto simp: api_check_cases Let_def)
  qed
qed

lemma timely_step:
  assumes "timely (t # ts) l"
  shows "timely ts (snd (api_check t l))" and "limit_of (snd (api_check t l)) = limit_of l"
proof -
  have "limit_of (snd (api_check t l)) = limit_of l" "al_limit (snd (api_check t l)) = al_limit l"
    by (simp_all add: api_check_cases Let_def)
  then show "limit_of (snd (api_check t l)) = limit_of l" by blast
  show "timely ts (snd (api_check t l))"
    using assms
    using unat_succ_below [of 0 "al_limit l"] unat_succ_below [of "ws_count (al_state l)" "al_limit l"]
    by (auto simp: timely_def api_check_cases Let_def list_all_iff)
qed

lemma admitted_Cons:
  "admitted a (t # ts) l =
     (if fst (api_check t l) = Ok () \<and> a \<le> t \<and> t < a + from_secs 1 then 1 else 0) +
     admitted a ts (snd (api_check t l))"
  by (cases "api_check t l") simp

declare admitted.simps(2) [simp del]

lemma timely_count: "timely ts l \<Longrightarrow> count_of l \<le> limit_of l"
  by (simp add: timely_def word_le_nat_alt)

lemma timely_later: "timely (t # ts) l \<Longrightarrow> b \<le> t \<Longrightarrow> list_all (\<lambda>t. b \<le> t) (t # ts)"
  by (auto simp: timely_def list_all_iff)

lemma admitted_in_window:
  "timely ts l \<Longrightarrow> a \<le> start_of l \<Longrightarrow> admitted a ts l \<le> limit_of l - count_of l"
proof (induction ts arbitrary: l)
  case (Cons t ts)
  note step = timely_step [OF Cons.prems(1)]
  note IH = Cons.IH [OF step(1)] and cnt = timely_count [OF step(1)]
  from Cons.prems(1) show ?case
  proof (cases rule: check_step)
    case within
    then show ?thesis using IH cnt Cons.prems(2) step(2) by (auto simp: admitted_Cons)
  next
    case used_up
    then show ?thesis using IH cnt Cons.prems(2) step(2) by (auto simp: admitted_Cons)
  next
    case renewed
    then have "a + from_secs 1 \<le> t" using Cons.prems(2) by simp
    then show ?thesis using admitted_late timely_later [OF Cons.prems(1)] by simp
  qed
qed simp

lemma admitted_two_windows:
  "timely ts l \<Longrightarrow> list_all (\<lambda>t. a \<le> t) ts \<Longrightarrow> admitted a ts l \<le> 2 * limit_of l - count_of l"
proof (induction ts arbitrary: l)
  case (Cons t ts)
  note step = timely_step [OF Cons.prems(1)]
  note IH = Cons.IH [OF step(1)] and cnt = timely_count [OF step(1)] timely_count [OF Cons.prems(1)]
  from Cons.prems(1) show ?case
  proof (cases rule: check_step)
    case within
    then show ?thesis using IH cnt Cons.prems(2) step(2) by (auto simp: admitted_Cons)
  next
    case used_up
    then show ?thesis using IH cnt Cons.prems(2) step(2) by (auto simp: admitted_Cons)
  next
    case renewed
    then have "admitted a ts (snd (api_check t l)) \<le> limit_of l - 1"
      using admitted_in_window [OF step(1), of a] Cons.prems(2) step(2) by simp
    then show ?thesis using renewed cnt step(2) by (auto simp: admitted_Cons)
  qed
qed simp

lemma admitted_any: "timely ts l \<Longrightarrow> admitted a ts l \<le> 2 * limit_of l"
proof (induction ts arbitrary: l)
  case (Cons t ts)
  note step = timely_step [OF Cons.prems(1)]
  show ?case
  proof (cases "a \<le> t")
    case True
    then show ?thesis
      using admitted_two_windows [OF Cons.prems timely_later [OF Cons.prems True]] by linarith
  next
    case False
    with Cons.IH [OF step(1)] step(2) show ?thesis by (simp add: admitted_Cons)
  qed
qed simp

section \<open>Properties\<close>

text \<open>C15: no call reaches the service without the token. Whatever the state and the time, a request
  whose authorization header is not \<open>Bearer <token>\<close> is answered with an error status and the user
  store is untouched (the request has still used the quota of the rate limiter, which runs first);
  a request with the header that the limiter admits is answered by the call itself.\<close>
theorem api_requires_token:
  "if Option.bind (rq_authorization req) to_str \<noteq> Some (lit ''Bearer '' @ token)
   then \<exists>status st'. serve_call to_str token audit_log req call now st = (Err status, st') \<and>
       as_store st' = as_store st \<and> as_limiter st' = map_option (\<lambda>l. snd (api_check now l)) (as_limiter st)
   else case as_limiter st of
       None \<Rightarrow> serve_call to_str token audit_log req call now st = rpc audit_log (rq_peer req) call st
     | Some l \<Rightarrow>
         if fst (api_check now l) = Ok ()
         then serve_call to_str token audit_log req call now st =
                rpc audit_log (rq_peer req) call (st\<lparr>as_limiter := Some (snd (api_check now l))\<rparr>)
         else fst (serve_call to_str token audit_log req call now st) =
                Err (ResourceExhausted (lit ''rate limit exceeded''))"
  by (auto simp: serve_call_def interceptor_def check_auth_def api_check_cases Let_def audit_auth_failure_def
      audit_rate_limited_def split: option.splits)

text \<open>C14: the calls implement their specification. Every call answers; it reports success exactly
  when it is allowed in the current store, it then has its effect on the store and otherwise leaves
  the store as it is, and with auditing on it writes exactly one record, which tells the outcome.\<close>
theorem rpc_implements_spec:
  "\<exists>r detail. rpc audit_log peer call st =
     (Ok r, st\<lparr>as_store := (if api_allows call (as_store st) then api_effect call (as_store st) else as_store st),
        as_audit := as_audit st @
          (if audit_log then [AuditRpc (peer_text peer) (rpc_name call) detail (succeeded r)] else [])\<rparr>) \<and>
     (succeeded r \<longleftrightarrow> api_allows call (as_store st))"
  using rpc_correct unfolding does_call_def .

text \<open>C40: the fixed-window limiter admits at most twice its limit in any second, however the calls
  are spaced.\<close>
theorem api_rate_bound:
  assumes "api_limiter_new (Some limit) t0 = Some l" and "sorted (t0 # ts)"
  shows "admitted a ts l \<le> 2 * unat limit"
  using admitted_any [of ts l a] assms
  by (auto simp: api_limiter_new_def timely_def list_all_iff split: if_split_asm)

theorem api_rate_bound_witness:
  "admitted 500000000 [900000000, 900000001, 1000000000, 1000000001, 1000000002]
     \<lparr>al_limit = 2, al_window = from_secs 1, al_state = \<lparr>ws_start = 0, ws_count = 0\<rparr>\<rparr> \<le> 4"
  using api_rate_bound [of 2 0 "\<lparr>al_limit = 2, al_window = from_secs 1, al_state = \<lparr>ws_start = 0, ws_count = 0\<rparr>\<rparr>"
      "[900000000, 900000001, 1000000000, 1000000001, 1000000002]" 500000000]
  by (simp add: api_limiter_new_def)

end
