(* ===== verification/Net_Text.thy ===== *)
theory Net_Text
  imports Endpoint Text_Format
begin

text \<open>
  Text forms of the standard library that the configuration and the log and error texts rely on:
  \<open>FromStr\<close> of the unsigned integers and of \<open>Ipv4Addr\<close>, \<open>Ipv6Addr\<close>, \<open>IpAddr\<close> and \<open>SocketAddr\<close>,
  their \<open>Display\<close>, and the operations on \<open>str\<close> that split, compare without case and replace.
  Strings are their UTF-8 bytes. A parser returns the value and what is left of its input.
\<close>

section \<open>Numbers\<close>

text \<open>\<open>char::to_digit\<close> on a byte.\<close>

definition to_digit :: "nat \<Rightarrow> u8 \<Rightarrow> nat option" where
  "to_digit radix b =
     (let d = (if 0x30 \<le> b \<and> b \<le> 0x39 then unat b - 0x30
               else if 0x61 \<le> b \<and> b \<le> 0x7A then unat b - 0x61 + 10
               else if 0x41 \<le> b \<and> b \<le> 0x5A then unat b - 0x41 + 10 else radix)
      in if d < radix then Some d else None)"

text \<open>
  \<open>Parser::read_number\<close>: digits are taken as long as there are any; the number must stay below
  \<open>bound\<close> (the checked arithmetic of its type) and within \<open>max_digits\<close>.
\<close>

fun read_digits :: "nat \<Rightarrow> nat \<Rightarrow> nat option \<Rightarrow> nat \<Rightarrow> nat \<Rightarrow> rstring \<Rightarrow> (nat \<times> nat \<times> rstring) option" where
  "read_digits radix bound max_digits acc count [] = Some (acc, count, [])"
| "read_digits radix bound max_digits acc count (b # bs) =
     (case to_digit radix b of
        None \<Rightarrow> Some (acc, count, b # bs)
      | Some d \<Rightarrow>
          if acc * radix + d \<ge> bound then None
          else if (case max_digits of Some m \<Rightarrow> Suc count > m | None \<Rightarrow> False) then None
          else read_digits radix bound max_digits (acc * radix + d) (Suc count) bs)"

definition read_number ::
  "nat \<Rightarrow> nat \<Rightarrow> nat option \<Rightarrow> bool \<Rightarrow> rstring \<Rightarrow> (nat \<times> rstring) option" where
  "read_number radix bound max_digits allow_zero_prefix s =
     (case read_digits radix bound max_digits 0 0 s of
        None \<Rightarrow> None
      | Some (n, count, rest) \<Rightarrow>
          if count = 0 then None
          else if \<not> allow_zero_prefix \<and> hd s = 0x30 \<and> count > 1 then None
          else Some (n, rest))"

text \<open>\<open>u16::from_str\<close> and the like: an optional plus sign, digits, no overflow.\<close>

definition parse_uint :: "nat \<Rightarrow> rstring \<Rightarrow> nat option" where
  "parse_uint bound s =
     (let digits = (if s \<noteq> [] \<and> hd s = 0x2B then tl s else s) in
      case read_number 10 bound None True digits of
        Some (n, []) \<Rightarrow> Some n
      | _ \<Rightarrow> None)"

definition parse_u16 :: "rstring \<Rightarrow> u16 option" where
  "parse_u16 s = map_option word_of_nat (parse_uint 65536 s)"

definition parse_u32 :: "rstring \<Rightarrow> u32 option" where
  "parse_u32 s = map_option word_of_nat (parse_uint (2 ^ 32) s)"

definition parse_u64 :: "rstring \<Rightarrow> u64 option" where
  "parse_u64 s = map_option word_of_nat (parse_uint (2 ^ 64) s)"

section \<open>Addresses\<close>

fun read_char :: "u8 \<Rightarrow> rstring \<Rightarrow> rstring option" where
  "read_char c [] = None"
| "read_char c (b # bs) = (if b = c then Some bs else None)"

text \<open>\<open>read_separator\<close>: every part but the first follows a separator.\<close>

definition read_separator :: "u8 \<Rightarrow> nat \<Rightarrow> (rstring \<Rightarrow> ('a \<times> rstring) option) \<Rightarrow> rstring \<Rightarrow> ('a \<times> rstring) option" where
  "read_separator sep index inner s =
     (if index = 0 then inner s else Option.bind (read_char sep s) inner)"

definition read_octet :: "rstring \<Rightarrow> (u8 \<times> rstring) option" where
  "read_octet s = map_option (\<lambda>(n, rest). (word_of_nat n, rest)) (read_number 10 256 (Some 3) False s)"

definition read_ipv4 :: "rstring \<Rightarrow> (ipv4 \<times> rstring) option" where
  "read_ipv4 s =
     Option.bind (read_octet s) (\<lambda>(a, s).
     Option.bind (read_separator 0x2E 1 read_octet s) (\<lambda>(b, s).
     Option.bind (read_separator 0x2E 2 read_octet s) (\<lambda>(c, s).
     Option.bind (read_separator 0x2E 3 read_octet s) (\<lambda>(d, s). Some (Ipv4 a b c d, s)))))"

text \<open>
  \<open>read_groups\<close>: at most \<open>limit\<close> more groups, of which \<open>i\<close> have been read; the flag tells whether
  the last two are an embedded IPv4 address.
\<close>

fun read_groups :: "nat \<Rightarrow> nat \<Rightarrow> rstring \<Rightarrow> u16 list \<times> bool \<times> rstring" where
  "read_groups 0 i s = ([], False, s)"
| "read_groups (Suc limit) i s =
     (case (if limit > 0 then read_separator 0x3A i read_ipv4 s else None) of
        Some (Ipv4 a b c d, s') \<Rightarrow> ([u16_from_be a b, u16_from_be c d], True, s')
      | None \<Rightarrow>
          (case read_separator 0x3A i (read_number 16 65536 (Some 4) True) s of
             None \<Rightarrow> ([], False, s)
           | Some (g, s') \<Rightarrow>
               (case read_groups limit (Suc i) s' of
                  (gs, v4, s'') \<Rightarrow> (word_of_nat g # gs, v4, s''))))"

definition ipv6_of_groups :: "u16 list \<Rightarrow> ipv6" where
  "ipv6_of_groups gs = Ipv6 (gs ! 0) (gs ! 1) (gs ! 2) (gs ! 3) (gs ! 4) (gs ! 5) (gs ! 6) (gs ! 7)"

definition read_ipv6 :: "rstring \<Rightarrow> (ipv6 \<times> rstring) option" where
  "read_ipv6 s =
     (case read_groups 8 0 s of
        (head, head_v4, s) \<Rightarrow>
          if length head = 8 then Some (ipv6_of_groups head, s)
          else if head_v4 then None
          else
            Option.bind (read_char 0x3A s) (\<lambda>s.
            Option.bind (read_char 0x3A s) (\<lambda>s.
            case read_groups (8 - (length head + 1)) 0 s of
              (tail, _, s) \<Rightarrow>
                Some (ipv6_of_groups (head @ replicate (8 - length head - length tail) 0 @ tail), s))))"

definition read_port :: "rstring \<Rightarrow> (u16 \<times> rstring) option" where
  "read_port s =
     Option.bind (read_char 0x3A s) (\<lambda>s.
     map_option (\<lambda>(n, s). (word_of_nat n, s)) (read_number 10 65536 None True s))"

definition read_scope_id :: "rstring \<Rightarrow> (u32 \<times> rstring) option" where
  "read_scope_id s =
     Option.bind (read_char 0x25 s) (\<lambda>s.
     map_option (\<lambda>(n, s). (word_of_nat n, s)) (read_number 10 (2 ^ 32) None True s))"

definition read_sock_v4 :: "rstring \<Rightarrow> (socket_addr \<times> rstring) option" where
  "read_sock_v4 s =
     Option.bind (read_ipv4 s) (\<lambda>(ip, s).
     Option.bind (read_port s) (\<lambda>(port, s). Some (SockV4 ip port, s)))"

definition read_sock_v6 :: "rstring \<Rightarrow> (socket_addr \<times> rstring) option" where
  "read_sock_v6 s =
     Option.bind (read_char 0x5B s) (\<lambda>s.
     Option.bind (read_ipv6 s) (\<lambda>(ip, s).
     let (scope, s) = (case read_scope_id s of Some (i, s') \<Rightarrow> (i, s') | None \<Rightarrow> (0, s)) in
     Option.bind (read_char 0x5D s) (\<lambda>s.
     Option.bind (read_port s) (\<lambda>(port, s). Some (SockV6 ip port 0 scope, s)))))"

text \<open>\<open>parse_with\<close>: the whole input has to be read.\<close>

definition whole :: "('a \<times> rstring) option \<Rightarrow> 'a option" where
  "whole r = (case r of Some (x, []) \<Rightarrow> Some x | _ \<Rightarrow> None)"

definition parse_ipv4 :: "rstring \<Rightarrow> ipv4 option" where
  "parse_ipv4 s = (if length s > 15 then None else whole (read_ipv4 s))"

definition parse_ip :: "rstring \<Rightarrow> ip_addr option" where
  "parse_ip s =
     whole (case read_ipv4 s of
        Some (ip, rest) \<Rightarrow> Some (V4 ip, rest)
      | None \<Rightarrow> map_option (\<lambda>(ip, rest). (V6 ip, rest)) (read_ipv6 s))"

definition parse_socket_addr :: "rstring \<Rightarrow> socket_addr option" where
  "parse_socket_addr s =
     whole (case read_sock_v4 s of Some r \<Rightarrow> Some r | None \<Rightarrow> read_sock_v6 s)"

fun ip_is_unspecified :: "ip_addr \<Rightarrow> bool" where
  "ip_is_unspecified (V4 ip) = v4_is_unspecified ip"
| "ip_is_unspecified (V6 ip) = v6_is_unspecified ip"

section \<open>Display\<close>

fun fmt_ipv4 :: "ipv4 \<Rightarrow> rstring" where
  "fmt_ipv4 (Ipv4 a b c d) =
     fmt_dec (unat a) @ [0x2E] @ fmt_dec (unat b) @ [0x2E] @ fmt_dec (unat c) @ [0x2E] @ fmt_dec (unat d)"

fun fmt_hex :: "nat \<Rightarrow> rstring" where
  "fmt_hex n = (if n < 16 then [hex_digit n] else fmt_hex (n div 16) @ [hex_digit (n mod 16)])"

declare fmt_hex.simps [simp del]

text \<open>Segments separated by colons.\<close>

fun fmt_segments :: "u16 list \<Rightarrow> rstring" where
  "fmt_segments [] = []"
| "fmt_segments [g] = fmt_hex (unat g)"
| "fmt_segments (g # gs) = fmt_hex (unat g) @ [0x3A] @ fmt_segments gs"

text \<open>The first longest run of zero segments: the run so far, the best one, the position.\<close>

fun zero_span :: "nat \<Rightarrow> nat \<times> nat \<Rightarrow> nat \<times> nat \<Rightarrow> u16 list \<Rightarrow> nat \<times> nat" where
  "zero_span i cur best [] = best"
| "zero_span i (start, len) best (g # gs) =
     (if g = 0 then
        (let cur = (if len = 0 then i else start, len + 1);
             best = (if snd cur > snd best then cur else best)
         in zero_span (Suc i) cur best gs)
      else zero_span (Suc i) (0, 0) best gs)"

fun ipv6_segments :: "ipv6 \<Rightarrow> u16 list" where
  "ipv6_segments (Ipv6 s0 s1 s2 s3 s4 s5 s6 s7) = [s0, s1, s2, s3, s4, s5, s6, s7]"

definition fmt_ipv6 :: "ipv6 \<Rightarrow> rstring" where
  "fmt_ipv6 ip =
     (case v6_to_ipv4_mapped ip of
        Some v4 \<Rightarrow> lit ''::ffff:'' @ fmt_ipv4 v4
      | None \<Rightarrow>
          (let segs = ipv6_segments ip; (start, len) = zero_span 0 (0, 0) (0, 0) segs in
           if len > 1 then fmt_segments (take start segs) @ lit ''::'' @ fmt_segments (drop (start + len) segs)
           else fmt_segments segs))"

fun fmt_ip :: "ip_addr \<Rightarrow> rstring" where
  "fmt_ip (V4 ip) = fmt_ipv4 ip"
| "fmt_ip (V6 ip) = fmt_ipv6 ip"

fun fmt_sock :: "socket_addr \<Rightarrow> rstring" where
  "fmt_sock (SockV4 ip port) = fmt_ipv4 ip @ [0x3A] @ fmt_dec (unat port)"
| "fmt_sock (SockV6 ip port flow scope) =
     [0x5B] @ fmt_ipv6 ip @ (if scope = 0 then [] else [0x25] @ fmt_dec (unat scope)) @ [0x5D, 0x3A] @
     fmt_dec (unat port)"

section \<open>Operations on \<open>str\<close>\<close>

definition ends_with :: "rstring \<Rightarrow> rstring \<Rightarrow> bool" where
  "ends_with s p = starts_with (rev s) (rev p)"

definition strip_prefix :: "rstring \<Rightarrow> rstring \<Rightarrow> rstring option" where
  "strip_prefix s p = (if starts_with s p then Some (drop (length p) s) else None)"

text \<open>\<open>split_once\<close> and \<open>rsplit_once\<close> at an ASCII character.\<close>

fun split_once :: "u8 \<Rightarrow> rstring \<Rightarrow> (rstring \<times> rstring) option" where
  "split_once c [] = None"
| "split_once c (b # bs) =
     (if b = c then Some ([], bs)
      else map_option (\<lambda>(l, r). (b # l, r)) (split_once c bs))"

definition rsplit_once :: "u8 \<Rightarrow> rstring \<Rightarrow> (rstring \<times> rstring) option" where
  "rsplit_once c s = map_option (\<lambda>(r, l). (rev l, rev r)) (split_once c (rev s))"

text \<open>\<open>split\<close> at an ASCII character: never empty.\<close>

fun split_on :: "u8 \<Rightarrow> rstring \<Rightarrow> rstring list" where
  "split_on c [] = [[]]"
| "split_on c (b # bs) =
     (case split_on c bs of
        p # ps \<Rightarrow> if b = c then [] # p # ps else (b # p) # ps
      | [] \<Rightarrow> [])"

definition ascii_lower :: "u8 \<Rightarrow> u8" where
  "ascii_lower b = (if 0x41 \<le> b \<and> b \<le> 0x5A then b + 0x20 else b)"

definition to_ascii_lowercase :: "rstring \<Rightarrow> rstring" where
  "to_ascii_lowercase s = map ascii_lower s"

definition eq_ignore_ascii_case :: "rstring \<Rightarrow> rstring \<Rightarrow> bool" where
  "eq_ignore_ascii_case a b \<longleftrightarrow> to_ascii_lowercase a = to_ascii_lowercase b"

text \<open>\<open>replace\<close> of one character.\<close>

definition replace_char :: "u8 \<Rightarrow> rstring \<Rightarrow> rstring \<Rightarrow> rstring" where
  "replace_char c by_s s = concat (map (\<lambda>b. if b = c then by_s else [b]) s)"

definition trim_start_char :: "u8 \<Rightarrow> rstring \<Rightarrow> rstring" where
  "trim_start_char c s = dropWhile (\<lambda>b. b = c) s"

definition trim_end_char :: "u8 \<Rightarrow> rstring \<Rightarrow> rstring" where
  "trim_end_char c s = rev (dropWhile (\<lambda>b. b = c) (rev s))"

text \<open>How many bytes the white space character has that a text begins with, zero for none.\<close>

fun ws_len :: "rstring \<Rightarrow> nat" where
  "ws_len [] = 0"
| "ws_len (a # s) =
     (if ws_ascii a then 1
      else case s of
          b # s' \<Rightarrow> if ws_two a b then 2 else (case s' of c # _ \<Rightarrow> if ws_three a b c then 3 else 0 | [] \<Rightarrow> 0)
        | [] \<Rightarrow> 0)"

text \<open>\<open>split_whitespace\<close>; \<open>cur\<close> is the current word, reversed.\<close>

function split_ws :: "rstring \<Rightarrow> rstring \<Rightarrow> rstring list" where
  "split_ws cur s =
     (if s = [] then (if cur = [] then [] else [rev cur])
      else if ws_len s > 0 then (if cur = [] then [] else [rev cur]) @ split_ws [] (drop (ws_len s) s)
      else split_ws (hd s # cur) (tl s))"
  by pat_completeness auto
termination
  by (relation "measure (\<lambda>(cur, s). length s)") auto

declare split_ws.simps [simp del]

definition split_whitespace :: "rstring \<Rightarrow> rstring list" where
  "split_whitespace s = split_ws [] s"

fun join :: "rstring \<Rightarrow> rstring list \<Rightarrow> rstring" where
  "join sep [] = []"
| "join sep [s] = s"
| "join sep (s # ss) = s @ sep @ join sep ss"

section \<open>Round trips\<close>

definition is_digit :: "u8 \<Rightarrow> bool" where
  "is_digit b \<longleftrightarrow> 0x30 \<le> b \<and> b \<le> 0x39"

lemma to_digit_10: "to_digit 10 b = (if is_digit b then Some (unat (b - 0x30)) else None)"
proof (cases "is_digit b")
  case True
  then have "0x30 \<le> b" "unat b \<le> 0x39" by (simp_all add: is_digit_def word_le_nat_alt)
  then have "unat (b - 0x30) = unat b - 0x30" by (simp add: unat_sub)
  with True \<open>unat b \<le> 0x39\<close> show ?thesis by (simp add: to_digit_def is_digit_def Let_def)
next
  case False
  then show ?thesis by (auto simp: to_digit_def is_digit_def Let_def)
qed

text \<open>Digits are read up to the first other byte; their value is the number.\<close>

lemma dec_value_mono: "acc \<le> dec_value acc ds"
proof (induction ds arbitrary: acc)
  case (Cons d ds)
  have "acc \<le> acc * 10 + unat (d - 0x30)" by simp
  also have "\<dots> \<le> dec_value (acc * 10 + unat (d - 0x30)) ds" by (rule Cons)
  finally show ?case by simp
qed simp

lemma read_digits_decimal:
  assumes "list_all is_digit ds" and "dec_value acc ds < bound"
    and "rest = [] \<or> \<not> is_digit (hd rest)" and "\<And>m. max_digits = Some m \<Longrightarrow> count + length ds \<le> m"
  shows "read_digits 10 bound max_digits acc count (ds @ rest) = Some (dec_value acc ds, count + length ds, rest)"
  using assms
proof (induction ds arbitrary: acc count)
  case Nil
  then show ?case by (cases rest) (simp_all add: to_digit_10)
next
  case (Cons d ds)
  have "acc * 10 + unat (d - 0x30) < bound"
    using Cons.prems(2) dec_value_mono [of "acc * 10 + unat (d - 0x30)" ds] by simp
  moreover have "count + Suc (length ds) \<le> m" if "max_digits = Some m" for m
    using Cons.prems(4) [OF that] by simp
  ultimately show ?case
    using Cons by (fastforce simp: to_digit_10 split: option.splits)
qed

lemma fmt_dec_all_digits: "list_all is_digit (fmt_dec n)"
  by (simp add: list_all_iff is_digit_def fmt_dec_digits)

lemma unat_0x30: "unat (0x30 :: u8) = 0x30"
  by simp

lemma hd_fmt_dec: "n \<noteq> 0 \<Longrightarrow> hd (fmt_dec n) \<noteq> 0x30"
proof (induction n rule: fmt_dec.induct)
  case (1 n)
  show ?case
  proof (cases "n < 10")
    case True
    have "unat (word_of_nat (0x30 + n) :: u8) = 0x30 + n" using True by (simp add: unat_of_nat del: of_nat_add)
    with "1.prems" have "(word_of_nat (0x30 + n) :: u8) \<noteq> 0x30" by (metis add.right_neutral add_left_cancel unat_0x30)
    with True show ?thesis by (simp add: fmt_dec.simps [of n] del: of_nat_add)
  next
    case False
    with 1 show ?thesis by (simp add: fmt_dec.simps [of n] hd_append)
  qed
qed

lemma length_fmt_dec_u8: "n < 256 \<Longrightarrow> length (fmt_dec n) \<le> 3"
  by (simp add: fmt_dec.simps [of n] fmt_dec.simps [of "n div 10"] fmt_dec.simps [of "n div 10 div 10"])

lemma read_number_fmt_dec:
  assumes "n < bound" and "rest = [] \<or> \<not> is_digit (hd rest)"
    and "\<And>m. max_digits = Some m \<Longrightarrow> length (fmt_dec n) \<le> m"
  shows "read_number 10 bound max_digits zero_prefix (fmt_dec n @ rest) = Some (n, rest)"
proof -
  have "read_digits 10 bound max_digits 0 0 (fmt_dec n @ rest) = Some (n, length (fmt_dec n), rest)"
    using read_digits_decimal [OF fmt_dec_all_digits, of 0 n bound rest max_digits 0] assms
    by (simp add: dec_value_fmt_dec)
  moreover have "hd (fmt_dec n @ rest) = 0x30 \<Longrightarrow> length (fmt_dec n) \<le> 1"
    using hd_fmt_dec [of n] by (cases "n = 0") (simp_all add: fmt_dec.simps [of 0] hd_append)
  ultimately show ?thesis by (auto simp: read_number_def)
qed

lemma parse_uint_fmt_dec: "n < bound \<Longrightarrow> parse_uint bound (fmt_dec n) = Some n"
proof -
  assume "n < bound"
  then have "read_number 10 bound None True (fmt_dec n) = Some (n, [])"
    using read_number_fmt_dec [of n bound "[]" None True] by simp
  moreover have "hd (fmt_dec n) \<noteq> 0x2B"
  proof
    assume "hd (fmt_dec n) = 0x2B"
    moreover have "0x30 \<le> hd (fmt_dec n)" using fmt_dec_digits [of "hd (fmt_dec n)" n] by simp
    ultimately show False by simp
  qed
  ultimately show ?thesis by (simp add: parse_uint_def)
qed

lemma parse_u16_fmt_dec [simp]: "parse_u16 (fmt_dec (unat p)) = Some p"
  by (simp add: parse_u16_def parse_uint_fmt_dec)

lemma not_digit_sep [simp]: "\<not> is_digit 0x2E" "\<not> is_digit 0x3A" "\<not> is_digit 0x5D"
  by (simp_all add: is_digit_def)

lemma read_octet_fmt: "rest = [] \<or> \<not> is_digit (hd rest) \<Longrightarrow> read_octet (fmt_dec (unat a) @ rest) = Some (a, rest)"
  using read_number_fmt_dec [of "unat a" 256 rest "Some 3" False] length_fmt_dec_u8 [of "unat a"]
  by (simp add: read_octet_def)

lemma read_ipv4_fmt: "rest = [] \<or> \<not> is_digit (hd rest) \<Longrightarrow> read_ipv4 (fmt_ipv4 ip @ rest) = Some (ip, rest)"
  by (cases ip) (simp add: read_ipv4_def read_separator_def read_octet_fmt)

lemma parse_ip_fmt_ipv4: "parse_ip (fmt_ipv4 ip) = Some (V4 ip)"
  using read_ipv4_fmt [of "[]" ip] by (simp add: parse_ip_def whole_def)

text \<open>The text of an IPv4 socket address is read back.\<close>

lemma parse_fmt_sock_v4: "parse_socket_addr (fmt_sock (SockV4 ip port)) = Some (SockV4 ip port)"
proof -
  have "read_ipv4 (fmt_ipv4 ip @ 0x3A # fmt_dec (unat port)) = Some (ip, 0x3A # fmt_dec (unat port))"
    by (rule read_ipv4_fmt) simp
  moreover have "read_port (0x3A # fmt_dec (unat port)) = Some (port, [])"
    using read_number_fmt_dec [of "unat port" 65536 "[]" None True] by (simp add: read_port_def)
  ultimately have "read_sock_v4 (fmt_sock (SockV4 ip port)) = Some (SockV4 ip port, [])"
    by (simp add: read_sock_v4_def)
  then show ?thesis by (simp add: parse_socket_addr_def whole_def)
qed

end
