(* ===== verification/Inbound.thy ===== *)
theory Inbound
  imports Socks5_Handler Vless_Handler Net_Text
begin

text \<open>
  Which protocol a connection speaks and the handshake it gets: \<open>crates/skadi-core/src/protocol.rs\<close>
  (the two protocols, the enabled ones, detection by the first byte),
  \<open>crates/skadi-protocol/src/inbound.rs\<close> (the common result of the handshakes and the dispatch), and
  the texts of the handshake errors, because \<open>is_auth_failure\<close> of
  \<open>crates/skadi-server/src/auth_rate_limit.rs\<close> looks for words in them.
\<close>

section \<open>Protocols\<close>

definition SOCKS5_WIRE_BYTE :: u8 where [simp]: "SOCKS5_WIRE_BYTE = 0x05"
definition VLESS_WIRE_BYTE :: u8 where [simp]: "VLESS_WIRE_BYTE = 0x00"

datatype protocol = Socks5 | Vless

fun wire_byte :: "protocol \<Rightarrow> u8" where
  "wire_byte Socks5 = SOCKS5_WIRE_BYTE"
| "wire_byte Vless = VLESS_WIRE_BYTE"

definition from_wire_byte :: "u8 \<Rightarrow> protocol option" where
  "from_wire_byte byte =
     (if byte = SOCKS5_WIRE_BYTE then Some Socks5
      else if byte = VLESS_WIRE_BYTE then Some Vless
      else None)"

fun metric_label :: "protocol \<Rightarrow> string" where
  "metric_label Socks5 = ''socks5''"
| "metric_label Vless = ''vless''"

record enabled_protocols =
  ep_socks5 :: bool
  ep_vless :: bool

definition enabled_count :: "enabled_protocols \<Rightarrow> nat" where
  "enabled_count e = of_bool (ep_socks5 e) + of_bool (ep_vless e)"

definition needs_sniffing :: "enabled_protocols \<Rightarrow> bool" where
  "needs_sniffing e \<longleftrightarrow> enabled_count e > 1"

fun sole_of :: "bool \<Rightarrow> bool \<Rightarrow> protocol option" where
  "sole_of True False = Some Socks5"
| "sole_of False True = Some Vless"
| "sole_of _ _ = None"

definition sole :: "enabled_protocols \<Rightarrow> protocol option" where
  "sole e = sole_of (ep_socks5 e) (ep_vless e)"

definition detect :: "enabled_protocols \<Rightarrow> u8 \<Rightarrow> (protocol, core_error) outcome" where
  "detect e byte =
     (case from_wire_byte byte of
        Some Socks5 \<Rightarrow> if ep_socks5 e then Ok Socks5 else Err (DisabledProtocol ''socks5'')
      | Some Vless \<Rightarrow> if ep_vless e then Ok Vless else Err (DisabledProtocol ''vless'')
      | None \<Rightarrow> Err (UnknownProtocolByte byte))"

lemma wire_bytes_roundtrip: "from_wire_byte (wire_byte p) = Some p"
  by (cases p) (simp_all add: from_wire_byte_def)

lemma needs_sniffing_iff: "needs_sniffing e \<longleftrightarrow> ep_socks5 e \<and> ep_vless e"
  by (cases "ep_socks5 e"; cases "ep_vless e") (simp_all add: needs_sniffing_def enabled_count_def)

lemma detect_Ok: "detect e byte = Ok p \<longleftrightarrow> byte = wire_byte p \<and> (case p of Socks5 \<Rightarrow> ep_socks5 e | Vless \<Rightarrow> ep_vless e)"
  by (cases p) (auto simp: detect_def from_wire_byte_def)

lemma sole_Some:
  "\<not> needs_sniffing e \<Longrightarrow> ep_socks5 e \<or> ep_vless e \<Longrightarrow>
     \<exists>p. sole e = Some p \<and> (case p of Socks5 \<Rightarrow> ep_socks5 e | Vless \<Rightarrow> ep_vless e)"
  by (cases "ep_socks5 e"; cases "ep_vless e") (simp_all add: needs_sniffing_iff sole_def)

section \<open>The dispatch\<close>

record inbound_request =
  ir_protocol :: protocol
  ir_command :: u8
  ir_target :: endpoint

definition from_socks5 :: "socks5_request \<Rightarrow> inbound_request" where
  "from_socks5 req = \<lparr>ir_protocol = Socks5, ir_command = sr_command req, ir_target = sr_target req\<rparr>"

definition from_vless :: "vless_handshake \<Rightarrow> inbound_request" where
  "from_vless hs = \<lparr>ir_protocol = Vless, ir_command = vh_command hs, ir_target = vh_target hs\<rparr>"

definition is_tcp_connect :: "inbound_request \<Rightarrow> bool" where
  "is_tcp_connect r =
     (case ir_protocol r of Socks5 \<Rightarrow> ir_command r = CMD_CONNECT | Vless \<Rightarrow> ir_command r = CMD_TCP)"

datatype inbound_error = InSocks5 socks5_error | InVless vless_error

definition socks5_inbound ::
  "ct_eq \<Rightarrow> 's reader \<Rightarrow> 's writer \<Rightarrow> socks5_config \<Rightarrow> ('s, inbound_request, inbound_error) io" where
  "socks5_inbound ct rd wr cfg =
     io_bind (io_map_err InSocks5 (negotiate ct rd wr cfg)) (\<lambda>req. io_lift (Ok (from_socks5 req)))"

definition vless_inbound ::
  "ct_eq \<Rightarrow> 's reader \<Rightarrow> 's writer \<Rightarrow> vless_config \<Rightarrow> ('s, inbound_request, inbound_error) io" where
  "vless_inbound ct rd wr cfg =
     io_bind (io_map_err InVless (vless_server_handshake ct rd wr cfg)) (\<lambda>hs. io_lift (Ok (from_vless hs)))"

definition handshake_inbound ::
  "ct_eq \<Rightarrow> protocol \<Rightarrow> 's reader \<Rightarrow> 's writer \<Rightarrow> socks5_config \<Rightarrow> vless_config \<Rightarrow>
     ('s, inbound_request, inbound_error) io" where
  "handshake_inbound ct protocol rd wr socks5 vless =
     (case protocol of
        Socks5 \<Rightarrow> socks5_inbound ct rd wr socks5
      | Vless \<Rightarrow> vless_inbound ct rd wr vless)"

context byte_stream
begin

lemma handshake_inbound_sim [sim_intros]:
  "sim view (handshake_inbound ct p rd wr s5 vl) (handshake_inbound ct p flat_read flat_write s5 vl)"
  by (cases p)
    (simp_all add: handshake_inbound_def socks5_inbound_def vless_inbound_def sim_bind sim_map_err sim_lift
      negotiate_sim vless_handshake_sim)

end

section \<open>The texts of the errors\<close>

text \<open>\<open>0x{:02x}\<close>.\<close>

definition fmt_hex2 :: "u8 \<Rightarrow> rstring" where
  "fmt_hex2 b = lit ''0x'' @ fmt_02x b"

fun parse_error_text :: "parse_error \<Rightarrow> rstring" where
  "parse_error_text (Incomplete need have_n) =
     lit ''not enough data: need '' @ fmt_dec need @ lit '', have '' @ fmt_dec have_n"
| "parse_error_text (BadVersion b) = lit ''invalid SOCKS version: '' @ fmt_hex2 b"
| "parse_error_text ZeroMethods = lit ''zero auth methods offered''"
| "parse_error_text (TooManyMethods n) = lit ''too many auth methods: '' @ fmt_dec n"
| "parse_error_text (BadAuthVersion b) = lit ''unsupported auth version: '' @ fmt_hex2 b"
| "parse_error_text EmptyUsername = lit ''empty username''"
| "parse_error_text EmptyPassword = lit ''empty password''"
| "parse_error_text (NonZeroRsv b) = lit ''non-zero RSV byte: '' @ fmt_hex2 b"
| "parse_error_text (UnsupportedCommand b) = lit ''unsupported command: '' @ fmt_hex2 b"
| "parse_error_text (UnsupportedAddressType b) = lit ''unsupported address type: '' @ fmt_hex2 b"
| "parse_error_text EmptyDomain = lit ''empty domain name''"
| "parse_error_text (InvalidUtf8 field) = lit ''invalid UTF-8 in '' @ lit field"

fun vless_parse_error_text :: "vless_parse_error \<Rightarrow> rstring" where
  "vless_parse_error_text (VIncomplete need have_n) =
     lit ''not enough data: need '' @ fmt_dec need @ lit '', have '' @ fmt_dec have_n"
| "vless_parse_error_text (VBadVersion b) = lit ''unsupported VLESS version: '' @ fmt_hex2 b"
| "vless_parse_error_text (VAddonsTooLarge n) =
     lit ''addons too large: '' @ fmt_dec n @ lit '' > '' @ fmt_dec MAX_ADDONS"
| "vless_parse_error_text (VUnsupportedCommand b) = lit ''unsupported command: '' @ fmt_hex2 b"
| "vless_parse_error_text (VUnsupportedAddressType b) = lit ''unsupported address type: '' @ fmt_hex2 b"
| "vless_parse_error_text VEmptyDomain = lit ''empty domain''"
| "vless_parse_error_text (VInvalidUtf8 field) = lit ''invalid UTF-8 in '' @ lit field"

fun addons_error_text :: "addons_error \<Rightarrow> rstring" where
  "addons_error_text Truncated = lit ''truncated protobuf field''"
| "addons_error_text (InvalidWireType b) = lit ''invalid protobuf wire type: '' @ fmt_dec (unat b)"
| "addons_error_text (FlowTooLarge n) = lit ''nested flow message too large: '' @ fmt_dec n"
| "addons_error_text (SeedTooLarge n) = lit ''seed too large: '' @ fmt_dec n"

text \<open>
  \<open>to_string\<close> of the errors of the handshakes. \<open>io_text\<close> is the text of an I/O error: the context
  the code gives it, or the operating system's text where it gives none.
\<close>

fun socks5_error_text :: "(io_kind \<Rightarrow> rstring) \<Rightarrow> socks5_error \<Rightarrow> rstring" where
  "socks5_error_text io_text NegotiationTimeout = lit ''SOCKS5 negotiation timeout''"
| "socks5_error_text io_text (NegIo k) = io_text k"
| "socks5_error_text io_text (NegTooManyMethods n) = lit ''too many auth methods: '' @ fmt_dec n"
| "socks5_error_text io_text (NegGreetingParse e) = lit ''greeting parse: '' @ parse_error_text e"
| "socks5_error_text io_text NegNoAcceptable = lit ''no acceptable auth method''"
| "socks5_error_text io_text NegEmptyUsername = lit ''empty username''"
| "socks5_error_text io_text NegEmptyPassword = lit ''empty password''"
| "socks5_error_text io_text (NegAuthParse e) = lit ''auth parse: '' @ parse_error_text e"
| "socks5_error_text io_text NegAuthFailed = lit ''authentication failed''"
| "socks5_error_text io_text NegEmptyDomain = lit ''empty domain''"
| "socks5_error_text io_text (NegAddressType b) = lit ''unsupported address type: '' @ fmt_hex2 b"
| "socks5_error_text io_text (NegRequestParse code e) =
     lit ''request parse (reply '' @ fmt_hex2 code @ lit ''): '' @ parse_error_text e"
| "socks5_error_text io_text NegBindDisabled = lit ''SOCKS5 BIND disabled in config''"
| "socks5_error_text io_text NegUdpDisabled = lit ''SOCKS5 UDP ASSOCIATE disabled in config''"

fun vless_error_text :: "(io_kind \<Rightarrow> rstring) \<Rightarrow> vless_error \<Rightarrow> rstring" where
  "vless_error_text io_text VHandshakeTimeout = lit ''VLESS handshake timeout''"
| "vless_error_text io_text (VIo k) = io_text k"
| "vless_error_text io_text (VUnsupportedVersion b) = lit ''unsupported VLESS version: '' @ fmt_hex2 b"
| "vless_error_text io_text (VAddonsLong n) = lit ''VLESS addons too large: '' @ fmt_dec n"
| "vless_error_text io_text (VAddressType b) = lit ''unsupported address type: '' @ fmt_hex2 b"
| "vless_error_text io_text (VAddressTooLong n) = lit ''address too long: '' @ fmt_dec n"
| "vless_error_text io_text VAuthFailed = lit ''authentication failed''"
| "vless_error_text io_text (VParse e) = lit ''VLESS parse: '' @ vless_parse_error_text e"
| "vless_error_text io_text (VAddons e) = lit ''VLESS addons: '' @ addons_error_text e"
| "vless_error_text io_text (VUnsupportedFlow f) = lit ''unsupported flow''"
| "vless_error_text io_text VClientTimeout = lit ''VLESS client handshake timeout''"
| "vless_error_text io_text (VUnexpectedResponse a b) =
     lit ''unexpected VLESS response: '' @ fmt_02x a @ lit '' '' @ fmt_02x b"

fun inbound_error_text :: "(io_kind \<Rightarrow> rstring) \<Rightarrow> inbound_error \<Rightarrow> rstring" where
  "inbound_error_text io_text (InSocks5 e) = socks5_error_text io_text e"
| "inbound_error_text io_text (InVless e) = vless_error_text io_text e"

definition is_auth_failure :: "(io_kind \<Rightarrow> rstring) \<Rightarrow> inbound_error \<Rightarrow> bool" where
  "is_auth_failure io_text err =
     (let msg = inbound_error_text io_text err in
      contains msg (lit ''authentication failed'') \<or> contains msg (lit ''unsupported flow''))"


text \<open>Searching a text with a number in it: the pattern has no digit, so it lies before or after.\<close>

lemma starts_with_append_sep:
  "\<lbrakk>c \<notin> set p; starts_with (xs @ c # b) p\<rbrakk> \<Longrightarrow> starts_with xs p"
  by (induction xs p rule: starts_with.induct) auto

lemma starts_with_append: "starts_with xs p \<Longrightarrow> starts_with (xs @ b) p"
  by (induction xs p rule: starts_with.induct) auto

lemma contains_sep:
  assumes "c \<notin> set p" and "p \<noteq> []"
  shows "contains (a @ c # b) p \<longleftrightarrow> contains a p \<or> contains b p"
proof (induction a)
  case Nil
  have "\<not> starts_with (c # b) p" using assms starts_with_append_sep [of c p "[]" b] by (cases p) auto
  with assms(2) show ?case by simp
next
  case (Cons x a)
  have "starts_with (x # a @ c # b) p \<longleftrightarrow> starts_with (x # a) p"
    using starts_with_append_sep [OF assms(1), of "x # a" b] starts_with_append [of "x # a" p "c # b"] by auto
  with Cons show ?case by auto
qed

lemma contains_length: "contains a p \<Longrightarrow> length p \<le> length a"
  by (auto simp: contains_iff)

lemma contains_digits:
  assumes "list_all is_digit ds" and "\<not> list_ex is_digit p" and "p \<noteq> []"
  shows "contains (ds @ b) p \<longleftrightarrow> contains b p"
  using assms
proof (induction ds)
  case (Cons d ds)
  then have "d \<notin> set p" by (auto simp: list_ex_iff)
  with Cons contains_sep [of d p "[]" "ds @ b"] show ?case by auto
qed simp

lemma contains_dec [simp]:
  "\<not> list_ex is_digit p \<Longrightarrow> p \<noteq> [] \<Longrightarrow> contains (fmt_dec n @ b) p \<longleftrightarrow> contains b p"
  "\<not> list_ex is_digit p \<Longrightarrow> p \<noteq> [] \<Longrightarrow> \<not> contains (fmt_dec n) p"
  using contains_digits [OF fmt_dec_all_digits, of p n b] contains_digits [OF fmt_dec_all_digits, of p n "[]"]
  by simp_all

lemma starts_with_dec [simp]:
  "\<not> is_digit q \<Longrightarrow> \<not> starts_with (fmt_dec n @ b) (q # qs)"
  "\<not> is_digit q \<Longrightarrow> \<not> starts_with (fmt_dec n) (q # qs)"
proof -
  obtain d ds where "fmt_dec n = d # ds" "is_digit d"
    using fmt_dec_all_digits [of n] by (cases "fmt_dec n") auto
  then show "\<not> is_digit q \<Longrightarrow> \<not> starts_with (fmt_dec n @ b) (q # qs)"
    "\<not> is_digit q \<Longrightarrow> \<not> starts_with (fmt_dec n) (q # qs)" by auto
qed

lemma hex_digit_not_space: "hex_digit n \<noteq> 0x20" if "n < 16"
proof -
  have "unat (hex_digit n) \<noteq> 0x20"
    using that by (cases "n < 10") (simp_all add: hex_digit_def unat_of_nat del: of_nat_add)
  then show ?thesis by auto
qed

lemma contains_02x [simp]:
  "contains (fmt_02x b @ s) (0x20 # q # qs) \<longleftrightarrow> contains s (0x20 # q # qs)"
  "\<not> contains (fmt_02x b) (0x20 # q # qs)"
proof -
  have "unat b div 16 < 16" using unat_u8_bound [of b] by linarith
  then have "hex_digit (unat b div 16) \<noteq> 0x20" "hex_digit (unat b mod 16) \<noteq> 0x20"
    by (simp_all add: hex_digit_not_space)
  then show "contains (fmt_02x b @ s) (0x20 # q # qs) \<longleftrightarrow> contains s (0x20 # q # qs)"
    "\<not> contains (fmt_02x b) (0x20 # q # qs)" by (simp_all add: fmt_02x_def)
qed

text \<open>
  The errors of the server's handshakes: the parsers name one of their fields, and the two errors
  of the client's handshake do not occur.
\<close>

fun field_named :: "parse_error \<Rightarrow> bool" where
  "field_named (InvalidUtf8 field) \<longleftrightarrow> field \<in> {''username'', ''password'', ''domain''}"
| "field_named _ \<longleftrightarrow> True"

fun vless_field_named :: "vless_parse_error \<Rightarrow> bool" where
  "vless_field_named (VInvalidUtf8 field) \<longleftrightarrow> field \<in> {''domain''}"
| "vless_field_named _ \<longleftrightarrow> True"

fun server_side :: "inbound_error \<Rightarrow> bool" where
  "server_side (InSocks5 (NegGreetingParse e)) \<longleftrightarrow> field_named e"
| "server_side (InSocks5 (NegAuthParse e)) \<longleftrightarrow> field_named e"
| "server_side (InSocks5 (NegRequestParse _ e)) \<longleftrightarrow> field_named e"
| "server_side (InVless (VParse e)) \<longleftrightarrow> vless_field_named e"
| "server_side (InVless VClientTimeout) \<longleftrightarrow> False"
| "server_side (InVless (VUnexpectedResponse _ _)) \<longleftrightarrow> False"
| "server_side _ \<longleftrightarrow> True"

text \<open>Both phrases have a space followed by an f, which no other text but one has.\<close>

lemma contains_part: "contains s p \<Longrightarrow> p = l @ q @ r \<Longrightarrow> contains s q"
  unfolding contains_iff by (metis append.assoc)

lemma phrases_space_f:
  assumes "contains s (lit ''authentication failed'') \<or> contains s (lit ''unsupported flow'')"
  shows "contains s [0x20, 0x66]"
proof -
  have "lit ''authentication failed'' = lit ''authentication'' @ [0x20, 0x66] @ lit ''ailed''"
    "lit ''unsupported flow'' = lit ''unsupported'' @ [0x20, 0x66] @ lit ''low''" by (simp_all add: lit_def)
  with assms contains_part show ?thesis by blast
qed

lemmas text_search = lit_def fmt_hex2_def is_digit_def

lemma parse_error_texts:
  assumes "field_named e"
  shows "\<not> contains (0x20 # parse_error_text e) [0x20, 0x66]"
  using assms by (cases e) (auto simp: text_search)

lemma vless_parse_error_texts:
  assumes "vless_field_named e"
  shows "\<not> contains (0x20 # vless_parse_error_text e) [0x20, 0x66]"
  using assms by (cases e) (auto simp: text_search)

lemma socks5_texts:
  assumes "server_side (InSocks5 e)" and "\<And>k. e \<noteq> NegIo k" and "e \<noteq> NegAuthFailed"
  shows "\<not> contains (socks5_error_text io_text e) [0x20, 0x66]"
proof -
  have parse: "field_named pe \<Longrightarrow> \<not> starts_with (parse_error_text pe) [0x66] \<and> \<not> contains (parse_error_text pe) [0x20, 0x66]"
    for pe using parse_error_texts [of pe] by simp
  show ?thesis using assms by (cases e) (auto simp: text_search dest: parse)
qed

lemma vless_texts:
  assumes "server_side (InVless e)" and "\<And>k. e \<noteq> VIo k" and "e \<noteq> VAuthFailed" and "\<And>f. e \<noteq> VUnsupportedFlow f"
    and "e \<noteq> VAddons Truncated" and "\<And>n. e \<noteq> VAddons (FlowTooLarge n)"
  shows "\<not> contains (vless_error_text io_text e) [0x20, 0x66]"
proof -
  have parse: "vless_field_named pe \<Longrightarrow> \<not> starts_with (vless_parse_error_text pe) [0x66] \<and>
      \<not> contains (vless_parse_error_text pe) [0x20, 0x66]" for pe
    using vless_parse_error_texts [of pe] by simp
  have addons: "\<not> starts_with (addons_error_text ae) [0x66] \<and> \<not> contains (addons_error_text ae) [0x20, 0x66]"
    if "ae \<noteq> Truncated" "\<And>n. ae \<noteq> FlowTooLarge n" for ae
    using that by (cases ae) (auto simp: text_search)
  from assms addons show ?thesis by (cases e) (auto simp: text_search dest: parse)
qed

lemma addons_texts:
  assumes "p = lit ''authentication failed'' \<or> p = lit ''unsupported flow''"
  shows "\<not> contains (vless_error_text io_text (VAddons Truncated)) p"
    and "\<not> contains (vless_error_text io_text (VAddons (FlowTooLarge n))) p"
  using assms by (auto simp: text_search)

lemma contains_self: "contains p p"
  unfolding contains_iff by (rule exI [of _ "[]"]) simp

lemma auth_failure_texts:
  assumes "server_side e"
    and "\<And>k. \<not> contains (io_text k) (lit ''authentication failed'')"
    and "\<And>k. \<not> contains (io_text k) (lit ''unsupported flow'')"
  shows "is_auth_failure io_text e \<longleftrightarrow>
    e = InSocks5 NegAuthFailed \<or> e = InVless VAuthFailed \<or> (\<exists>f. e = InVless (VUnsupportedFlow f))"
proof (cases e)
  case (InSocks5 se)
  show ?thesis
  proof (cases "se = NegAuthFailed \<or> (\<exists>k. se = NegIo k)")
    case True
    with InSocks5 assms(2,3) show ?thesis by (auto simp: is_auth_failure_def Let_def contains_self)
  next
    case False
    with InSocks5 assms(1) socks5_texts [of se io_text] phrases_space_f [of "socks5_error_text io_text se"]
    show ?thesis by (auto simp: is_auth_failure_def Let_def)
  qed
next
  case (InVless ve)
  show ?thesis
  proof (cases "ve = VAuthFailed \<or> (\<exists>k. ve = VIo k) \<or> (\<exists>f. ve = VUnsupportedFlow f) \<or> 
      ve = VAddons Truncated \<or> (\<exists>n. ve = VAddons (FlowTooLarge n))")
    case True
    with InVless assms(2,3) addons_texts show ?thesis by (auto simp: is_auth_failure_def Let_def contains_self simp del: vless_error_text.simps(8,9))
  next
    case False
    with InVless assms(1) vless_texts [of ve io_text] phrases_space_f [of "vless_error_text io_text ve"]
    show ?thesis by (auto simp: is_auth_failure_def Let_def)
  qed
qed

section \<open>Which errors the handshakes return\<close>

definition errs_in :: "('e \<Rightarrow> bool) \<Rightarrow> ('s, 'a, 'e) io \<Rightarrow> bool" where
  "errs_in E m \<longleftrightarrow> (\<forall>s e t. m s = (Err e, t) \<longrightarrow> E e)"

named_theorems errs_rules \<open>errors along the code\<close>

lemma errs_inD: "errs_in E m \<Longrightarrow> m s = (Err e, t) \<Longrightarrow> E e"
  by (auto simp: errs_in_def)

lemma errs_lift [errs_rules]: "(\<And>e. r = Err e \<Longrightarrow> E e) \<Longrightarrow> errs_in E (io_lift r)"
  by (simp add: errs_in_def io_lift_def)

lemma errs_bind [errs_rules]: "errs_in E m \<Longrightarrow> (\<And>x. errs_in E (f x)) \<Longrightarrow> errs_in E (io_bind m f)"
  by (auto simp: errs_in_def io_bind_def split: prod.splits outcome.splits)

lemma errs_map_err [errs_rules]: "(\<And>e. E (f e)) \<Longrightarrow> errs_in E (io_map_err f m)"
  by (auto simp: errs_in_def io_map_err_def map_err_eq_Err_conv)

lemma errs_map_err_in: "errs_in (\<lambda>e. E (f e)) m \<Longrightarrow> errs_in E (io_map_err f m)"
  by (auto simp: errs_in_def io_map_err_def map_err_eq_Err_conv) (metis prod.collapse)

lemma errs_timeout [errs_rules]: "E e \<Longrightarrow> errs_in E m \<Longrightarrow> errs_in E (io_timeout e m)"
  by (auto simp: errs_in_def io_timeout_def split: prod.splits outcome.splits)

lemma errs_ignore [errs_rules]: "errs_in E (io_ignore m)"
  by (auto simp: errs_in_def io_ignore_def split: prod.splits outcome.splits)

lemma errs_if [errs_rules]: "errs_in E m \<Longrightarrow> errs_in E n \<Longrightarrow> errs_in E (if b then m else n)"
  by simp

lemma errs_let [errs_rules]: "(\<And>x. errs_in E (f x)) \<Longrightarrow> errs_in E (Let a f)"
  by simp

lemma parsers_name_fields:
  "parse_greeting bs = Err e \<Longrightarrow> field_named e"
  "parse_auth bs = Err e \<Longrightarrow> field_named e"
  "parse_request bs = Err e \<Longrightarrow> field_named e"
  "vless_parse_request bs = Err ve \<Longrightarrow> vless_field_named ve"
  by (auto simp: parse_greeting_flat parse_auth_flat parse_request_flat parse_target_flat Let_def
      vless_parse_request_flat parse_port_address_flat split: if_split_asm)

lemma idx_not_Err [simp]: "idx xs i \<noteq> Err e" "slice xs a b \<noteq> Err e"
  by (simp_all add: idx_def slice_def)

lemma socks5_errs: "errs_in (\<lambda>e. server_side (InSocks5 e)) (negotiate ct rd wr cfg)"
  unfolding negotiate_def negotiate_inner_def read_greeting_def perform_auth_def read_request_def
    socks5_write_all_def
  by (intro errs_rules) (auto simp: map_err_eq_Err_conv parsers_name_fields)

lemma check_header_errs: "check_header ct cfg uuid full = Err e \<Longrightarrow> server_side (InVless e)"
  by (auto simp: check_header_def ebind_eq_Err_conv map_err_eq_Err_conv parsers_name_fields split: option.splits)

lemma vless_errs: "errs_in (\<lambda>e. server_side (InVless e)) (vless_server_handshake ct rd wr cfg)"
  unfolding vless_server_handshake_def vless_handshake_inner_def read_header_def
  by (intro errs_rules) (auto dest: check_header_errs)

lemma inbound_errs: "errs_in server_side (handshake_inbound ct p rd wr s5 vl)"
  unfolding handshake_inbound_def socks5_inbound_def vless_inbound_def
  by (cases p) (auto intro!: errs_bind errs_map_err_in errs_lift socks5_errs vless_errs)

text \<open>C17: which handshake errors count as a failed authentication: the code searches the text of the
  error for two phrases, and finds them exactly in the text of a refused SOCKS5 password, of an
  unknown VLESS identifier and of a refused flow, whatever numbers, bytes and field names the
  other texts carry. Malformed requests, an unsupported method, empty credentials, timeouts and
  I/O errors do not count.
\<close>
theorem auth_failures_recognised:
  assumes "handshake_inbound ct protocol rd wr socks5 vless s = (Err e, t)"
    and "\<And>k. \<not> contains (io_text k) (lit ''authentication failed'')"
    and "\<And>k. \<not> contains (io_text k) (lit ''unsupported flow'')"
  shows "is_auth_failure io_text e \<longleftrightarrow>
    e = InSocks5 NegAuthFailed \<or> e = InVless VAuthFailed \<or> (\<exists>f. e = InVless (VUnsupportedFlow f))"
  by (rule auth_failure_texts [OF errs_inD [OF inbound_errs assms(1)] assms(2,3)])

text \<open>A VLESS client with an unknown identifier.\<close>

theorem auth_failures_recognised_witness:
  "is_auth_failure (\<lambda>_. []) (InVless VAuthFailed)"
proof -
  let ?s = "\<lparr>rx = 0 # replicate 16 7 @ [0, 3], rx_end = Closed, tx = [], tx_room = None\<rparr>"
  have "handshake_inbound (=) Vless flat_read flat_write socks5_default \<lparr>vl_enabled = True, vl_users = []\<rparr> ?s =
      (Err (InVless VAuthFailed), ?s\<lparr>rx := []\<rparr>)"
    by (simp add: handshake_inbound_def vless_inbound_def vless_server_handshake_def vless_handshake_inner_def
        read_header_def check_header_def authenticate_def io_bind_def io_map_err_def io_timeout_def io_lift_def
        flat_read_def idx_def slice_def Let_def numeral_eq_Suc)
  from auth_failures_recognised [OF this, of "\<lambda>_. []"] show ?thesis by (simp add: lit_def)
qed

end
