(* ===== verification/Observability.thy ===== *)
theory Observability
  imports Net_Text Stream_IO
begin

text \<open>
  What the server reports about itself: the counters of
  \<open>crates/skadi-server/src/observability/metrics.rs\<close>, the metrics page of \<open>observability/http.rs\<close>, the
  log writer of \<open>observability/tracing_init.rs\<close> and the masking of secrets in
  \<open>crates/skadi-core/src/secret.rs\<close> it applies to every line.
\<close>

section \<open>Counters\<close>

text \<open>
  The gauge of active connections is a signed number; the counters are 64-bit. \<open>mt_connections\<close> has
  one counter per protocol label and event, \<open>mt_transfer\<close> one per direction.
\<close>

record metrics =
  mt_active :: int
  mt_connections :: "string \<Rightarrow> string \<Rightarrow> u64"
  mt_transfer :: "string \<Rightarrow> u64"
  mt_rejected :: u64
  mt_auth_failures :: "string \<Rightarrow> u64"
  mt_auth_blocked :: u64

definition metrics_zero :: metrics where
  "metrics_zero = \<lparr>mt_active = 0, mt_connections = (\<lambda>_ _. 0), mt_transfer = (\<lambda>_. 0), mt_rejected = 0,
     mt_auth_failures = (\<lambda>_. 0), mt_auth_blocked = 0\<rparr>"

definition count_event :: "string \<Rightarrow> string \<Rightarrow> metrics \<Rightarrow> metrics" where
  "count_event label ev m =
     m\<lparr>mt_connections := (mt_connections m)(label := (mt_connections m label)(ev := mt_connections m label ev + 1))\<rparr>"

definition connection_opened :: "string \<Rightarrow> metrics \<Rightarrow> metrics" where
  "connection_opened label m = count_event label ''opened'' (m\<lparr>mt_active := mt_active m + 1\<rparr>)"

definition count_transfer :: "string \<Rightarrow> u64 \<Rightarrow> metrics \<Rightarrow> metrics" where
  "count_transfer direction n m =
     (if n > 0 then m\<lparr>mt_transfer := (mt_transfer m)(direction := mt_transfer m direction + n)\<rparr> else m)"

definition connection_closed :: "string \<Rightarrow> u64 \<Rightarrow> u64 \<Rightarrow> metrics \<Rightarrow> metrics" where
  "connection_closed label up down m =
     count_transfer ''down'' down (count_transfer ''up'' up
       (count_event label ''closed'' (m\<lparr>mt_active := mt_active m - 1\<rparr>)))"

definition connection_failed :: "string \<Rightarrow> metrics \<Rightarrow> metrics" where
  "connection_failed label m = count_event label ''failed'' (m\<lparr>mt_active := mt_active m - 1\<rparr>)"

definition connection_rejected :: "metrics \<Rightarrow> metrics" where
  "connection_rejected m = m\<lparr>mt_rejected := mt_rejected m + 1\<rparr>"

definition auth_failure :: "string \<Rightarrow> metrics \<Rightarrow> metrics" where
  "auth_failure label m = m\<lparr>mt_auth_failures := (mt_auth_failures m)(label := mt_auth_failures m label + 1)\<rparr>"

definition auth_blocked :: "metrics \<Rightarrow> metrics" where
  "auth_blocked m = m\<lparr>mt_auth_blocked := mt_auth_blocked m + 1\<rparr>"

lemma metrics_active [simp]:
  "mt_active (connection_opened label m) = mt_active m + 1"
  "mt_active (connection_closed label up down m) = mt_active m - 1"
  "mt_active (connection_failed label m) = mt_active m - 1"
  "mt_active (connection_rejected m) = mt_active m"
  "mt_active (auth_failure label m) = mt_active m"
  "mt_active (auth_blocked m) = mt_active m"
  by (simp_all add: connection_opened_def connection_closed_def connection_failed_def connection_rejected_def
      auth_failure_def auth_blocked_def count_event_def count_transfer_def)

section \<open>Secrets\<close>

definition REDACTED :: rstring where "REDACTED = lit ''[REDACTED]''"

record secret_string =
  sec_inner :: rstring

definition secret_is_blank :: "secret_string \<Rightarrow> bool" where
  "secret_is_blank s \<longleftrightarrow> trim (sec_inner s) = []"

definition secret_debug :: "secret_string \<Rightarrow> rstring" where
  "secret_debug s = lit ''SecretString('' @ REDACTED @ lit '')''"

definition secret_display :: "secret_string \<Rightarrow> rstring" where
  "secret_display s = REDACTED"

definition is_bearer_token_boundary :: "u8 \<Rightarrow> bool" where
  "is_bearer_token_boundary b \<longleftrightarrow> b \<in> {0x20, 0x09, 0x0A, 0x0D, 0x22, 0x27, 0x2C, 0x7D, 0x5D, 0x5C}"

definition BEARER_PREFIX :: rstring where "BEARER_PREFIX = lit ''bearer ''"

text \<open>
  The scan: at a prefix the token up to the next boundary is dropped. \<open>input\<close> is the rest of the
  text from position \<open>i\<close> on.
\<close>

function redact_bearer_tokens :: "bytes \<Rightarrow> rstring" where
  "redact_bearer_tokens input =
     (if input = [] then []
      else if length BEARER_PREFIX \<le> length input \<and>
          eq_ignore_ascii_case (take (length BEARER_PREFIX) input) BEARER_PREFIX then
        concat (map fmt_char (take (length BEARER_PREFIX) input)) @ REDACTED @
        redact_bearer_tokens (dropWhile (\<lambda>b. \<not> is_bearer_token_boundary b) (drop (length BEARER_PREFIX) input))
      else fmt_char (hd input) @ redact_bearer_tokens (tl input))"
  by pat_completeness auto
termination
proof (relation "measure length")
  fix input :: bytes
  assume "length BEARER_PREFIX \<le> length input \<and>
      eq_ignore_ascii_case (take (length BEARER_PREFIX) input) BEARER_PREFIX"
  moreover have "length BEARER_PREFIX = 7" by (simp add: BEARER_PREFIX_def lit_def)
  moreover have "length (dropWhile (\<lambda>b. \<not> is_bearer_token_boundary b) (drop (length BEARER_PREFIX) input)) \<le>
      length (drop (length BEARER_PREFIX) input)" by (rule length_dropWhile_le)
  ultimately show "(dropWhile (\<lambda>b. \<not> is_bearer_token_boundary b) (drop (length BEARER_PREFIX) input), input)
      \<in> measure length" by simp linarith
qed auto

declare redact_bearer_tokens.simps [simp del]

text \<open>Where the scan finds a prefix, and what it makes of the text before one and of the token after it.\<close>

definition bearer_at :: "bytes \<Rightarrow> bool" where
  "bearer_at s \<longleftrightarrow> length BEARER_PREFIX \<le> length s \<and> eq_ignore_ascii_case (take (length BEARER_PREFIX) s) BEARER_PREFIX"

lemma redact_plain:
  "(\<And>i. i < length pre \<Longrightarrow> \<not> bearer_at (drop i (pre @ s))) \<Longrightarrow>
     redact_bearer_tokens (pre @ s) = concat (map fmt_char pre) @ redact_bearer_tokens s"
proof (induction pre)
  case (Cons c pre)
  have "\<not> bearer_at (c # pre @ s)" using Cons.prems [of 0] by simp
  moreover have "\<not> bearer_at (drop i (pre @ s))" if "i < length pre" for i
    using Cons.prems [of "Suc i"] that by simp
  ultimately show ?case
    using Cons.IH by (subst redact_bearer_tokens.simps) (auto simp: bearer_at_def)
qed simp

lemma prefix_length: "eq_ignore_ascii_case p BEARER_PREFIX \<Longrightarrow> length p = length BEARER_PREFIX"
  unfolding eq_ignore_ascii_case_def to_ascii_lowercase_def by (metis length_map)

lemma redact_token:
  assumes "eq_ignore_ascii_case p BEARER_PREFIX" and "\<not> list_ex is_bearer_token_boundary token"
    and "rest = [] \<or> is_bearer_token_boundary (hd rest)"
  shows "redact_bearer_tokens (p @ token @ rest) =
    concat (map fmt_char p) @ REDACTED @ redact_bearer_tokens rest"
proof -
  have len: "length p = length BEARER_PREFIX" by (rule prefix_length [OF assms(1)])
  have "p \<noteq> []" using len by (auto simp: BEARER_PREFIX_def lit_def)
  moreover have "dropWhile (\<lambda>b. \<not> is_bearer_token_boundary b) (token @ rest) = rest"
    using assms(2,3) by (cases rest) (simp_all add: dropWhile_append list_ex_iff)
  ultimately show ?thesis
    using assms(1) len by (simp add: redact_bearer_tokens.simps [of "p @ token @ rest"])
qed

section \<open>The log writer\<close>

record 'o redacting_writer =
  rw_inner :: 'o
  rw_buffer :: bytes

text \<open>\<open>write\<close> only collects.\<close>

definition rw_write :: "bytes \<Rightarrow> 'o redacting_writer \<Rightarrow> (nat, io_kind) outcome \<times> 'o redacting_writer" where
  "rw_write buf w = (Ok (length buf), w\<lparr>rw_buffer := rw_buffer w @ buf\<rparr>)"

text \<open>
  \<open>flush\<close> writes the complete lines, each masked; \<open>lossy\<close> is \<open>String::from_utf8_lossy\<close>, \<open>wr\<close> and \<open>fl\<close>
  are \<open>write_all\<close> and \<open>flush\<close> of the inner writer.
\<close>

function rw_flush_lines ::
  "(bytes \<Rightarrow> rstring) \<Rightarrow> (bytes \<Rightarrow> ('o, unit, io_kind) io) \<Rightarrow> ('o redacting_writer, unit, io_kind) io" where
  "rw_flush_lines lossy wr w =
     (if 0x0A \<in> set (rw_buffer w) then
        (let line = takeWhile (\<lambda>b. b \<noteq> 0x0A) (rw_buffer w) @ [0x0A];
             rest = drop (length line) (rw_buffer w);
             redacted = redact_bearer_tokens (lossy line)
         in case wr redacted (rw_inner w) of
              (Ok _, inner) \<Rightarrow> rw_flush_lines lossy wr (w\<lparr>rw_inner := inner, rw_buffer := rest\<rparr>)
            | (Err e, inner) \<Rightarrow> (Err e, w\<lparr>rw_inner := inner, rw_buffer := rest\<rparr>)
            | (Panic, inner) \<Rightarrow> (Panic, w\<lparr>rw_inner := inner, rw_buffer := rest\<rparr>)
            | (Pending, inner) \<Rightarrow> (Pending, w\<lparr>rw_inner := inner, rw_buffer := rest\<rparr>))
      else (Ok (), w))"
  by pat_completeness auto
termination
  by (relation "measure (\<lambda>(lossy, wr, w). length (rw_buffer w))") (auto simp: in_set_conv_decomp)

declare rw_flush_lines.simps [simp del]

definition rw_flush ::
  "(bytes \<Rightarrow> rstring) \<Rightarrow> (bytes \<Rightarrow> ('o, unit, io_kind) io) \<Rightarrow> ('o, unit, io_kind) io \<Rightarrow>
     ('o redacting_writer, unit, io_kind) io" where
  "rw_flush lossy wr fl =
     io_bind (rw_flush_lines lossy wr) (\<lambda>_ w. case fl (rw_inner w) of (r, inner) \<Rightarrow> (r, w\<lparr>rw_inner := inner\<rparr>))"

section \<open>The metrics page\<close>

text \<open>\<open>str::lines().next()\<close>: up to the first line feed, without a carriage return before it.\<close>

definition first_line :: "rstring \<Rightarrow> rstring option" where
  "first_line s =
     (if s = [] then None
      else let l = takeWhile (\<lambda>b. b \<noteq> 0x0A) s in
        Some (if l \<noteq> [] \<and> last l = 0x0D \<and> length l < length s then butlast l else l))"

definition request_path :: "rstring \<Rightarrow> rstring" where
  "request_path request =
     (case first_line request of
        None \<Rightarrow> lit ''/''
      | Some line \<Rightarrow> (let ws = split_whitespace line in if 1 < length ws then ws ! 1 else lit ''/''))"

definition http_answer :: "rstring \<Rightarrow> rstring \<Rightarrow> rstring \<times> rstring \<times> rstring" where
  "http_answer metrics_text path =
     (if path = lit ''/healthz'' then (lit ''200 OK'', lit ''ok'' @ [0x0A], lit ''text/plain; charset=utf-8'')
      else if path = lit ''/metrics'' then
        (lit ''200 OK'', metrics_text, lit ''text/plain; version=0.0.4; charset=utf-8'')
      else (lit ''404 Not Found'', [], lit ''text/plain; charset=utf-8''))"

definition CRLF :: rstring where "CRLF = [0x0D, 0x0A]"

definition http_response :: "rstring \<Rightarrow> rstring \<Rightarrow> rstring" where
  "http_response metrics_text path =
     (case http_answer metrics_text path of (status, body, content_type) \<Rightarrow>
        lit ''HTTP/1.1 '' @ status @ CRLF @
        lit ''Content-Type: '' @ content_type @ CRLF @
        lit ''Content-Length: '' @ fmt_dec (length body) @ CRLF @
        lit ''Connection: close'' @ CRLF @ CRLF @ body)"

text \<open>One read of at most 2048 bytes, one response; \<open>lossy\<close> is \<open>String::from_utf8_lossy\<close>.\<close>

definition serve_metrics ::
  "(bytes \<Rightarrow> rstring) \<Rightarrow> rstring \<Rightarrow> (bytes, io_kind) outcome \<Rightarrow> (bytes \<Rightarrow> ('s, unit, io_kind) io) \<Rightarrow>
     ('s, unit, io_kind) io \<Rightarrow> ('s, unit, io_kind) io" where
  "serve_metrics lossy metrics_text received wr shut =
     io_bind (io_lift received) (\<lambda>buf.
     if buf = [] then io_lift (Ok ())
     else
       io_bind (wr (http_response metrics_text (request_path (lossy buf)))) (\<lambda>_. shut))"

section \<open>Properties\<close>

text \<open>C28: a bearer token does not reach the log. When the scan arrives at a prefix, in any case, what
  it writes does not depend on the token after it, which ends at the first of the ten boundary
  bytes: two log lines that differ in the token only are written alike.
\<close>
theorem log_hides_token:
  assumes "eq_ignore_ascii_case p BEARER_PREFIX"
    and "\<And>i. i < length pre \<Longrightarrow> \<not> bearer_at (drop i (pre @ p))"
    and "\<not> list_ex is_bearer_token_boundary token" and "\<not> list_ex is_bearer_token_boundary token'"
    and "rest = [] \<or> is_bearer_token_boundary (hd rest)"
  shows "redact_bearer_tokens (pre @ p @ token @ rest) = redact_bearer_tokens (pre @ p @ token' @ rest)"
proof -
  have len: "length p = length BEARER_PREFIX" by (rule prefix_length [OF assms(1)])
  have "\<not> bearer_at (drop i (pre @ p @ x))" if "i < length pre" for i x
  proof -
    have "length BEARER_PREFIX \<le> length (drop i (pre @ p))" using that len by simp
    then have "take (length BEARER_PREFIX) (drop i (pre @ p @ x)) = take (length BEARER_PREFIX) (drop i (pre @ p))"
      using that by simp
    with \<open>length BEARER_PREFIX \<le> length (drop i (pre @ p))\<close> assms(2) [OF that] show ?thesis
      by (simp add: bearer_at_def)
  qed
  then have "redact_bearer_tokens (pre @ p @ x) = concat (map fmt_char pre) @ redact_bearer_tokens (p @ x)" for x
    by (rule redact_plain)
  then show ?thesis using redact_token [OF assms(1)] assms(3-5) by simp
qed

theorem log_hides_token_witness:
  "redact_bearer_tokens (lit ''auth: Bearer abc, ok'') = redact_bearer_tokens (lit ''auth: Bearer xyz9, ok'')"
proof -
  have "redact_bearer_tokens (lit ''auth: '' @ lit ''Bearer '' @ lit ''abc'' @ lit '', ok'') =
      redact_bearer_tokens (lit ''auth: '' @ lit ''Bearer '' @ lit ''xyz9'' @ lit '', ok'')"
  proof (rule log_hides_token)
    fix i
    assume "i < length (lit ''auth: '')"
    then have "i \<in> set [0..<6]" by (simp add: lit_def)
    moreover have "list_all (\<lambda>i. \<not> bearer_at (drop i (lit ''auth: '' @ lit ''Bearer ''))) [0..<6]" by code_simp
    ultimately show "\<not> bearer_at (drop i (lit ''auth: '' @ lit ''Bearer ''))" by (auto simp: list_all_iff)
  qed (simp_all add: eq_ignore_ascii_case_def to_ascii_lowercase_def ascii_lower_def BEARER_PREFIX_def lit_def
      is_bearer_token_boundary_def)
  then show ?thesis by (simp add: lit_def)
qed

text \<open>
  A token after two spaces is written: the first space ends the prefix, the second one is a
  boundary, so the token that is dropped is empty.
\<close>
lemma double_space_leaks_token:
  "contains (redact_bearer_tokens (lit ''Bearer  s3cret'')) (lit ''s3cret'')"
  by code_simp

text \<open>A character outside ASCII is written byte by byte, each as a character of its own.\<close>
lemma redaction_splits_characters: "redact_bearer_tokens [0xC3, 0xA9] = [0xC3, 0x83, 0xC2, 0xA9]"
  by code_simp

text \<open>
  Without a call of \<open>flush\<close> nothing reaches the output, however much is written; the writer has
  no \<open>Drop\<close> that would flush.
\<close>
lemma written_lines_stay_in_buffer: "rw_inner (snd (rw_write buf w)) = rw_inner w"
  by (simp add: rw_write_def)

end
