(* ===== verification/Server.thy ===== *)
theory Server
  imports Inbound Observability Socks5_Relay Mux_Relay Udp_Relay Conn_Gate Auth_Rate_Limit User_Store
begin

text \<open>
  The server (\<open>crates/skadi-server/src/lib.rs\<close>): what happens to one accepted connection
  (\<open>handle_connection\<close>) and which connections are accepted (\<open>accept_loop\<close>). This is where the
  handshakes, the outbound policy, the relays, the limiter, the gate and the counters meet. What
  the environment does after the handshake, the sockets and the traffic of the relays, is
  \<open>conn_input\<close>.
\<close>

section \<open>Texts of errors\<close>

fun core_error_text :: "(io_kind \<Rightarrow> rstring) \<Rightarrow> core_error \<Rightarrow> rstring" where
  "core_error_text io_text (Io k) = lit ''I/O error: '' @ io_text k"
| "core_error_text io_text (Protocol s) = lit ''protocol error: '' @ s"
| "core_error_text io_text AuthFailed = lit ''authentication failed''"
| "core_error_text io_text (UnknownUser s) = lit ''unknown user: '' @ s"
| "core_error_text io_text Timeout = lit ''connection timeout''"
| "core_error_text io_text TooManyConnections = lit ''connection limit exceeded''"
| "core_error_text io_text (Config s) = lit ''configuration error: '' @ s"
| "core_error_text io_text (UnknownProtocolByte b) = lit ''unknown protocol byte: '' @ fmt_hex2 b"
| "core_error_text io_text (DisabledProtocol s) = lit s @ lit '' is disabled in configuration''"
| "core_error_text io_text (ForbiddenDestination a) = lit ''forbidden destination: '' @ fmt_sock a"

fun endpoint_display :: "endpoint \<Rightarrow> rstring" where
  "endpoint_display (EpIp addr) = fmt_sock addr"
| "endpoint_display (EpDomain host port) = host_port host port"

text \<open>\<open>to_string\<close> of what \<open>connect\<close> returns: the outermost context only.\<close>

fun out_error_text :: "(io_kind \<Rightarrow> rstring) \<Rightarrow> out_error \<Rightarrow> rstring" where
  "out_error_text io_text (out_error.Refused e) = core_error_text io_text e"
| "out_error_text io_text (ResolveFailed hp k) = lit ''failed to resolve '' @ hp"
| "out_error_text io_text (NoAddresses hp) = lit ''no addresses for '' @ hp"
| "out_error_text io_text NothingToConnect = lit ''no addresses to connect''"
| "out_error_text io_text (Connect k) = io_text k"
| "out_error_text io_text (ConnectTimeout a) = lit ''connect timeout to '' @ fmt_sock a"
| "out_error_text io_text (UdpBind k) = lit ''failed to bind UDP socket''"
| "out_error_text io_text (UdpTimeout a) = lit ''UDP connect timeout to '' @ fmt_sock a"
| "out_error_text io_text (UdpConnect a k) = lit ''UDP connect failed to '' @ fmt_sock a"
| "out_error_text io_text out_error.EmptyDomain = lit ''empty domain for TLS SNI''"
| "out_error_text io_text (InvalidServerName s) = lit ''invalid TLS server name: '' @ s"
| "out_error_text io_text (TlsTimeout what ep) = lit what @ lit '' handshake timeout to '' @ endpoint_display ep"
| "out_error_text io_text (TlsHandshake what ep k) = lit what @ lit '' handshake failed to '' @ endpoint_display ep"

definition classify_connect_error :: "(io_kind \<Rightarrow> rstring) \<Rightarrow> out_error \<Rightarrow> u8" where
  "classify_connect_error io_text e =
     (let msg = out_error_text io_text e in
      if contains msg (lit ''forbidden destination'') then REP_NOT_ALLOWED
      else if contains msg (lit ''refused'') then REP_CONNECTION_REFUSED
      else if contains msg (lit ''unreachable'') \<or> contains msg (lit ''timeout'') then REP_HOST_UNREACHABLE
      else REP_GENERAL_FAILURE)"

section \<open>The end of a relay\<close>

text \<open>An \<open>io::Error\<close>: its kind and its text.\<close>

datatype io_error = IoError io_kind rstring

definition IDLE_TIMEOUT_MSG :: rstring where "IDLE_TIMEOUT_MSG = lit ''idle timeout''"
definition SESSION_LIFETIME_MSG :: rstring where "SESSION_LIFETIME_MSG = lit ''max session lifetime''"

fun relay_io_error :: "(io_kind \<Rightarrow> rstring) \<Rightarrow> relay_error \<Rightarrow> io_error" where
  "relay_io_error io_text IdleTimeout = IoError TimedOut IDLE_TIMEOUT_MSG"
| "relay_io_error io_text SessionLifetime = IoError TimedOut SESSION_LIFETIME_MSG"
| "relay_io_error io_text (RelayIo k) = IoError k (io_text k)"

fun mux_error_text :: "mux_error \<Rightarrow> rstring" where
  "mux_error_text TooShort = lit ''mux metadata too short''"
| "mux_error_text (MetaTooLarge n) = lit ''mux metadata too large: '' @ fmt_dec n"
| "mux_error_text (ChunkTooLarge n) = lit ''mux chunk too large: '' @ fmt_dec n"
| "mux_error_text (UnknownNetwork b) = lit ''unknown mux network: '' @ fmt_hex2 b"
| "mux_error_text (UnknownStatus b) = lit ''unknown mux session status: '' @ fmt_hex2 b"
| "mux_error_text (MuxAddress e) = lit ''address parse error: '' @ vless_parse_error_text e"

fun mux_io_error :: "(io_kind \<Rightarrow> rstring) \<Rightarrow> mux_relay_error \<Rightarrow> io_error" where
  "mux_io_error io_text (MrIo k) = IoError k (io_text k)"
| "mux_io_error io_text (MrFrame e) = IoError InvalidData (mux_error_text e)"
| "mux_io_error io_text (MrConnect e) = IoError OtherIo (out_error_text io_text e)"
| "mux_io_error io_text MrNoTarget = IoError InvalidData (lit ''mux new frame without target'')"
| "mux_io_error io_text MrXudpNoTarget = IoError InvalidData (lit ''xudp new frame without target'')"
| "mux_io_error io_text (MrUnknownStatus b) = IoError InvalidData (lit ''unknown mux status: '' @ fmt_hex2 b)"
| "mux_io_error io_text (MrUnknownXudpStatus b) = IoError InvalidData (lit ''unknown xudp status: '' @ fmt_hex2 b)"
| "mux_io_error io_text MrConeMissing = IoError NotConnected (lit ''xudp cone missing'')"
| "mux_io_error io_text MrIdleTimeout = IoError TimedOut IDLE_TIMEOUT_MSG"
| "mux_io_error io_text MrSessionLifetime = IoError TimedOut SESSION_LIFETIME_MSG"

text \<open>\<open>io::Error::other\<close> of the errors of BIND and UDP ASSOCIATE.\<close>

fun bind_io_error :: "(io_kind \<Rightarrow> rstring) \<Rightarrow> bind_error \<Rightarrow> io_error" where
  "bind_io_error io_text (BindListen k) = IoError OtherIo (lit ''SOCKS5 BIND listen failed'')"
| "bind_io_error io_text (BindReply e) = IoError OtherIo (socks5_error_text io_text e)"
| "bind_io_error io_text BindAcceptTimeout = IoError OtherIo (lit ''SOCKS5 BIND accept timeout'')"
| "bind_io_error io_text (BindAccept k) = IoError OtherIo (lit ''SOCKS5 BIND accept failed'')"
| "bind_io_error io_text (BindRelay e) = IoError OtherIo (lit ''SOCKS5 BIND relay'')"

fun assoc_io_error :: "(io_kind \<Rightarrow> rstring) \<Rightarrow> assoc_error \<Rightarrow> io_error" where
  "assoc_io_error io_text (AssocBind k) = IoError OtherIo (lit ''SOCKS5 UDP relay bind failed'')"
| "assoc_io_error io_text (AssocReply e) = IoError OtherIo (socks5_error_text io_text e)"
| "assoc_io_error io_text (AssocRecv k) = IoError OtherIo (lit ''SOCKS5 UDP recv'')"

section \<open>A connection\<close>

record conn_env =
  ce_ct :: ct_eq
  ce_io_text :: "io_kind \<Rightarrow> rstring"
  ce_net :: net_env
  ce_tcp :: outbound_tcp
  ce_udp_private :: bool
  ce_allow_private :: bool
  ce_limits :: relay_limits
  ce_enabled :: enabled_protocols
  ce_store :: store_state
  ce_peer :: socket_addr

text \<open>
  What the environment does once the handshake is over: the clock, the local address of the
  upstream connection, the sockets of BIND and UDP ASSOCIATE, and the events of the relays.
\<close>

record conn_input =
  ci_now :: instant
  ci_local_addr :: "(socket_addr, io_kind) outcome"
  ci_unlimited :: "(instant \<times> copy_event) list \<Rightarrow> (u64 \<times> u64, relay_error) outcome \<times> copy_state"
  ci_copy :: "(instant \<times> copy_event) list"
  ci_udp :: "(instant \<times> udp_event) list"
  ci_mux_client_write :: "bytes \<Rightarrow> (unit, io_kind) outcome"
  ci_mux_upstream_write :: "nat \<Rightarrow> bytes \<Rightarrow> (unit, io_kind) outcome"
  ci_mux_send_to :: "nat \<Rightarrow> socket_addr \<Rightarrow> bytes \<Rightarrow> (unit, io_kind) outcome"
  ci_mux_bind :: "(nat, io_kind) outcome"
  ci_mux_manager :: xudp_manager
  ci_mux :: "(instant \<times> mux_event) list"
  ci_bind_listen :: "(socket_addr, io_kind) outcome"
  ci_bind_accept :: "(socket_addr, io_kind) outcome"
  ci_assoc_addr :: "(socket_addr, io_kind) outcome"
  ci_assoc :: "(instant \<times> assoc_event) list"

text \<open>
  The state: the client's stream, the addresses contacted on its behalf, the limiter and the
  counters (both shared by all connections), and the copy relay once it has run.
\<close>

record 's conn =
  cn_stream :: "'s prefixed_stream"
  cn_contacted :: "socket_addr list"
  cn_limiter :: "limiter option"
  cn_metrics :: metrics
  cn_copied :: "copy_state option"

datatype conn_error =
    HcReadByte io_kind
  | HcDetect core_error
  | HcHandshake inbound_error
  | HcForbidden core_error
  | HcConnect out_error
  | HcReply socks5_error
  | HcRelay io_error

type_synonym ('s, 'a) conn_io = "('s conn, 'a, conn_error) io"

definition on_client :: "('s, 'a, 'e) io \<Rightarrow> ('s conn, 'a, 'e) io" where
  "on_client m c =
     (case m (ps_inner (cn_stream c)) of (r, s) \<Rightarrow> (r, c\<lparr>cn_stream := (cn_stream c)\<lparr>ps_inner := s\<rparr>\<rparr>))"

definition on_stream :: "('s prefixed_stream, 'a, 'e) io \<Rightarrow> ('s conn, 'a, 'e) io" where
  "on_stream m c = (case m (cn_stream c) of (r, s) \<Rightarrow> (r, c\<lparr>cn_stream := s\<rparr>))"

definition on_net :: "'a net \<Rightarrow> ('s conn, 'a, out_error) io" where
  "on_net m c = (case m (cn_contacted c) of (r, log) \<Rightarrow> (r, c\<lparr>cn_contacted := log\<rparr>))"

definition observe :: "(metrics \<Rightarrow> metrics) \<Rightarrow> ('s conn, unit, 'e) io" where
  "observe f c = (Ok (), c\<lparr>cn_metrics := f (cn_metrics c)\<rparr>)"

definition finish_relay :: "string \<Rightarrow> (u64 \<times> u64, io_error) outcome \<Rightarrow> ('s, unit) conn_io" where
  "finish_relay label relay =
     (case relay of
        Ok (up, down) \<Rightarrow> observe (connection_closed label up down)
      | Err (IoError k msg) \<Rightarrow>
          if k = TimedOut \<and> msg = IDLE_TIMEOUT_MSG then observe (connection_closed label 0 0)
          else if k = TimedOut \<and> msg = SESSION_LIFETIME_MSG then observe (connection_closed label 0 0)
          else io_bind (observe (connection_failed label)) (\<lambda>_. io_lift (Err (HcRelay (IoError k msg))))
      | Panic \<Rightarrow> io_lift Panic
      | Pending \<Rightarrow> io_lift Pending)"

fun vless_metric_label :: "protocol \<Rightarrow> u8 \<Rightarrow> string" where
  "vless_metric_label Socks5 command = metric_label Socks5"
| "vless_metric_label Vless command =
     (if command = CMD_UDP then ''vless-udp''
      else if command = CMD_MUX then ''vless-mux''
      else metric_label Vless)"

definition record_auth_failure :: "ip_addr \<Rightarrow> string \<Rightarrow> instant \<Rightarrow> ('s conn, unit, 'e) io" where
  "record_auth_failure ip label now c =
     (Ok (), c\<lparr>cn_limiter := map_option (record_failure ip now) (cn_limiter c),
               cn_metrics := auth_failure label (cn_metrics c)\<rparr>)"

text \<open>Lines 594--603: the byte by which the protocol is recognised, when there is a choice.\<close>

definition sniff_byte :: "conn_env \<Rightarrow> 's reader \<Rightarrow> ('s, u8 option) conn_io" where
  "sniff_byte env rd =
     (if needs_sniffing (ce_enabled env) then
        io_bind (io_map_err HcReadByte (on_client (rd 1))) (\<lambda>first.
        io_bind (io_lift (idx first 0)) (\<lambda>b. io_lift (Ok (Some b))))
      else io_lift (Ok None))"

text \<open>Lines 607--616; both \<open>expect\<close>s panic.\<close>

definition choose_protocol :: "conn_env \<Rightarrow> u8 option \<Rightarrow> (protocol, conn_error) outcome" where
  "choose_protocol env prefix_byte =
     (if needs_sniffing (ce_enabled env) then
        (case prefix_byte of
           None \<Rightarrow> Panic
         | Some byte \<Rightarrow> map_err HcDetect (detect (ce_enabled env) byte))
      else (case sole (ce_enabled env) of None \<Rightarrow> Panic | Some p \<Rightarrow> Ok p))"

text \<open>Lines 591--631: the protocol, the handshake, and the bookkeeping of a failed one.\<close>

definition inbound_handshake ::
  "conn_env \<Rightarrow> conn_input \<Rightarrow> 's reader \<Rightarrow> 's writer \<Rightarrow> ('s, protocol \<times> inbound_request) conn_io" where
  "inbound_handshake env inp rd wr =
     io_bind (sniff_byte env rd) (\<lambda>prefix_byte.
     io_bind (\<lambda>c. (Ok (), c\<lparr>cn_stream := (cn_stream c)\<lparr>ps_prefix := prefix_byte\<rparr>\<rparr>)) (\<lambda>_.
     io_bind (io_lift (choose_protocol env prefix_byte)) (\<lambda>protocol.
     \<lambda>c. case on_stream (handshake_inbound (ce_ct env) protocol (prefixed_read rd) (prefixed_write wr)
              (store_socks5_config (ce_store env)) (store_vless_config (ce_store env))) c of
           (Ok req, c) \<Rightarrow> (Ok (protocol, req), c)
         | (Err e, c) \<Rightarrow>
             io_bind
               (if is_auth_failure (ce_io_text env) e
                then record_auth_failure (sock_ip (ce_peer env)) (metric_label protocol) (ci_now inp)
                else io_lift (Ok ()))
               (\<lambda>_. io_lift (Err (HcHandshake e))) c
         | (Panic, c) \<Rightarrow> (Panic, c)
         | (Pending, c) \<Rightarrow> (Pending, c))))"

text \<open>Lines 638--647.\<close>

definition serve_bind :: "conn_env \<Rightarrow> conn_input \<Rightarrow> 's writer \<Rightarrow> ('s, unit) conn_io" where
  "serve_bind env inp wr =
     io_bind (observe (connection_opened ''socks5-bind'')) (\<lambda>_.
     \<lambda>c. case copy_bidirectional_with_limits (ci_unlimited inp) (ce_limits env) (ci_now inp) (ci_copy inp) of
       (relay, cp) \<Rightarrow>
         (case on_stream (handle_socks5_bind (prefixed_write wr) (ci_bind_listen inp) (ci_bind_accept inp) relay) c of
            (r, c) \<Rightarrow>
              finish_relay ''socks5-bind''
                (map_err (bind_io_error (ce_io_text env)) (ebind r (\<lambda>_. Ok (0, 0)))) c))"

text \<open>Lines 648--658.\<close>

definition serve_udp_associate :: "conn_env \<Rightarrow> conn_input \<Rightarrow> 's writer \<Rightarrow> ('s, unit) conn_io" where
  "serve_udp_associate env inp wr =
     io_bind (observe (connection_opened ''socks5-udp'')) (\<lambda>_.
     \<lambda>c. case handle_socks5_udp_associate (prefixed_write wr) (ce_net env) (ce_udp_private env) (ce_limits env)
            (ci_assoc_addr inp) (ci_now inp) (ci_assoc inp)
            (cn_stream c, assoc_init (ce_limits env) (ci_now inp)) of
       (r, (s, st)) \<Rightarrow>
         finish_relay ''socks5-udp'' (map_err (assoc_io_error (ce_io_text env)) (ebind r (\<lambda>_. Ok (0, 0))))
           (c\<lparr>cn_stream := s, cn_contacted := cn_contacted c @ ac_contacted st\<rparr>))"

text \<open>Lines 674--684.\<close>

definition conn_mux_env :: "conn_env \<Rightarrow> conn_input \<Rightarrow> mux_env" where
  "conn_mux_env env inp =
     \<lparr>me_net = ce_net env, me_tcp = ce_tcp env, me_allow_private = ce_udp_private env,
      me_client_write = ci_mux_client_write inp, me_upstream_write = ci_mux_upstream_write inp,
      me_send_to = ci_mux_send_to inp, me_bind = ci_mux_bind inp\<rparr>"

definition serve_mux :: "conn_env \<Rightarrow> conn_input \<Rightarrow> string \<Rightarrow> ('s, unit) conn_io" where
  "serve_mux env inp label =
     (\<lambda>c. case relay_vless_mux (conn_mux_env env inp) (ce_limits env) (ci_mux inp)
            (mux_main_init (ce_limits env) (ci_now inp) (ci_mux_manager inp)) of
       (relay, m) \<Rightarrow>
         finish_relay label (map_err (mux_io_error (ce_io_text env)) relay)
           (c\<lparr>cn_contacted := cn_contacted c @ mx_contacted (mm_state m)\<rparr>))"

text \<open>Lines 686--704.\<close>

definition serve_udp :: "conn_env \<Rightarrow> conn_input \<Rightarrow> string \<Rightarrow> endpoint \<Rightarrow> ('s, unit) conn_io" where
  "serve_udp env inp label target =
     (\<lambda>c. case on_net (udp_connect (ce_net env) (ce_udp_private env) target) c of
       (Ok upstream, c) \<Rightarrow>
         finish_relay label
           (map_err (relay_io_error (ce_io_text env))
              (fst (relay_vless_udp (ce_limits env) (ci_udp inp) (udp_init (ce_limits env) (ci_now inp))))) c
     | (Err e, c) \<Rightarrow> io_bind (observe (connection_failed label)) (\<lambda>_. io_lift (Err (HcConnect e))) c
     | (Panic, c) \<Rightarrow> (Panic, c)
     | (Pending, c) \<Rightarrow> (Pending, c))"

text \<open>Lines 718--740: the SOCKS5 reply and the copy relay.\<close>

definition DUMMY_ADDR :: socket_addr where "DUMMY_ADDR = SockV4 (Ipv4 0 0 0 0) 0"

definition serve_connected ::
  "conn_env \<Rightarrow> conn_input \<Rightarrow> 's writer \<Rightarrow> protocol \<Rightarrow> string \<Rightarrow> ('s, unit) conn_io" where
  "serve_connected env inp wr protocol label =
     io_bind
       (if protocol = Socks5 then
          (let bound = (case ci_local_addr inp of Ok a \<Rightarrow> a | _ \<Rightarrow> DUMMY_ADDR)
           in io_map_err HcReply (on_stream (send_reply (prefixed_write wr) REP_SUCCEEDED bound)))
        else io_lift (Ok ())) (\<lambda>_.
     \<lambda>c. case copy_bidirectional_with_limits (ci_unlimited inp) (ce_limits env) (ci_now inp) (ci_copy inp) of
       (relay, cp) \<Rightarrow>
         finish_relay label (map_err (relay_io_error (ce_io_text env)) relay) (c\<lparr>cn_copied := Some cp\<rparr>))"

text \<open>Lines 706--740.\<close>

definition serve_tcp ::
  "conn_env \<Rightarrow> conn_input \<Rightarrow> 's writer \<Rightarrow> protocol \<Rightarrow> string \<Rightarrow> endpoint \<Rightarrow> ('s, unit) conn_io" where
  "serve_tcp env inp wr protocol label target =
     (\<lambda>c. case on_net (outbound_connect (ce_net env) (ce_tcp env) target) c of
       (Ok upstream, c) \<Rightarrow> serve_connected env inp wr protocol label c
     | (Err e, c) \<Rightarrow>
         io_bind
           (if protocol = Socks5
            then on_stream (io_ignore (send_error (prefixed_write wr) (classify_connect_error (ce_io_text env) e)))
            else io_lift (Ok ())) (\<lambda>_.
         io_bind (observe (connection_failed label)) (\<lambda>_. io_lift (Err (HcConnect e)))) c
     | (Panic, c) \<Rightarrow> (Panic, c)
     | (Pending, c) \<Rightarrow> (Pending, c))"

text \<open>Lines 663--740: everything after the SOCKS5 commands with sockets of their own.\<close>

definition serve_target ::
  "conn_env \<Rightarrow> conn_input \<Rightarrow> 's writer \<Rightarrow> protocol \<Rightarrow> u8 \<Rightarrow> endpoint \<Rightarrow> ('s, unit) conn_io" where
  "serve_target env inp wr protocol command target =
     (case validate_outbound_literal target (ce_allow_private env) of
        Err err \<Rightarrow>
          io_bind
            (if protocol = Socks5 then on_stream (io_ignore (send_error (prefixed_write wr) REP_NOT_ALLOWED))
             else io_lift (Ok ())) (\<lambda>_. io_lift (Err (HcForbidden err)))
      | _ \<Rightarrow>
          (let label = vless_metric_label protocol command in
           io_bind (observe (connection_opened label)) (\<lambda>_.
           if protocol = Vless \<and> command = CMD_MUX then serve_mux env inp label
           else if protocol = Vless \<and> command = CMD_UDP then serve_udp env inp label target
           else serve_tcp env inp wr protocol label target)))"

definition handle_connection ::
  "conn_env \<Rightarrow> conn_input \<Rightarrow> 's reader \<Rightarrow> 's writer \<Rightarrow> ('s, unit) conn_io" where
  "handle_connection env inp rd wr =
     io_bind (inbound_handshake env inp rd wr) (\<lambda>(protocol, inbound).
     let target = ir_target inbound; command = ir_command inbound in
     if protocol = Socks5 \<and> command = CMD_BIND then serve_bind env inp wr
     else if protocol = Socks5 \<and> command = CMD_UDP_ASSOCIATE then serve_udp_associate env inp wr
     else serve_target env inp wr protocol command target)"

section \<open>What a connection does to the shared state\<close>

abbreviation active :: "'s conn \<Rightarrow> int" where
  "active c \<equiv> mt_active (cn_metrics c)"

lemma lifted_fields:
  "on_client m c = (r, c') \<Longrightarrow> cn_metrics c' = cn_metrics c \<and> cn_limiter c' = cn_limiter c \<and> cn_contacted c' = cn_contacted c"
  "on_stream m' c = (r', c') \<Longrightarrow> cn_metrics c' = cn_metrics c \<and> cn_limiter c' = cn_limiter c \<and> cn_contacted c' = cn_contacted c"
  "on_net n c = (r'', c') \<Longrightarrow> cn_metrics c' = cn_metrics c \<and> cn_limiter c' = cn_limiter c"
  by (auto simp: on_client_def on_stream_def on_net_def split: prod.splits)

lemma on_stream_snd [simp]:
  "cn_metrics (snd (on_stream m c)) = cn_metrics c" "cn_limiter (snd (on_stream m c)) = cn_limiter c"
  "cn_contacted (snd (on_stream m c)) = cn_contacted c"
  by (simp_all add: on_stream_def split: prod.splits)

lemma finish_relay_fields:
  assumes "finish_relay label relay c = (r, c')"
  shows "(returns r \<longrightarrow> active c' = active c - 1) \<and> cn_limiter c' = cn_limiter c \<and> cn_contacted c' = cn_contacted c \<and>
     (\<forall>e. r \<noteq> Err (HcReply e)) \<and> (\<forall>e. r \<noteq> Err (HcHandshake e))"
  using assms by (auto simp: finish_relay_def observe_def io_bind_def io_lift_def
      split: outcome.splits prod.splits io_error.splits if_split_asm)

text \<open>The limiter after a connection that ended with the result \<open>r\<close>.\<close>

definition limiter_after :: "conn_env \<Rightarrow> conn_input \<Rightarrow> ('a, conn_error) outcome \<Rightarrow> limiter option \<Rightarrow> limiter option" where
  "limiter_after env inp r l =
     (case r of
        Err (HcHandshake e) \<Rightarrow>
          if is_auth_failure (ce_io_text env) e
          then map_option (record_failure (sock_ip (ce_peer env)) (ci_now inp)) l else l
      | _ \<Rightarrow> l)"

lemma sniff_byte_fields:
  assumes "sniff_byte env rd c = (r, c')"
  shows "cn_metrics c' = cn_metrics c \<and> cn_limiter c' = cn_limiter c \<and> cn_contacted c' = cn_contacted c \<and>
    (\<forall>e. r \<noteq> Err (HcReply e)) \<and> (\<forall>e. r \<noteq> Err (HcHandshake e))"
proof (cases "needs_sniffing (ce_enabled env)")
  case True
  obtain r1 c1 where run: "on_client (rd 1) c = (r1, c1)" by (cases "on_client (rd 1) c")
  with lifted_fields(1) [OF run] True assms show ?thesis
    by (cases r1) (auto simp: sniff_byte_def io_bind_def io_map_err_def io_lift_def idx_def split: if_split_asm)
next
  case False
  with assms show ?thesis by (auto simp: sniff_byte_def io_lift_def)
qed

lemma choose_protocol_errs:
  "choose_protocol env b \<noteq> Err (HcReply e)" "choose_protocol env b \<noteq> Err (HcHandshake e')"
  by (auto simp: choose_protocol_def map_err_eq_Err_conv split: option.splits)

lemma inbound_handshake_fields:
  assumes "inbound_handshake env inp rd wr c = (r, c')"
  shows "active c' = active c \<and> cn_contacted c' = cn_contacted c \<and> (\<forall>e. r \<noteq> Err (HcReply e)) \<and>
    cn_limiter c' = limiter_after env inp r (cn_limiter c)"
proof -
  obtain r1 c1 where sniff: "sniff_byte env rd c = (r1, c1)" by (cases "sniff_byte env rd c")
  note f1 = sniff_byte_fields [OF sniff]
  show ?thesis
  proof (cases "\<exists>b p. r1 = Ok b \<and> choose_protocol env b = Ok p")
    case False
    with assms sniff f1 choose_protocol_errs show ?thesis
      by (cases r1) (auto simp: inbound_handshake_def io_bind_def io_lift_def limiter_after_def split: outcome.splits conn_error.splits)
  next
    case True
    then obtain b p where r1: "r1 = Ok b" and p: "choose_protocol env b = Ok p" by blast
    let ?c2 = "c1\<lparr>cn_stream := (cn_stream c1)\<lparr>ps_prefix := b\<rparr>\<rparr>"
    let ?hs = "handshake_inbound (ce_ct env) p (prefixed_read rd) (prefixed_write wr)
              (store_socks5_config (ce_store env)) (store_vless_config (ce_store env))"
    obtain r2 c3 where hs: "on_stream ?hs ?c2 = (r2, c3)" by (cases "on_stream ?hs ?c2")
    with lifted_fields(2) [OF hs] f1 sniff r1 p assms show ?thesis
      by (cases r2) (auto simp: inbound_handshake_def io_bind_def io_lift_def record_auth_failure_def limiter_after_def
          split: if_split_asm)
  qed
qed

text \<open>
  After the handshake: a connection that was counted as opened is counted as closed or failed,
  unless the reply that announces the upstream connection cannot be written; the limiter is not
  touched; every contacted address is permitted.
\<close>

definition served :: "conn_env \<Rightarrow> 's conn \<Rightarrow> (unit, conn_error) outcome \<times> 's conn \<Rightarrow> bool" where
  "served env c = (\<lambda>(r, c').
     (returns r \<longrightarrow> active c' = active c + of_bool (\<exists>e. r = Err (HcReply e))) \<and>
     cn_limiter c' = cn_limiter c \<and> (\<forall>e. r \<noteq> Err (HcHandshake e)) \<and>
     (\<exists>new. cn_contacted c' = cn_contacted c @ new \<and>
        list_all (permitted (allows_private (ce_tcp env) \<or> ce_udp_private env)) new))"

lemma permitted_weaken:
  "list_all (permitted a) xs \<Longrightarrow> a \<longrightarrow> b \<Longrightarrow> list_all (permitted b) xs"
  by (auto simp: list_all_iff permitted_def)

lemma served_finish:
  assumes "active c1 = active c + 1" and "cn_limiter c1 = cn_limiter c"
    and "cn_contacted c1 = cn_contacted c @ new"
    and "list_all (permitted (allows_private (ce_tcp env) \<or> ce_udp_private env)) new"
  shows "served env c (finish_relay label relay c1)"
proof -
  obtain r c' where "finish_relay label relay c1 = (r, c')" by (cases "finish_relay label relay c1")
  with finish_relay_fields [OF this] assms show ?thesis by (auto simp: served_def)
qed

lemma served_finish_same:
  assumes "active c1 = active c + 1" and "cn_limiter c1 = cn_limiter c" and "cn_contacted c1 = cn_contacted c"
  shows "served env c (finish_relay label relay c1)"
  using served_finish [of c1 c "[]"] assms by simp

lemma serve_bind_served: "served env c (serve_bind env inp wr c)"
proof -
  let ?c1 = "c\<lparr>cn_metrics := connection_opened ''socks5-bind'' (cn_metrics c)\<rparr>"
  obtain relay cp where cp: "copy_bidirectional_with_limits (ci_unlimited inp) (ce_limits env) (ci_now inp) (ci_copy inp) = (relay, cp)"
    by (cases "copy_bidirectional_with_limits (ci_unlimited inp) (ce_limits env) (ci_now inp) (ci_copy inp)")
  let ?bind = "handle_socks5_bind (prefixed_write wr) (ci_bind_listen inp) (ci_bind_accept inp) relay"
  obtain r c2 where run: "on_stream ?bind ?c1 = (r, c2)" by (cases "on_stream ?bind ?c1")
  have "serve_bind env inp wr c =
      finish_relay ''socks5-bind'' (map_err (bind_io_error (ce_io_text env)) (ebind r (\<lambda>_. Ok (0, 0)))) c2"
    by (simp add: serve_bind_def io_bind_def observe_def cp run)
  then show ?thesis using lifted_fields(2) [OF run] by (simp add: served_finish_same)
qed

lemma udp_associate_contacts:
  assumes "handle_socks5_udp_associate wr env ap lim addr now evs (s, assoc_init lim now) = (r, (s', st))"
  shows "list_all (permitted ap) (ac_contacted st)"
proof -
  obtain r1 st1 where loop: "assoc_loop env ap lim evs (assoc_init lim now) = (r1, st1)"
    by (cases "assoc_loop env ap lim evs (assoc_init lim now)")
  from assoc_loop_grows [OF this] have "list_all (permitted ap) (ac_contacted st1)" by (simp add: assoc_init_def)
  moreover have "ac_contacted (assoc_init lim now) = []" by (simp add: assoc_init_def)
  moreover have "st = st1 \<or> st = assoc_init lim now"
    using assms loop by (auto simp: handle_socks5_udp_associate_def split: outcome.splits prod.splits)
  ultimately show ?thesis by auto
qed

lemma serve_udp_associate_served: "served env c (serve_udp_associate env inp wr c)"
proof -
  let ?c1 = "c\<lparr>cn_metrics := connection_opened ''socks5-udp'' (cn_metrics c)\<rparr>"
  let ?run = "handle_socks5_udp_associate (prefixed_write wr) (ce_net env) (ce_udp_private env) (ce_limits env)
            (ci_assoc_addr inp) (ci_now inp) (ci_assoc inp) (cn_stream c, assoc_init (ce_limits env) (ci_now inp))"
  obtain r s st where run: "?run = (r, (s, st))" by (cases "?run") auto
  have "serve_udp_associate env inp wr c =
      finish_relay ''socks5-udp'' (map_err (assoc_io_error (ce_io_text env)) (ebind r (\<lambda>_. Ok (0, 0))))
        (?c1\<lparr>cn_stream := s, cn_contacted := cn_contacted c @ ac_contacted st\<rparr>)"
    by (simp add: serve_udp_associate_def io_bind_def observe_def run)
  then show ?thesis
    using permitted_weaken [OF udp_associate_contacts [OF run]] by (simp add: served_finish [where new = "ac_contacted st"])
qed

lemma serve_mux_served:
  assumes "active c1 = active c + 1" and "cn_limiter c1 = cn_limiter c" and "cn_contacted c1 = cn_contacted c"
  shows "served env c (serve_mux env inp label c1)"
proof -
  let ?run = "relay_vless_mux (conn_mux_env env inp) (ce_limits env) (ci_mux inp)
            (mux_main_init (ce_limits env) (ci_now inp) (ci_mux_manager inp))"
  obtain relay m where run: "?run = (relay, m)" by (cases "?run")
  have "mux_safe (conn_mux_env env inp) (snd ?run)" by (rule mux_safe_run [OF mux_safe_init])
  then have "mux_safe (conn_mux_env env inp) m" by (simp only: run snd_conv)
  then have "list_all (permitted (allows_private (ce_tcp env) \<or> ce_udp_private env)) (mx_contacted (mm_state m))"
    by (simp add: mux_safe_def conn_mux_env_def permitted_def [abs_def] disj_assoc)
  then show ?thesis
    using assms by (simp add: serve_mux_def run served_finish [where new = "mx_contacted (mm_state m)"])
qed

lemma on_net_fields:
  assumes "on_net n c = (r, c')" and "contacts_only P n"
  shows "\<exists>new. cn_contacted c' = cn_contacted c @ new \<and> list_all P new"
proof -
  obtain new where "snd (n (cn_contacted c)) = cn_contacted c @ new" and "list_all P new"
    using assms(2) unfolding contacts_only_def by blast
  then show ?thesis using assms(1) by (auto simp: on_net_def split: prod.splits)
qed

lemma served_failed:
  assumes "active c1 = active c + 1" and "cn_limiter c1 = cn_limiter c"
    and "cn_contacted c1 = cn_contacted c @ new"
    and "list_all (permitted (allows_private (ce_tcp env) \<or> ce_udp_private env)) new"
  shows "served env c (io_bind (observe (connection_failed label)) (\<lambda>_. io_lift (Err (HcConnect e))) c1)"
  using assms by (auto simp: served_def io_bind_def observe_def io_lift_def)

lemma serve_udp_served:
  assumes "active c1 = active c + 1" and "cn_limiter c1 = cn_limiter c" and "cn_contacted c1 = cn_contacted c"
  shows "served env c (serve_udp env inp label target c1)"
proof -
  let ?net = "udp_connect (ce_net env) (ce_udp_private env) target"
  obtain r c2 where run: "on_net ?net c1 = (r, c2)" by (cases "on_net ?net c1")
  obtain new where new: "cn_contacted c2 = cn_contacted c @ new" and
      ok: "list_all (permitted (allows_private (ce_tcp env) \<or> ce_udp_private env)) new"
    using on_net_fields [OF run udp_connect_contacts] permitted_weaken assms by force
  show ?thesis
    using lifted_fields(3) [OF run] assms new ok
    by (cases r) (auto simp: serve_udp_def run intro!: served_finish served_failed, auto simp: served_def)
qed

lemma serve_connected_served:
  assumes "active c1 = active c + 1" and "cn_limiter c1 = cn_limiter c"
    and "cn_contacted c1 = cn_contacted c @ new"
    and "list_all (permitted (allows_private (ce_tcp env) \<or> ce_udp_private env)) new"
  shows "served env c (serve_connected env inp wr protocol label c1)"
proof -
  let ?reply = "if protocol = Socks5 then
          (let bound = (case ci_local_addr inp of Ok a \<Rightarrow> a | _ \<Rightarrow> DUMMY_ADDR)
           in io_map_err HcReply (on_stream (send_reply (prefixed_write wr) REP_SUCCEEDED bound)))
        else io_lift (Ok ())"
  obtain relay cp where cp: "copy_bidirectional_with_limits (ci_unlimited inp) (ce_limits env) (ci_now inp) (ci_copy inp) = (relay, cp)"
    by (cases "copy_bidirectional_with_limits (ci_unlimited inp) (ce_limits env) (ci_now inp) (ci_copy inp)")
  obtain r c2 where run: "?reply c1 = (r, c2)" by (cases "?reply c1")
  have fields: "cn_metrics c2 = cn_metrics c1 \<and> cn_limiter c2 = cn_limiter c1 \<and> cn_contacted c2 = cn_contacted c1 \<and>
      (\<forall>e. r = Err e \<longrightarrow> (\<exists>e'. e = HcReply e'))"
    using run by (auto simp: Let_def io_map_err_def io_lift_def map_err_eq_Err_conv
        split: if_split_asm)
  have eq: "serve_connected env inp wr protocol label c1 =
      (case r of Ok u \<Rightarrow> finish_relay label (map_err (relay_io_error (ce_io_text env)) relay) (c2\<lparr>cn_copied := Some cp\<rparr>)
       | Err e \<Rightarrow> (Err e, c2) | Panic \<Rightarrow> (Panic, c2) | Pending \<Rightarrow> (Pending, c2))"
    unfolding serve_connected_def io_bind_def run cp by (cases r) simp_all
  show ?thesis
  proof (cases r)
    case (Ok u)
    with eq fields assms show ?thesis by (auto intro!: served_finish)
  qed (use eq fields assms in \<open>auto simp: served_def\<close>)
qed

lemma serve_tcp_served:
  assumes "active c1 = active c + 1" and "cn_limiter c1 = cn_limiter c" and "cn_contacted c1 = cn_contacted c"
  shows "served env c (serve_tcp env inp wr protocol label target c1)"
proof -
  let ?net = "outbound_connect (ce_net env) (ce_tcp env) target"
  obtain r c2 where run: "on_net ?net c1 = (r, c2)" by (cases "on_net ?net c1")
  obtain new where new: "cn_contacted c2 = cn_contacted c @ new" and
      ok: "list_all (permitted (allows_private (ce_tcp env) \<or> ce_udp_private env)) new"
    using on_net_fields [OF run outbound_connect_contacts] permitted_weaken assms by force
  note fields = lifted_fields(3) [OF run] assms new ok
  show ?thesis
  proof (cases r)
    case (Ok u)
    with fields show ?thesis by (auto simp: serve_tcp_def run intro!: serve_connected_served)
  next
    case (Err e)
    let ?told = "if protocol = Socks5
            then on_stream (io_ignore (send_error (prefixed_write wr) (classify_connect_error (ce_io_text env) e)))
            else io_lift (Ok ()) :: ('a, unit) conn_io"
    obtain r3 c3 where told: "?told c2 = (r3, c3)" by (cases "?told c2")
    then have "cn_metrics c3 = cn_metrics c2 \<and> cn_limiter c3 = cn_limiter c2 \<and> cn_contacted c3 = cn_contacted c2 \<and>
        (\<forall>e. r3 \<noteq> Err e)"
      by (auto simp: io_lift_def on_stream_def io_ignore_def split: if_split_asm prod.splits outcome.splits)
    moreover have "serve_tcp env inp wr protocol label target c1 =
        (case r3 of Ok u \<Rightarrow> io_bind (observe (connection_failed label)) (\<lambda>_. io_lift (Err (HcConnect e))) c3
         | Err e \<Rightarrow> (Err e, c3) | Panic \<Rightarrow> (Panic, c3) | Pending \<Rightarrow> (Pending, c3))"
      unfolding serve_tcp_def run Err by (simp add: io_bind_def [of ?told] told split: outcome.splits)
    ultimately show ?thesis
      using fields by (cases r3) (auto intro!: served_failed, auto simp: served_def)
  qed (use fields in \<open>auto simp: serve_tcp_def run served_def\<close>)
qed

lemma serve_target_served: "served env c (serve_target env inp wr protocol command target c)"
proof -
  let ?told = "if protocol = Socks5 then on_stream (io_ignore (send_error (prefixed_write wr) REP_NOT_ALLOWED))
             else io_lift (Ok ()) :: ('a, unit) conn_io"
  show ?thesis
  proof (cases "\<exists>err. validate_outbound_literal target (ce_allow_private env) = Err err")
    case True
    then obtain err where err: "validate_outbound_literal target (ce_allow_private env) = Err err" by blast
    obtain r c1 where told: "?told c = (r, c1)" by (cases "?told c")
    then have "cn_metrics c1 = cn_metrics c \<and> cn_limiter c1 = cn_limiter c \<and> cn_contacted c1 = cn_contacted c \<and>
        (\<forall>e. r \<noteq> Err e)"
      by (auto simp: io_lift_def on_stream_def io_ignore_def split: if_split_asm prod.splits outcome.splits)
    moreover have "serve_target env inp wr protocol command target c =
        (case r of Ok u \<Rightarrow> (Err (HcForbidden err), c1) | Err e \<Rightarrow> (Err e, c1) | Panic \<Rightarrow> (Panic, c1) | Pending \<Rightarrow> (Pending, c1))"
      unfolding serve_target_def err by (cases r) (simp_all add: io_bind_def told, simp_all add: io_lift_def)
    ultimately show ?thesis by (cases r) (auto simp: served_def)
  next
    case False
    let ?label = "vless_metric_label protocol command"
    let ?c1 = "c\<lparr>cn_metrics := connection_opened ?label (cn_metrics c)\<rparr>"
    have "serve_target env inp wr protocol command target c =
        (if protocol = Vless \<and> command = CMD_MUX then serve_mux env inp ?label
           else if protocol = Vless \<and> command = CMD_UDP then serve_udp env inp ?label target
           else serve_tcp env inp wr protocol ?label target) ?c1"
      using False by (auto simp: serve_target_def io_bind_def observe_def Let_def split: outcome.splits)
    then show ?thesis
      by (simp add: serve_mux_served serve_udp_served serve_tcp_served)
  qed
qed

lemma handle_connection_summary:
  assumes "handle_connection env inp rd wr c = (r, c')"
  shows "(returns r \<longrightarrow> active c' = active c + of_bool (\<exists>e. r = Err (HcReply e))) \<and>
     cn_limiter c' = limiter_after env inp r (cn_limiter c) \<and>
     (\<exists>new. cn_contacted c' = cn_contacted c @ new \<and>
        list_all (permitted (allows_private (ce_tcp env) \<or> ce_udp_private env)) new)"
proof -
  obtain r1 c1 where hs: "inbound_handshake env inp rd wr c = (r1, c1)" by (cases "inbound_handshake env inp rd wr c")
  note fields = inbound_handshake_fields [OF hs]
  show ?thesis
  proof (cases "\<exists>p req. r1 = Ok (p, req)")
    case True
    then obtain p req where r1: "r1 = Ok (p, req)" by blast
    have "served env c1 (r, c')"
      using assms serve_bind_served [of env c1 inp wr] serve_udp_associate_served [of env c1 inp wr]
        serve_target_served [of env c1 inp wr p "ir_command req" "ir_target req"]
      by (simp add: handle_connection_def io_bind_def hs r1 Let_def split: if_split_asm)
    with fields r1 show ?thesis
      by (auto simp: served_def limiter_after_def split: outcome.splits conn_error.splits)
  next
    case False
    then show ?thesis
      using assms hs fields by (cases r1) (auto simp: handle_connection_def io_bind_def limiter_after_def
          split: conn_error.splits if_split_asm)
  qed
qed

section \<open>Sniffing\<close>

lemma inbound_handshake_run:
  assumes "sniff_byte env rd c = (Ok b, c1)" and "choose_protocol env b = Ok p"
    and "handshake_inbound (ce_ct env) p (prefixed_read rd) (prefixed_write wr)
        (store_socks5_config (ce_store env)) (store_vless_config (ce_store env))
        ((cn_stream c1)\<lparr>ps_prefix := b\<rparr>) = (r, t)"
  shows "fst (inbound_handshake env inp rd wr c) = ebind (map_err HcHandshake r) (\<lambda>req. Ok (p, req)) \<and>
    cn_stream (snd (inbound_handshake env inp rd wr c)) = t"
  using assms by (cases r) (simp_all add: inbound_handshake_def io_bind_def io_lift_def on_stream_def record_auth_failure_def)

context byte_stream
begin

lemma read_one:
  assumes "rx (view s) = b # rest"
  obtains t where "rd 1 s = (Ok [b], t)" and "view t = (view s)\<lparr>rx := rest\<rparr>"
proof -
  obtain r t where run: "rd 1 s = (r, t)" by (cases "rd 1 s")
  from sim_run [OF read_view run] assms have "r = Ok [b]" and "view t = (view s)\<lparr>rx := rest\<rparr>"
    by (auto simp: flat_read_def)
  with run that show thesis by blast
qed

lemma sniffed_handshake:
  fixes env :: conn_env and inp :: conn_input and c :: "'s conn"
  assumes both: "needs_sniffing (ce_enabled env)" and fresh: "cn_stream c = \<lparr>ps_inner = s, ps_prefix = None\<rparr>"
    and first: "rx (view s) = b # rest"
  defines "run \<equiv> inbound_handshake env inp rd wr c"
    and "hs \<equiv> \<lambda>p. handshake_inbound (ce_ct env) p flat_read flat_write
        (store_socks5_config (ce_store env)) (store_vless_config (ce_store env)) (view s)"
  shows "fst run = ebind (map_err HcDetect (detect (ce_enabled env) b))
          (\<lambda>p. ebind (map_err HcHandshake (fst (hs p))) (\<lambda>req. Ok (p, req))) \<and>
    prefixed_view view (cn_stream (snd run)) =
          (case detect (ce_enabled env) b of Ok p \<Rightarrow> snd (hs p) | _ \<Rightarrow> view s)"
proof -
  obtain t where t: "rd 1 s = (Ok [b], t)" "view t = (view s)\<lparr>rx := rest\<rparr>" by (rule read_one [OF first])
  let ?c1 = "c\<lparr>cn_stream := \<lparr>ps_inner = t, ps_prefix = None\<rparr>\<rparr>"
  have sniff: "sniff_byte env rd c = (Ok (Some b), ?c1)"
    using both fresh t by (simp add: sniff_byte_def io_bind_def io_lift_def io_map_err_def on_client_def idx_def)
  let ?u = "\<lparr>ps_inner = t, ps_prefix = Some b\<rparr>"
  have unread: "prefixed_view view ?u = view s"
    using t first by (simp add: prefixed_view_def)
  show ?thesis
  proof (cases "detect (ce_enabled env) b")
    case (Ok p)
    then have p: "choose_protocol env (Some b) = Ok p" using both by (simp add: choose_protocol_def)
    let ?m = "handshake_inbound (ce_ct env) p (prefixed_read rd) (prefixed_write wr)
        (store_socks5_config (ce_store env)) (store_vless_config (ce_store env))"
    obtain r v where m: "?m ?u = (r, v)" by (cases "?m ?u")
    have "hs p = (r, prefixed_view view v)"
      using sim_run [OF byte_stream.handshake_inbound_sim [OF prefixed_stream] m] unread by (simp add: hs_def)
    moreover have "fst run = ebind (map_err HcHandshake r) (\<lambda>req. Ok (p, req)) \<and> cn_stream (snd run) = v"
      unfolding run_def by (rule inbound_handshake_run [OF sniff p]) (use m in simp)
    ultimately show ?thesis using Ok by simp
  qed (use sniff both unread in \<open>simp_all add: run_def inbound_handshake_def io_bind_def io_lift_def choose_protocol_def\<close>)
qed

end

section \<open>Reply codes\<close>

lemma contains_part_of: "contains (xs @ pat @ ys) pat"
  by (auto simp: contains_iff)

lemma contains_set: "contains xs pat \<Longrightarrow> set pat \<subseteq> set xs"
  by (auto simp: contains_iff)

lemma hex_digit_small: "n < 16 \<Longrightarrow> hex_digit n \<le> 0x66"
  by (simp add: hex_digit_def word_le_nat_alt unat_of_nat del: of_nat_add)

lemma fmt_dec_small: "list_all (\<lambda>b. b \<le> 0x66) (fmt_dec n)"
  unfolding list_all_iff
proof
  fix b assume "b \<in> set (fmt_dec n)"
  from fmt_dec_digits [OF this] have "b \<le> 0x39" by simp
  then show "b \<le> 0x66" by (rule order_trans) simp
qed

lemma fmt_hex_small: "list_all (\<lambda>b. b \<le> 0x66) (fmt_hex n)"
  by (induction n rule: fmt_hex.induct) (subst fmt_hex.simps, auto simp: hex_digit_small)

lemma fmt_segments_small: "list_all (\<lambda>b. b \<le> 0x66) (fmt_segments gs)"
  by (induction gs rule: fmt_segments.induct) (simp_all add: fmt_hex_small)

lemma fmt_ipv4_small: "list_all (\<lambda>b. b \<le> 0x66) (fmt_ipv4 ip)"
  by (cases ip) (simp add: fmt_dec_small)

lemma fmt_sock_small: "list_all (\<lambda>b. b \<le> 0x66) (fmt_sock a)"
  by (cases a) (auto simp: fmt_ipv4_small fmt_dec_small fmt_ipv6_def Let_def fmt_segments_small lit_def
      split: option.split prod.split)

lemma no_r_in_addr: "0x72 \<notin> set (fmt_sock a)"
  using fmt_sock_small [of a] by (auto simp: list_all_iff)

lemma lacks_byte: "b \<in> set pat \<Longrightarrow> b \<notin> set xs \<Longrightarrow> \<not> contains xs pat"
  using contains_set [of xs pat] by auto

text \<open>
  A server for SOCKS5 without authentication on a calm network, and a client that asks for
  \<open>8.8.8.8:53\<close> and reads \<open>room\<close> bytes of the answers.
\<close>

definition sample_env :: "enabled_protocols \<Rightarrow> conn_env" where
  "sample_env en =
     \<lparr>ce_ct = (=), ce_io_text = (\<lambda>_. []), ce_net = calm_net, ce_tcp = OutPlain False, ce_udp_private = False,
      ce_allow_private = False, ce_limits = \<lparr>rl_idle = None, rl_max_lifetime = None\<rparr>, ce_enabled = en,
      ce_store = \<lparr>st_vless_enabled = True, st_socks_enabled = True, st_socks_auth = NoAuth, st_socks_bind = False,
        st_socks_udp_associate = False, st_vless_users = [], st_socks_users = []\<rparr>,
      ce_peer = SockV4 (Ipv4 192 0 2 1) 4000\<rparr>"

definition sample_input :: conn_input where
  "sample_input =
     \<lparr>ci_now = 0, ci_local_addr = Err OtherIo, ci_unlimited = (\<lambda>_. (Ok (0, 0), copy_init \<lparr>rl_idle = None, rl_max_lifetime = None\<rparr> 0)),
      ci_copy = [], ci_udp = [],
      ci_mux_client_write = (\<lambda>_. Ok ()), ci_mux_upstream_write = (\<lambda>_ _. Ok ()), ci_mux_send_to = (\<lambda>_ _ _. Ok ()),
      ci_mux_bind = Ok 0, ci_mux_manager = \<lparr>xm_entries = [], xm_aborted = []\<rparr>, ci_mux = [], ci_bind_listen = Err OtherIo, ci_bind_accept = Err OtherIo,
      ci_assoc_addr = Err OtherIo, ci_assoc = []\<rparr>"

definition sample_conn :: "nat option \<Rightarrow> stream conn" where
  "sample_conn room =
     \<lparr>cn_stream = \<lparr>ps_inner = \<lparr>rx = [5, 1, 0, 5, 1, 0, 1, 8, 8, 8, 8, 0, 53], rx_end = Closed, tx = [], tx_room = room\<rparr>,
        ps_prefix = None\<rparr>, cn_contacted = [], cn_limiter = None, cn_metrics = metrics_zero, cn_copied = None\<rparr>"





section \<open>Properties\<close>



text \<open>C8: whatever a client asks for, by any protocol and any command, and whatever arrives on its
  relays, the server contacts on its behalf only addresses that the outbound policy permits: with
  private destinations off for the TCP and the UDP transport, no address in the blocked ranges. The
  addresses contacted before the connection are kept.\<close>
theorem connection_contacts_permitted:
  "\<exists>new. cn_contacted (snd (handle_connection env inp rd wr c)) = cn_contacted c @ new \<and>
     list_all (permitted (allows_private (ce_tcp env) \<or> ce_udp_private env)) new"
  using handle_connection_summary [of env inp rd wr c] by (simp add: prod_eq_iff)

text \<open>C9: the first byte of a connection decides the protocol and is not lost. On a port shared by
  both protocols, for every stream that behaves like a byte stream, the inbound handshake gives the
  result, and leaves the stream in the state, that the detected protocol's handshake gives on the
  stream nothing was read from; a byte of no protocol, or of a disabled one, ends the connection with
  nothing written and nothing consumed.\<close>
theorem sniffing_is_transparent:
  fixes env :: conn_env and inp :: conn_input and c :: "'s conn"
  assumes "byte_stream rd wr view" and "needs_sniffing (ce_enabled env)"
    and "cn_stream c = \<lparr>ps_inner = s, ps_prefix = None\<rparr>" and "rx (view s) = b # rest"
  defines "run \<equiv> inbound_handshake env inp rd wr c"
    and "hs \<equiv> \<lambda>p. handshake_inbound (ce_ct env) p flat_read flat_write
        (store_socks5_config (ce_store env)) (store_vless_config (ce_store env)) (view s)"
  shows "fst run = ebind (map_err HcDetect (detect (ce_enabled env) b))
          (\<lambda>p. ebind (map_err HcHandshake (fst (hs p))) (\<lambda>req. Ok (p, req))) \<and>
    prefixed_view view (cn_stream (snd run)) =
          (case detect (ce_enabled env) b of Ok p \<Rightarrow> snd (hs p) | _ \<Rightarrow> view s)"
  unfolding run_def hs_def by (rule byte_stream.sniffed_handshake [OF assms(1-4)])

theorem sniffing_is_transparent_witness:
  "fst (inbound_handshake (sample_env \<lparr>ep_socks5 = True, ep_vless = True\<rparr>) sample_input flat_read flat_write
     ((sample_conn None)\<lparr>cn_stream := \<lparr>ps_inner = \<lparr>rx = [7, 1], rx_end = Closed, tx = [], tx_room = None\<rparr>, ps_prefix = None\<rparr>\<rparr>)) =
   Err (HcDetect (UnknownProtocolByte 7))"
  using sniffing_is_transparent [OF flat.byte_stream_axioms,
      of "sample_env \<lparr>ep_socks5 = True, ep_vless = True\<rparr>"
        "(sample_conn None)\<lparr>cn_stream := \<lparr>ps_inner = \<lparr>rx = [7, 1], rx_end = Closed, tx = [], tx_room = None\<rparr>, ps_prefix = None\<rparr>\<rparr>"
        "\<lparr>rx = [7, 1], rx_end = Closed, tx = [], tx_room = None\<rparr>" 7 "[1]"]
  by (simp add: needs_sniffing_def enabled_count_def sample_env_def detect_def from_wire_byte_def
      SOCKS5_WIRE_BYTE_def VLESS_WIRE_BYTE_def)

text \<open>The reply a SOCKS5 client gets when the upstream connection fails is chosen by the text of the
  error. A forbidden destination and a connection attempt that ran into the server's own timeout are
  told apart for every address; but the text of a failed resolution quotes the name the client sent,
  so a client whose name contains the word \<open>refused\<close> is told that the connection was refused, for every
  port and every cause.\<close>
lemma reply_code_follows_text:
  "classify_connect_error io_text (out_error.Refused (ForbiddenDestination a)) = REP_NOT_ALLOWED \<and>
   classify_connect_error io_text (ConnectTimeout a) = REP_HOST_UNREACHABLE \<and>
   classify_connect_error io_text (ResolveFailed (host_port (lit ''refused.example'') port) k) = REP_CONNECTION_REFUSED"
proof (intro conjI)
  show "classify_connect_error io_text (out_error.Refused (ForbiddenDestination a)) = REP_NOT_ALLOWED"
    using contains_part_of [of "[]" "lit ''forbidden destination''" "lit '': '' @ fmt_sock a"]
    by (simp add: classify_connect_error_def Let_def lit_def)
next
  have "contains (lit ''connect timeout to '' @ fmt_sock a) (lit ''timeout'')"
    using contains_part_of [of "lit ''connect ''" "lit ''timeout''" "lit '' to '' @ fmt_sock a"] by (simp add: lit_def)
  moreover have "0x72 \<notin> set (lit ''connect timeout to '' @ fmt_sock a)"
    using no_r_in_addr [of a] by (simp add: lit_def)
  ultimately show "classify_connect_error io_text (ConnectTimeout a) = REP_HOST_UNREACHABLE"
    using lacks_byte [of "0x72" "lit ''refused''"] lacks_byte [of "0x72" "lit ''forbidden destination''"]
    by (simp add: classify_connect_error_def Let_def lit_def)
next
  show "classify_connect_error io_text (ResolveFailed (host_port (lit ''refused.example'') port) k) = REP_CONNECTION_REFUSED"
  proof -
    let ?msg = "lit ''failed to resolve '' @ host_port (lit ''refused.example'') port"
    have "contains ?msg (lit ''refused'')"
      using contains_part_of [of "lit ''failed to resolve ''" "lit ''refused''" "lit ''.example:'' @ fmt_dec (unat port)"]
      by (simp add: host_port_def lit_def)
    moreover have "0x62 \<notin> set ?msg"
      using fmt_dec_digits [of "0x62" "unat port"] by (auto simp: host_port_def lit_def)
    then have "\<not> contains ?msg (lit ''forbidden destination'')"
      using lacks_byte [of "0x62" "lit ''forbidden destination''" ?msg] by (simp add: lit_def)
    ultimately show ?thesis by (simp add: classify_connect_error_def Let_def)
  qed
qed

end
