(* ===== verification/Accept_Loop.thy ===== *)
theory Accept_Loop
  imports Server
begin

text \<open>
  The accept loop and the sessions it starts (\<open>accept_loop\<close>, \<open>serve_inbound\<close> and the SIGHUP reload
  of \<open>crates/skadi-server/src/lib.rs\<close>, \<open>crates/skadi-core/src/session.rs\<close>). The loop and the tasks
  it spawned share the gate, the limiter and the counters; an execution is a sequence of events:
  connections that arrive, and sessions that come to their end.
\<close>

section \<open>Sessions\<close>

record session =
  se_id :: u64
  se_user :: "rstring option"
  se_peer :: socket_addr

text \<open>\<open>SessionId::next\<close>: the value of the counter before \<open>fetch_add\<close>, which wraps.\<close>

definition session_id_next :: "u64 \<Rightarrow> u64 \<times> u64" where
  "session_id_next counter = (counter, counter + 1)"

definition session_new :: "socket_addr \<Rightarrow> u64 \<Rightarrow> session \<times> u64" where
  "session_new peer counter =
     (case session_id_next counter of (sid, counter) \<Rightarrow> (\<lparr>se_id = sid, se_user = None, se_peer = peer\<rparr>, counter))"

definition with_user :: "rstring \<Rightarrow> session \<Rightarrow> session" where
  "with_user user se = se\<lparr>se_user := Some user\<rparr>"

section \<open>The inbound transport\<close>

datatype reality_error = FallbackHandled | RealityFailed rstring

datatype 's xhttp_accept = Upgraded 's | PostHandled

text \<open>
  The handshakes of the transports on the accepted connection, and how the streams they give are
  read and written. They are parameters: TLS and HTTP/2 are libraries.
\<close>

datatype 's inbound_transport =
    InPlain
  | InTls "'s \<Rightarrow> ('s, rstring) outcome"
  | InReality "'s \<Rightarrow> ('s, reality_error) outcome"

record 's transport_io =
  ti_read :: "'s reader"
  ti_write :: "'s writer"
  ti_xhttp_read :: "'s reader"
  ti_xhttp_write :: "'s writer"

datatype session_error =
    SeXhttp rstring
  | SeTls rstring
  | SeReality reality_error
  | SeConn conn_error

text \<open>What the sessions share, and what one session adds to it.\<close>

record shared =
  sh_limiter :: "limiter option"
  sh_metrics :: metrics

definition conn_start :: "shared \<Rightarrow> 's \<Rightarrow> 's conn" where
  "conn_start sh s =
     \<lparr>cn_stream = \<lparr>ps_inner = s, ps_prefix = None\<rparr>, cn_contacted = [], cn_limiter = sh_limiter sh,
      cn_metrics = sh_metrics sh, cn_copied = None\<rparr>"

definition conn_session ::
  "conn_env \<Rightarrow> conn_input \<Rightarrow> 's reader \<Rightarrow> 's writer \<Rightarrow> 's \<Rightarrow> (shared, unit, session_error) io" where
  "conn_session env inp rd wr s sh =
     (case handle_connection env inp rd wr (conn_start sh s) of
        (r, c) \<Rightarrow> (map_err SeConn r, \<lparr>sh_limiter = cn_limiter c, sh_metrics = cn_metrics c\<rparr>))"

definition serve_inbound ::
  "conn_env \<Rightarrow> conn_input \<Rightarrow> 's transport_io \<Rightarrow> ('s \<Rightarrow> ('s xhttp_accept, rstring) outcome) option \<Rightarrow> 's \<Rightarrow>
     (shared, unit, session_error) io" where
  "serve_inbound env inp io xhttp s =
     (case xhttp of
        Some accept_xhttp \<Rightarrow>
          io_bind (io_lift (map_err SeXhttp (accept_xhttp s))) (\<lambda>r.
          case r of
            Upgraded u \<Rightarrow> conn_session env inp (ti_xhttp_read io) (ti_xhttp_write io) u
          | PostHandled \<Rightarrow> io_lift (Ok ()))
      | None \<Rightarrow> conn_session env inp (ti_read io) (ti_write io) s)"

text \<open>The body of the task that is spawned for an accepted connection.\<close>

definition session_task ::
  "conn_env \<Rightarrow> conn_input \<Rightarrow> 's transport_io \<Rightarrow> 's inbound_transport \<Rightarrow>
     ('s \<Rightarrow> ('s xhttp_accept, rstring) outcome) option \<Rightarrow> 's \<Rightarrow> (shared, unit, session_error) io" where
  "session_task env inp io inbound xhttp client =
     (case inbound of
        InPlain \<Rightarrow> serve_inbound env inp io xhttp client
      | InTls accept_tls \<Rightarrow>
          io_bind (io_lift (map_err SeTls (accept_tls client))) (serve_inbound env inp io xhttp)
      | InReality accept_reality \<Rightarrow>
          (case accept_reality client of
             Err FallbackHandled \<Rightarrow> io_lift (Ok ())
           | r \<Rightarrow> io_bind (io_lift (map_err SeReality r)) (serve_inbound env inp io xhttp)))"

section \<open>The loop\<close>

text \<open>
  What \<open>accept_loop\<close> passes to every session: the configuration, to which the address of the peer
  and the users of the moment are added, and the inbound transport.
\<close>

record 's loop_cfg =
  lc_env :: conn_env
  lc_io :: "'s transport_io"
  lc_inbound :: "'s inbound_transport"
  lc_xhttp :: "('s \<Rightarrow> ('s xhttp_accept, rstring) outcome) option"

definition run_session ::
  "'s loop_cfg \<Rightarrow> socket_addr \<Rightarrow> store_state \<Rightarrow> conn_input \<Rightarrow> 's \<Rightarrow> (shared, unit, session_error) io" where
  "run_session cfg peer store inp client =
     session_task ((lc_env cfg)\<lparr>ce_peer := peer, ce_store := store\<rparr>) inp (lc_io cfg) (lc_inbound cfg) (lc_xhttp cfg) client"

text \<open>A running session: its metadata and the kind of permit its task holds.\<close>

record live =
  lv_session :: session
  lv_permit :: task

record server =
  sv_gate :: gate
  sv_shared :: shared
  sv_counter :: u64
  sv_live :: "live list"
  sv_store :: store_state
  sv_stopped :: bool

definition server_init :: "u32 option \<Rightarrow> limiter option \<Rightarrow> store_state \<Rightarrow> server" where
  "server_init max_connections limiter store =
     \<lparr>sv_gate = gate_new max_connections, sv_shared = \<lparr>sh_limiter = limiter, sh_metrics = metrics_zero\<rparr>,
      sv_counter = 1, sv_live = [], sv_store = store, sv_stopped = False\<rparr>"

text \<open>\<open>is_some_and\<close> of the limiter's answer; asking it drops the expired entries.\<close>

definition peer_blocked :: "ip_addr \<Rightarrow> instant \<Rightarrow> shared \<Rightarrow> bool \<times> shared" where
  "peer_blocked ip now sh =
     (case sh_limiter sh of
        None \<Rightarrow> (False, sh)
      | Some l \<Rightarrow> (case is_blocked ip now l of (b, l') \<Rightarrow> (b, sh\<lparr>sh_limiter := Some l'\<rparr>)))"

text \<open>
  An accepted connection: the limiter, the gate, the session. The session is created in the task;
  the counter is only used there.
\<close>

definition accept_connection :: "socket_addr \<Rightarrow> instant \<Rightarrow> server \<Rightarrow> server" where
  "accept_connection peer now sv =
     (case peer_blocked (sock_ip peer) now (sv_shared sv) of
        (True, sh) \<Rightarrow> sv\<lparr>sv_shared := sh\<lparr>sh_metrics := auth_blocked (sh_metrics sh)\<rparr>\<rparr>
      | (False, sh) \<Rightarrow>
          (case try_acquire (sv_gate sv) of
             (g, None) \<Rightarrow> sv\<lparr>sv_gate := g, sv_shared := sh\<lparr>sh_metrics := connection_rejected (sh_metrics sh)\<rparr>\<rparr>
           | (g, Some permit) \<Rightarrow>
               (case session_new peer (sv_counter sv) of
                  (se, counter) \<Rightarrow>
                    sv\<lparr>sv_gate := g, sv_shared := sh, sv_counter := counter,
                       sv_live := sv_live sv @ [\<lparr>lv_session = se, lv_permit = permit\<rparr>]\<rparr>)))"

text \<open>\<open>Drop\<close> of the permit, when the task ends, also by a panic.\<close>

definition drop_permit :: "task \<Rightarrow> gate \<Rightarrow> gate" where
  "drop_permit permit g = (if permit = Permit then g\<lparr>g_active := g_active g - 1\<rparr> else g)"

text \<open>
  One received SIGHUP: the configuration file is read and checked (\<open>Config::load\<close>); the users of
  the store are replaced when that succeeds, and nothing changes otherwise.
\<close>

definition sighup_reload :: "(protocol_config, rstring) outcome \<Rightarrow> store_state \<Rightarrow> store_state" where
  "sighup_reload loaded store =
     (case loaded of
        Ok protocol \<Rightarrow>
          (case reload_from_protocol protocol store of (Ok _, store') \<Rightarrow> store' | (_, store') \<Rightarrow> store')
      | _ \<Rightarrow> store)"

datatype 's accept_event =
    ShutdownChanged bool
  | Accepted instant socket_addr
  | AcceptFailed io_kind
  | SessionEnds nat store_state conn_input 's
  | Sighup "(protocol_config, rstring) outcome"

text \<open>
  One event. \<open>SessionEnds i store inp client\<close> is the end of the \<open>i\<close>-th running session: its task does
  what it does to the shared state, with the users it read when it started, and its permit is
  dropped. A failed authentication, which is what the loop reads of the sessions, is the last step
  of its task. A task that never ends has no such event.
\<close>

fun accept_step :: "'s loop_cfg \<Rightarrow> 's accept_event \<Rightarrow> server \<Rightarrow> server" where
  "accept_step cfg (ShutdownChanged stop) sv = (if stop then sv\<lparr>sv_stopped := True\<rparr> else sv)"
| "accept_step cfg (Accepted now peer) sv = (if sv_stopped sv then sv else accept_connection peer now sv)"
| "accept_step cfg (AcceptFailed k) sv = sv"
| "accept_step cfg (SessionEnds i store inp client) sv =
     (if i < length (sv_live sv) then
        let lv = sv_live sv ! i in
        (case run_session cfg (se_peer (lv_session lv)) store inp client (sv_shared sv) of
           (Pending, _) \<Rightarrow> sv
         | (_, sh) \<Rightarrow>
             sv\<lparr>sv_gate := drop_permit (lv_permit lv) (sv_gate sv), sv_shared := sh,
                sv_live := take i (sv_live sv) @ drop (Suc i) (sv_live sv)\<rparr>)
      else sv)"
| "accept_step cfg (Sighup loaded) sv = sv\<lparr>sv_store := sighup_reload loaded (sv_store sv)\<rparr>"

fun accept_run :: "'s loop_cfg \<Rightarrow> 's accept_event list \<Rightarrow> server \<Rightarrow> server" where
  "accept_run cfg [] sv = sv"
| "accept_run cfg (e # es) sv = accept_run cfg es (accept_step cfg e sv)"

section \<open>Listeners\<close>

datatype listen_error = InvalidListenAddress rstring | BindFailed rstring io_kind

fun bind_listeners :: "(socket_addr \<Rightarrow> ('l, io_kind) outcome) \<Rightarrow> rstring list \<Rightarrow> ('l list, listen_error) outcome" where
  "bind_listeners bind [] = Ok []"
| "bind_listeners bind (a # as) =
     (case parse_socket_addr a of
        None \<Rightarrow> Err (InvalidListenAddress a)
      | Some addr \<Rightarrow>
          ebind (map_err (BindFailed a) (bind addr)) (\<lambda>l.
          ebind (bind_listeners bind as) (\<lambda>ls. Ok (l # ls))))"

text \<open>The ports for which the warning about a missing IPv6 listener is logged.\<close>

definition warn_missing_ipv6_dual_stack :: "rstring list \<Rightarrow> u16 list" where
  "warn_missing_ipv6_dual_stack addrs =
     concat (map (\<lambda>a. case parse_socket_addr a of
          None \<Rightarrow> []
        | Some addr \<Rightarrow>
            if \<not> ip_is_unspecified (sock_ip addr) \<or> \<not> is_ipv4 addr then []
            else if list_ex (\<lambda>other. case parse_socket_addr other of
                  None \<Rightarrow> False
                | Some s \<Rightarrow> \<not> is_ipv4 s \<and> ip_is_unspecified (sock_ip s) \<and> sock_port s = sock_port addr) addrs
            then [] else [sock_port addr]) addrs)"

section \<open>Permits and session numbers\<close>

text \<open>
  Every running session of a limited server holds a counted permit, the counter of the gate is
  their number, and their identifiers are different numbers below the session counter.
\<close>

definition server_inv :: "u32 \<Rightarrow> nat \<Rightarrow> server \<Rightarrow> bool" where
  "server_inv k n sv \<longleftrightarrow>
     g_max (sv_gate sv) = Some k \<and> g_active (sv_gate sv) \<le> k \<and>
     unat (g_active (sv_gate sv)) = length (sv_live sv) \<and> list_all (\<lambda>lv. lv_permit lv = Permit) (sv_live sv) \<and>
     sv_counter sv = word_of_nat n \<and>
     (\<exists>ids. map (se_id \<circ> lv_session) (sv_live sv) = map word_of_nat ids \<and> distinct ids \<and> list_all (\<lambda>i. i < n) ids)"

lemma server_inv_init: "server_inv k 1 (server_init (Some k) lim store)"
  by (simp add: server_inv_def server_init_def gate_new_def)

lemma server_inv_shared: "server_inv k n (sv\<lparr>sv_shared := sh\<rparr>) = server_inv k n sv"
  by (simp add: server_inv_def)

lemma server_inv_accept:
  assumes "server_inv k n sv"
  shows "\<exists>n'. n' \<le> Suc n \<and> server_inv k n' (accept_connection peer now sv)"
proof -
  obtain b sh where blk: "peer_blocked (sock_ip peer) now (sv_shared sv) = (b, sh)"
    by (cases "peer_blocked (sock_ip peer) now (sv_shared sv)")
  show ?thesis
  proof (cases "\<not> b \<and> g_active (sv_gate sv) < k")
    case True
    from assms obtain ids where ids: "map (se_id \<circ> lv_session) (sv_live sv) = map word_of_nat ids" "distinct ids"
        "list_all (\<lambda>i. i < n) ids" by (auto simp: server_inv_def)
    have "server_inv k (Suc n) (accept_connection peer now sv)"
      using assms True blk ids unat_succ_below [of "g_active (sv_gate sv)" k]
      by (auto simp: server_inv_def accept_connection_def try_acquire_def session_new_def session_id_next_def
          list_all_iff intro!: exI [of _ "ids @ [n]"] intro: less_SucI)
    then show ?thesis by blast
  next
    case False
    have "server_inv k n (accept_connection peer now sv)"
      using assms False blk by (cases b) (auto simp: server_inv_def accept_connection_def try_acquire_def)
    then show ?thesis by (meson le_SucI order_refl)
  qed
qed

lemma distinct_drop_one: "distinct xs \<Longrightarrow> distinct (take i xs @ drop (Suc i) xs)"
  by (auto simp: distinct_take distinct_drop set_take_disj_set_drop_if_distinct)

lemma map_drop_one: "map f (take i xs @ drop (Suc i) xs) = take i (map f xs) @ drop (Suc i) (map f xs)"
  by (simp add: take_map drop_map)

lemma server_inv_end:
  assumes inv: "server_inv k n sv" and i: "i < length (sv_live sv)"
  shows "server_inv k n (sv\<lparr>sv_gate := drop_permit (lv_permit (sv_live sv ! i)) (sv_gate sv), sv_shared := sh,
    sv_live := take i (sv_live sv) @ drop (Suc i) (sv_live sv)\<rparr>)"
proof -
  from inv i have permit: "lv_permit (sv_live sv ! i) = Permit" by (simp add: server_inv_def list_all_length)
  from inv obtain ids where ids: "map (se_id \<circ> lv_session) (sv_live sv) = map word_of_nat ids" "distinct ids"
      "list_all (\<lambda>i. i < n) ids" by (auto simp: server_inv_def)
  have "g_active (sv_gate sv) \<noteq> 0" using inv i by (auto simp: server_inv_def)
  note pred = unat_pred [OF this]
  have "g_active (sv_gate sv) - 1 \<le> k" using pred inv by (auto simp: server_inv_def)
  moreover have "list_all (\<lambda>i. i < n) (take i ids @ drop (Suc i) ids)"
    using ids(3) by (auto simp: list_all_iff dest: in_set_takeD in_set_dropD)
  moreover have "list_all (\<lambda>lv. lv_permit lv = Permit) (take i (sv_live sv) @ drop (Suc i) (sv_live sv))"
    using inv by (auto simp: server_inv_def list_all_iff dest: in_set_takeD in_set_dropD)
  moreover have "map (se_id \<circ> lv_session) (take i (sv_live sv) @ drop (Suc i) (sv_live sv)) =
      map word_of_nat (take i ids @ drop (Suc i) ids)"
    unfolding map_drop_one ids(1) ..
  ultimately show ?thesis
    using inv i pred permit distinct_drop_one [OF ids(2)]
    by (auto simp: server_inv_def drop_permit_def min_def intro!: exI [of _ "take i ids @ drop (Suc i) ids"])
qed

lemma server_inv_step:
  assumes "server_inv k n sv"
  shows "\<exists>n'. n' \<le> Suc n \<and> server_inv k n' (accept_step cfg e sv)"
proof (cases e)
  case (Accepted now peer)
  show ?thesis
  proof (cases "sv_stopped sv")
    case True
    with Accepted assms have "server_inv k n (accept_step cfg e sv)" by simp
    then show ?thesis by (meson le_SucI order_refl)
  next
    case False
    with Accepted server_inv_accept [OF assms] show ?thesis by simp
  qed
next
  case (SessionEnds i store inp client)
  let ?run = "run_session cfg (se_peer (lv_session (sv_live sv ! i))) store inp client (sv_shared sv)"
  obtain r sh where "?run = (r, sh)" by (cases ?run)
  with SessionEnds assms server_inv_end [OF assms] have "server_inv k n (accept_step cfg e sv)"
    by (cases r) (simp_all add: Let_def)
  then show ?thesis by (meson le_SucI order_refl)
qed (use assms in \<open>intro exI [of _ n], simp add: server_inv_def\<close>)+

lemma server_inv_run:
  "server_inv k n sv \<Longrightarrow> \<exists>n'. n' \<le> n + length es \<and> server_inv k n' (accept_run cfg es sv)"
proof (induction es arbitrary: n sv)
  case (Cons e es)
  obtain n1 where "n1 \<le> Suc n" and "server_inv k n1 (accept_step cfg e sv)"
    using server_inv_step [OF Cons.prems] by blast
  moreover obtain n2 where "n2 \<le> n1 + length es" and "server_inv k n2 (accept_run cfg (e # es) sv)"
    using Cons.IH [OF calculation(2)] by auto
  ultimately show ?case by (intro exI [of _ n2]) simp
qed auto

lemma server_inv_ids:
  assumes "server_inv k n sv" and "n \<le> 2 ^ 64"
  shows "distinct (map (se_id \<circ> lv_session) (sv_live sv))"
proof -
  from assms obtain ids where ids: "map (se_id \<circ> lv_session) (sv_live sv) = map word_of_nat ids" "distinct ids"
      "list_all (\<lambda>i. i < n) ids" by (auto simp: server_inv_def)
  have "inj_on (word_of_nat :: nat \<Rightarrow> u64) (set ids)"
  proof (rule inj_onI)
    fix x y assume "x \<in> set ids" "y \<in> set ids" and eq: "word_of_nat x = (word_of_nat y :: u64)"
    with ids(3) assms(2) have "x < 2 ^ 64" "y < 2 ^ 64" by (auto simp: list_all_iff)
    with eq show "x = y" by (simp add: word_of_nat_eq_iff take_bit_nat_eq_self)
  qed
  with ids show ?thesis by (simp add: distinct_map)
qed

section \<open>The limiter and the sessions\<close>

text \<open>\<open>failed_login cfg peer r\<close>: the session ended because its client failed to authenticate.\<close>

definition failed_login :: "'s loop_cfg \<Rightarrow> (unit, session_error) outcome \<Rightarrow> bool" where
  "failed_login cfg r \<longleftrightarrow>
     (case r of Err (SeConn (HcHandshake e)) \<Rightarrow> is_auth_failure (ce_io_text (lc_env cfg)) e | _ \<Rightarrow> False)"

lemma conn_session_limiter:
  assumes "conn_session env inp rd wr s sh = (r, sh')"
  shows "sh_limiter sh' =
    (case r of
       Err (SeConn (HcHandshake e)) \<Rightarrow>
         if is_auth_failure (ce_io_text env) e
         then map_option (record_failure (sock_ip (ce_peer env)) (ci_now inp)) (sh_limiter sh) else sh_limiter sh
     | _ \<Rightarrow> sh_limiter sh)"
proof -
  obtain r1 c where run: "handle_connection env inp rd wr (conn_start sh s) = (r1, c)"
    by (cases "handle_connection env inp rd wr (conn_start sh s)")
  with assms handle_connection_summary [OF run] show ?thesis
    by (auto simp: conn_session_def conn_start_def limiter_after_def split: outcome.splits conn_error.splits)
qed

lemma run_session_limiter:
  assumes "run_session cfg peer store inp client sh = (r, sh')"
  shows "sh_limiter sh' =
    (if failed_login cfg r then map_option (record_failure (sock_ip peer) (ci_now inp)) (sh_limiter sh)
     else sh_limiter sh)"
proof -
  let ?env = "(lc_env cfg)\<lparr>ce_peer := peer, ce_store := store\<rparr>"
  have inner: "sh_limiter sh' =
      (if failed_login cfg r then map_option (record_failure (sock_ip peer) (ci_now inp)) (sh_limiter sh) else sh_limiter sh)"
    if "conn_session ?env inp rd wr s sh = (r, sh')" for rd wr s
    using conn_session_limiter [OF that]
    by (auto simp: failed_login_def split: outcome.splits session_error.splits conn_error.splits)
  have served: "sh_limiter sh' =
      (if failed_login cfg r then map_option (record_failure (sock_ip peer) (ci_now inp)) (sh_limiter sh) else sh_limiter sh)"
    if "serve_inbound ?env inp (lc_io cfg) (lc_xhttp cfg) s sh = (r, sh')" for s
    using that
    by (auto simp: serve_inbound_def io_bind_def io_lift_def map_err_eq_Err_conv failed_login_def
        split: option.splits outcome.splits xhttp_accept.splits dest!: inner)
  show ?thesis
    using assms
    by (auto simp: run_session_def session_task_def io_bind_def io_lift_def failed_login_def map_err_eq_Err_conv
        split: inbound_transport.splits outcome.splits reality_error.splits dest!: served)
qed

text \<open>The sessions from an address that end with a failed login, along an execution.\<close>

fun login_failures :: "'s loop_cfg \<Rightarrow> ip_addr \<Rightarrow> 's accept_event list \<Rightarrow> server \<Rightarrow> nat" where
  "login_failures cfg ip [] sv = 0"
| "login_failures cfg ip (e # es) sv =
     (case e of
        SessionEnds i store inp client \<Rightarrow>
          if i < length (sv_live sv) then
            let peer = se_peer (lv_session (sv_live sv ! i)) in
            of_bool (sock_ip peer = ip \<and> failed_login cfg (fst (run_session cfg peer store inp client (sv_shared sv))))
          else 0
      | _ \<Rightarrow> 0) + login_failures cfg ip es (accept_step cfg e sv)"

text \<open>The limiter of the server has counted at most \<open>n\<close> failures for \<open>ip\<close>.\<close>

definition server_counted :: "nat \<Rightarrow> ip_addr \<Rightarrow> nat \<Rightarrow> server \<Rightarrow> bool" where
  "server_counted m ip n sv \<longleftrightarrow>
     (case sh_limiter (sv_shared sv) of
        None \<Rightarrow> False
      | Some l \<Rightarrow> li_max_failures l = m \<and> counted l n (li_states l ip))"

lemma counted_record:
  assumes "counted l n (li_states l ip)" and "0 < li_max_failures l"
  shows "counted (record_failure ip' t l) (n + of_bool (ip' = ip)) (li_states (record_failure ip' t l) ip)"
  using counted_step [OF assms, of "Failure ip' t"] by (simp add: of_bool_def)

lemma counted_check:
  assumes "counted l n (li_states l ip)" and "0 < li_max_failures l"
  shows "counted (snd (is_blocked ip' t l)) n (li_states (snd (is_blocked ip' t l)) ip)"
  using counted_step [OF assms, of "Check ip' t"] by simp

lemma server_counted_accept:
  assumes "server_counted m ip n sv" and "0 < m"
  shows "server_counted m ip n (accept_connection peer now sv)"
proof -
  obtain l where l: "sh_limiter (sv_shared sv) = Some l" "li_max_failures l = m" "counted l n (li_states l ip)"
    using assms(1) by (auto simp: server_counted_def split: option.splits)
  obtain b l' where blk: "is_blocked (sock_ip peer) now l = (b, l')" by (cases "is_blocked (sock_ip peer) now l")
  have "counted l' n (li_states l' ip)" and "li_max_failures l' = m"
    using counted_check [OF l(3), of "sock_ip peer" now] blocked_fields(1) [of "sock_ip peer" now l] l(2) assms(2) blk
    by simp_all
  then show ?thesis
    using l(1) blk
    by (cases b) (auto simp: server_counted_def accept_connection_def peer_blocked_def session_new_def session_id_next_def
        split: option.splits prod.splits)
qed

lemma server_counted_step:
  assumes "server_counted m ip n sv" and "0 < m"
  shows "server_counted m ip (n + login_failures cfg ip [e] sv) (accept_step cfg e sv)"
proof (cases e)
  case (SessionEnds i store inp client)
  show ?thesis
  proof (cases "i < length (sv_live sv)")
    case True
    let ?peer = "se_peer (lv_session (sv_live sv ! i))"
    obtain r sh where run: "run_session cfg ?peer store inp client (sv_shared sv) = (r, sh)"
      by (cases "run_session cfg ?peer store inp client (sv_shared sv)")
    obtain l where l: "sh_limiter (sv_shared sv) = Some l" "li_max_failures l = m" "counted l n (li_states l ip)"
      using assms(1) by (auto simp: server_counted_def split: option.splits)
    have "counted l (n + k) (li_states l ip)" for k using counted_mono [OF l(3)] by simp
    with run_session_limiter [OF run] l assms(2) counted_record [OF l(3), of "sock_ip ?peer" "ci_now inp"] True SessionEnds run
    show ?thesis
      by (cases r) (auto simp: server_counted_def failed_login_def Let_def)
  qed (use SessionEnds assms in simp)
qed (use assms server_counted_accept in \<open>auto simp: server_counted_def\<close>)

lemma server_counted_run:
  "server_counted m ip n sv \<Longrightarrow> 0 < m \<Longrightarrow>
     server_counted m ip (n + login_failures cfg ip es sv) (accept_run cfg es sv)"
proof (induction es arbitrary: n sv)
  case (Cons e es)
  have "login_failures cfg ip [e] sv + login_failures cfg ip es (accept_step cfg e sv) = login_failures cfg ip (e # es) sv"
    by simp
  with Cons.IH [OF server_counted_step [OF Cons.prems, of cfg e] Cons.prems(2)] show ?case
    by (simp add: add.assoc)
qed simp

lemma counted_not_blocked:
  assumes "counted l n (li_states l ip)" and "n < li_max_failures l"
  shows "\<not> fst (is_blocked ip now l)"
  using assms by (auto simp: is_blocked_iff counted_def)

text \<open>A banned peer gets no permit and no session; only the limiter's housekeeping and a counter change.\<close>

lemma banned_peer_dropped:
  assumes "sh_limiter (sv_shared sv) = Some l" and "fst (is_blocked (sock_ip peer) now l)"
  shows "\<exists>sh. accept_step cfg (Accepted now peer) sv = (if sv_stopped sv then sv else sv\<lparr>sv_shared := sh\<rparr>)"
  using assms
  by (cases "is_blocked (sock_ip peer) now l") (auto simp: accept_connection_def peer_blocked_def)

text \<open>After the shutdown signal no connection is accepted.\<close>

lemma stopped_accepts_nothing:
  "sv_stopped sv \<Longrightarrow> sv_stopped (accept_run cfg es sv) \<and> length (sv_live (accept_run cfg es sv)) \<le> length (sv_live sv)"
proof (induction es arbitrary: sv)
  case (Cons e es)
  have "sv_stopped (accept_step cfg e sv) \<and> length (sv_live (accept_step cfg e sv)) \<le> length (sv_live sv)"
    using Cons.prems by (cases e) (auto simp: Let_def split: prod.splits outcome.splits)
  with Cons.IH [of "accept_step cfg e sv"] show ?case by auto
qed simp

lemma open_door:
  assumes "\<not> sv_stopped sv" and "g_max (sv_gate sv) = Some k" and "g_active (sv_gate sv) < k"
    and "sh_limiter (sv_shared sv) = Some l" and "\<not> fst (is_blocked (sock_ip peer) now l)"
  shows "sv_live (accept_step cfg (Accepted now peer) sv) =
    sv_live sv @ [\<lparr>lv_session = \<lparr>se_id = sv_counter sv, se_user = None, se_peer = peer\<rparr>, lv_permit = Permit\<rparr>]"
  using assms
  by (cases "is_blocked (sock_ip peer) now l")
    (simp add: accept_connection_def peer_blocked_def try_acquire_def session_new_def session_id_next_def)

definition sample_cfg :: "stream loop_cfg" where
  "sample_cfg =
     \<lparr>lc_env = sample_env \<lparr>ep_socks5 = True, ep_vless = False\<rparr>,
      lc_io = \<lparr>ti_read = flat_read, ti_write = flat_write, ti_xhttp_read = flat_read, ti_xhttp_write = flat_write\<rparr>,
      lc_inbound = InPlain, lc_xhttp = None\<rparr>"

definition sample_limiter :: limiter where
  "sample_limiter =
     \<lparr>li_max_failures = 3, li_window = from_secs 60, li_ban_base = from_secs 60, li_ban_max = from_secs 3600,
      li_states = (\<lambda>_. None)\<rparr>"

section \<open>Properties\<close>

text \<open>C10: however connections arrive, sessions end (also by a panic) and the configuration is reloaded,
  never more than the configured number of sessions run at the same time, and the numbers by which
  the running sessions are told apart are different.\<close>
theorem running_sessions_bounded:
  assumes "length es < 2 ^ 64"
  shows "length (sv_live (accept_run cfg es (server_init (Some k) lim store))) \<le> unat k \<and>
    distinct (map (se_id \<circ> lv_session) (sv_live (accept_run cfg es (server_init (Some k) lim store))))"
proof -
  let ?sv = "accept_run cfg es (server_init (Some k) lim store)"
  obtain n where n: "n \<le> 1 + length es" and inv: "server_inv k n ?sv"
    using server_inv_run [OF server_inv_init] by blast
  from inv have "length (sv_live ?sv) \<le> unat k" by (auto simp: server_inv_def word_le_nat_alt)
  moreover have "distinct (map (se_id \<circ> lv_session) (sv_live ?sv))"
    using server_inv_ids [OF inv] n assms by simp
  ultimately show ?thesis by blast
qed

theorem running_sessions_bounded_witness:
  "length (sv_live (accept_run sample_cfg [Accepted 0 DUMMY_ADDR, AcceptFailed OtherIo, Accepted 5 DUMMY_ADDR]
     (server_init (Some 1) None (ce_store (lc_env sample_cfg))))) \<le> 1"
  using running_sessions_bounded [of "[Accepted 0 DUMMY_ADDR, AcceptFailed OtherIo, Accepted 5 DUMMY_ADDR]" sample_cfg 1
      None "ce_store (lc_env sample_cfg)"]
  by simp

text \<open>C11: nobody is locked out without cause. As long as fewer than \<open>max_failures\<close> of the sessions from
  an address have ended with a failed login, whatever else those sessions and the sessions of other
  addresses did, a connection from that address is given a session whenever the loop is running and
  one is free.\<close>
theorem unbanned_peer_is_served:
  assumes "li_states l = (\<lambda>_. None)" and "0 < li_max_failures l"
    and "login_failures cfg (sock_ip peer) es (server_init (Some k) (Some l) store) < li_max_failures l"
  defines "sv \<equiv> accept_run cfg es (server_init (Some k) (Some l) store)"
  assumes "\<not> sv_stopped sv" and "length (sv_live sv) < unat k"
  shows "sv_live (accept_step cfg (Accepted now peer) sv) =
    sv_live sv @ [\<lparr>lv_session = \<lparr>se_id = sv_counter sv, se_user = None, se_peer = peer\<rparr>, lv_permit = Permit\<rparr>]"
proof -
  let ?ip = "sock_ip peer"
  have "server_counted (li_max_failures l) ?ip 0 (server_init (Some k) (Some l) store)"
    by (simp add: server_counted_def server_init_def counted_def assms(1))
  from server_counted_run [OF this assms(2), of cfg es] assms(3)
  obtain l' n where l': "sh_limiter (sv_shared sv) = Some l'" "counted l' n (li_states l' ?ip)" "n < li_max_failures l'"
    by (auto simp: server_counted_def sv_def split: option.splits)
  obtain m where "server_inv k m sv" using server_inv_run [OF server_inv_init] unfolding sv_def by blast
  then have "g_max (sv_gate sv) = Some k" and "g_active (sv_gate sv) < k"
    using assms(6) by (auto simp: server_inv_def word_less_nat_alt)
  with l' assms(5) counted_not_blocked [OF l'(2,3)] show ?thesis by (intro open_door)
qed

theorem unbanned_peer_is_served_witness:
  "length (sv_live (accept_step sample_cfg (Accepted 9 DUMMY_ADDR)
     (accept_run sample_cfg [Accepted 0 DUMMY_ADDR]
       (server_init (Some 2) (Some sample_limiter) (ce_store (lc_env sample_cfg)))))) = 2"
  using unbanned_peer_is_served [of sample_limiter sample_cfg DUMMY_ADDR "[Accepted 0 DUMMY_ADDR]" 2
      "ce_store (lc_env sample_cfg)" 9]
  by (simp add: sample_limiter_def server_init_def accept_connection_def peer_blocked_def is_blocked_def cleanup_expired_def
      try_acquire_def gate_new_def session_new_def session_id_next_def DUMMY_ADDR_def)

end
