(* ===== verification/Reality_Hello.thy ===== *)
theory Reality_Hello
  imports Prelude
begin

text \<open>
  The TLS client hello as the REALITY transport reads it
  (\<open>crates/skadi-transport/src/reality/hello_parser.rs\<close>): a hand-written parser over offsets, with
  every index and slice checked, that looks for the session identifier, the random, the server name
  and the X25519 key share.
\<close>

section \<open>The parser\<close>

record client_hello_info =
  ch_session_id :: bytes
  ch_client_random :: bytes
  ch_public_key :: "bytes option"
  ch_server_name :: "rstring option"

definition read_be16 :: "bytes \<Rightarrow> nat \<Rightarrow> (nat, 'e) outcome" where
  "read_be16 buf i = ebind (idx buf i) (\<lambda>a. ebind (idx buf (i + 1)) (\<lambda>b. Ok (unat (u16_from_be a b))))"

text \<open>The loop of \<open>parse_sni\<close>; the last component of the hello that is text.\<close>

function sni_loop :: "bytes \<Rightarrow> nat \<Rightarrow> nat \<Rightarrow> (rstring option, 'e) outcome" where
  "sni_loop data limit offset =
     (if offset + 3 \<le> limit then
        ebind (idx data offset) (\<lambda>name_type.
        ebind (read_be16 data (offset + 1)) (\<lambda>name_len.
        let offset = offset + 3 in
        if offset + name_len > limit then Ok None
        else if name_type = 0x00 then
          ebind (slice data offset (offset + name_len)) (\<lambda>name. Ok (if utf8_valid name then Some name else None))
        else sni_loop data limit (offset + name_len)))
      else Ok None)"
  by pat_completeness auto
termination
  by (relation "measure (\<lambda>(data, limit, offset). limit - offset)") auto

declare sni_loop.simps [simp del]

definition parse_sni :: "bytes \<Rightarrow> (rstring option, 'e) outcome" where
  "parse_sni ext_data =
     (if length ext_data < 2 then Ok None
      else
        ebind (read_be16 ext_data 0) (\<lambda>list_len.
        if length ext_data < 2 + list_len then Ok None
        else sni_loop ext_data (2 + list_len) 2))"

function key_share_loop :: "bytes \<Rightarrow> nat \<Rightarrow> nat \<Rightarrow> (bytes option, 'e) outcome" where
  "key_share_loop data limit offset =
     (if offset + 4 \<le> limit then
        ebind (read_be16 data offset) (\<lambda>group.
        ebind (read_be16 data (offset + 2)) (\<lambda>key_len.
        let offset = offset + 4 in
        if offset + key_len > limit then Ok None
        else if group = 0x001d \<and> key_len = 32 then
          ebind (slice data offset (offset + 32)) (\<lambda>key. Ok (Some key))
        else key_share_loop data limit (offset + key_len)))
      else Ok None)"
  by pat_completeness auto
termination
  by (relation "measure (\<lambda>(data, limit, offset). limit - offset)") auto

declare key_share_loop.simps [simp del]

definition parse_key_share :: "bytes \<Rightarrow> (bytes option, 'e) outcome" where
  "parse_key_share ext_data =
     (if length ext_data < 2 then Ok None
      else
        ebind (read_be16 ext_data 0) (\<lambda>shares_len.
        if length ext_data < 2 + shares_len then Ok None
        else key_share_loop ext_data (2 + shares_len) 2))"

function extensions_loop ::
  "bytes \<Rightarrow> bytes option \<Rightarrow> rstring option \<Rightarrow> nat \<Rightarrow> (bytes option \<times> rstring option, 'e) outcome" where
  "extensions_loop extensions public_key server_name offset =
     (if offset + 4 \<le> length extensions then
        ebind (read_be16 extensions offset) (\<lambda>ext_type.
        ebind (read_be16 extensions (offset + 2)) (\<lambda>ext_len.
        let offset = offset + 4 in
        if offset + ext_len > length extensions then Ok (public_key, server_name)
        else
          ebind (slice extensions offset (offset + ext_len)) (\<lambda>ext_data.
          ebind (if ext_type = 0x0000 then ebind (parse_sni ext_data) (\<lambda>n. Ok (public_key, n))
                 else if ext_type = 0x0033 then ebind (parse_key_share ext_data) (\<lambda>k. Ok (k, server_name))
                 else Ok (public_key, server_name)) (\<lambda>(public_key, server_name).
          if public_key \<noteq> None \<and> server_name \<noteq> None then Ok (public_key, server_name)
          else extensions_loop extensions public_key server_name (offset + ext_len)))))
      else Ok (public_key, server_name))"
  by pat_completeness auto
termination
  by (relation "measure (\<lambda>(extensions, public_key, server_name, offset). length extensions - offset)") auto

declare extensions_loop.simps [simp del]

definition parse_extensions :: "bytes \<Rightarrow> (bytes option \<times> rstring option, 'e) outcome" where
  "parse_extensions extensions = extensions_loop extensions None None 0"

definition short_buffer :: "string \<Rightarrow> rstring" where
  "short_buffer what = lit ''short buffer'' @ lit what"

text \<open>
  \<open>parse_client_hello\<close> in the three parts its offsets divide it into: up to the session
  identifier, the cipher suites and compression methods, and the extensions.
\<close>

definition parse_hello_rest :: "bytes \<Rightarrow> nat \<Rightarrow> bytes \<Rightarrow> bytes \<Rightarrow> (client_hello_info option, rstring) outcome" where
  "parse_hello_rest buf offset client_random session_id =
     (if offset + 2 > length buf then
        Ok (Some \<lparr>ch_session_id = session_id, ch_client_random = client_random, ch_public_key = None, ch_server_name = None\<rparr>)
      else
        ebind (read_be16 buf offset) (\<lambda>extensions_len.
        let offset = offset + 2 in
        if offset + extensions_len > length buf then Err (short_buffer '' for extensions'')
        else
          ebind (slice buf offset (offset + extensions_len)) (\<lambda>extensions.
          ebind (parse_extensions extensions) (\<lambda>(public_key, server_name).
          Ok (Some \<lparr>ch_session_id = session_id, ch_client_random = client_random, ch_public_key = public_key,
                ch_server_name = server_name\<rparr>)))))"

definition parse_hello_suites :: "bytes \<Rightarrow> nat \<Rightarrow> bytes \<Rightarrow> bytes \<Rightarrow> (client_hello_info option, rstring) outcome" where
  "parse_hello_suites buf offset client_random session_id =
     (if offset + 2 > length buf then Err (short_buffer '' for cipher suites len'')
      else
        ebind (read_be16 buf offset) (\<lambda>cipher_suites_len.
        let offset = offset + 2 in
        if offset + cipher_suites_len > length buf then Err (short_buffer '' for cipher suites'')
        else
          let offset = offset + cipher_suites_len in
          if offset \<ge> length buf then Err (short_buffer '' for compression methods len'')
          else
            ebind (idx buf offset) (\<lambda>b.
            let offset = offset + 1 in
            if offset + unat b > length buf then Err (short_buffer '' for compression methods'')
            else parse_hello_rest buf (offset + unat b) client_random session_id)))"

definition parse_client_hello :: "bytes \<Rightarrow> (client_hello_info option, rstring) outcome" where
  "parse_client_hello buf =
     (if length buf < 5 then Ok None
      else
        ebind (idx buf 0) (\<lambda>b0.
        if b0 \<noteq> 0x16 then Ok None
        else
          ebind (read_be16 buf 3) (\<lambda>record_len.
          if length buf < 5 + record_len then Ok None
          else if 5 + 4 > length buf then Err (short_buffer '''')
          else
            ebind (idx buf 5) (\<lambda>b5.
            if b5 \<noteq> 0x01 then Ok None
            else if 9 + 2 > length buf then Err (short_buffer '' for version'')
            else if 11 + 32 > length buf then Err (short_buffer '' for random'')
            else
              ebind (slice buf 11 (11 + 32)) (\<lambda>client_random.
              if 43 \<ge> length buf then Err (short_buffer '' for session id len'')
              else
                ebind (idx buf 43) (\<lambda>sl.
                if 44 + unat sl > length buf then Err (short_buffer '' for session id'')
                else
                  ebind (slice buf 44 (44 + unat sl)) (\<lambda>session_id.
                  parse_hello_suites buf (44 + unat sl) client_random session_id)))))))"

section \<open>No panic\<close>

lemma read_be16_ok: "i + 1 < length buf \<Longrightarrow> read_be16 buf i = Ok (be16_at buf i)"
  by (simp add: read_be16_def idx_def be16_at_def)

lemma sni_loop_returns: "limit \<le> length data \<Longrightarrow> \<exists>n. sni_loop data limit offset = Ok n"
proof (induction "limit - offset" arbitrary: offset rule: less_induct)
  case less
  show ?case
  proof (cases "offset + 3 \<le> limit")
    case True
    with less show ?thesis
      by (subst sni_loop.simps) (auto simp: idx_ok read_be16_ok slice_ok Let_def)
  qed (simp add: sni_loop.simps [of _ limit])
qed

lemma parse_sni_returns: "\<exists>n. parse_sni data = Ok n"
  using sni_loop_returns [of "2 + be16_at data 0" data 2] by (auto simp: parse_sni_def read_be16_ok)

lemma key_share_loop_returns: "limit \<le> length data \<Longrightarrow> \<exists>n. key_share_loop data limit offset = Ok n"
proof (induction "limit - offset" arbitrary: offset rule: less_induct)
  case less
  show ?case
  proof (cases "offset + 4 \<le> limit")
    case True
    with less show ?thesis
      by (subst key_share_loop.simps) (auto simp: read_be16_ok slice_ok Let_def)
  qed (simp add: key_share_loop.simps [of _ limit])
qed

lemma parse_key_share_returns: "\<exists>k. parse_key_share data = Ok k"
  using key_share_loop_returns [of "2 + be16_at data 0" data 2] by (auto simp: parse_key_share_def read_be16_ok)

lemma extensions_loop_returns:
  "\<exists>r. (extensions_loop exts pk sn offset :: (bytes option \<times> rstring option, 'e) outcome) = Ok r"
proof (induction "length exts - offset" arbitrary: offset pk sn rule: less_induct)
  case less
  show ?case
  proof (cases "offset + 4 \<le> length exts \<and> offset + 4 + be16_at exts (offset + 2) \<le> length exts")
    case True
    let ?d = "take (be16_at exts (offset + 2)) (drop (offset + 4) exts)"
    obtain n where n: "(parse_sni ?d :: (rstring option, 'e) outcome) = Ok n" using parse_sni_returns by blast
    obtain k where k: "(parse_key_share ?d :: (bytes option, 'e) outcome) = Ok k" using parse_key_share_returns by blast
    have "\<exists>r. (extensions_loop exts pk' sn' (offset + 4 + be16_at exts (offset + 2)) ::
        (bytes option \<times> rstring option, 'e) outcome) = Ok r" for pk' sn'
      using True by (intro less) auto
    with True n k show ?thesis
      by (subst extensions_loop.simps) (auto simp: read_be16_ok slice_ok Let_def)
  next
    case False
    then show ?thesis by (subst extensions_loop.simps) (auto simp: read_be16_ok Let_def)
  qed
qed

lemma parse_hello_rest_returns: "returns (parse_hello_rest buf offset r sid)"
proof -
  have ext: "\<exists>r. (parse_extensions x :: (bytes option \<times> rstring option, rstring) outcome) = Ok r" for x unfolding parse_extensions_def by (rule extensions_loop_returns)
  show ?thesis
    using ext [of "take (be16_at buf offset) (drop (offset + 2) buf)"]
    by (auto simp: parse_hello_rest_def read_be16_ok slice_ok Let_def split: prod.splits)
qed

lemma parse_hello_suites_returns: "returns (parse_hello_suites buf offset r sid)"
  by (simp add: parse_hello_suites_def read_be16_ok idx_ok Let_def parse_hello_rest_returns)

section \<open>Well-formed hellos\<close>

text \<open>The encoding of TLS: vectors with their length before them.\<close>

definition vec16 :: "bytes \<Rightarrow> bytes" where
  "vec16 b = u16_to_be (word_of_nat (length b)) @ b"

definition vec8 :: "bytes \<Rightarrow> bytes" where
  "vec8 b = word_of_nat (length b) # b"

definition encode_extension :: "u16 \<times> bytes \<Rightarrow> bytes" where
  "encode_extension e = u16_to_be (fst e) @ vec16 (snd e)"

definition sni_extension :: "rstring \<Rightarrow> u16 \<times> bytes" where
  "sni_extension name = (0x0000, vec16 (0x00 # vec16 name))"

definition key_share_extension :: "(u16 \<times> bytes) list \<Rightarrow> u16 \<times> bytes" where
  "key_share_extension shares = (0x0033, vec16 (concat (map encode_extension shares)))"

definition client_hello_body :: "bytes \<Rightarrow> bytes \<Rightarrow> bytes \<Rightarrow> bytes \<Rightarrow> (u16 \<times> bytes) list \<Rightarrow> bytes" where
  "client_hello_body random sid suites compression exts =
     [0x03, 0x03] @ random @ vec8 sid @ vec16 suites @ vec8 compression @ vec16 (concat (map encode_extension exts))"

text \<open>A handshake message with its type and three length bytes, in a record.\<close>

definition client_hello_record :: "bytes \<Rightarrow> bytes \<Rightarrow> bytes" where
  "client_hello_record length3 body = [0x16, 0x03, 0x01] @ vec16 (0x01 # length3 @ body)"

lemma be16_at_vec16: "length b < 65536 \<Longrightarrow> be16_at (pre @ vec16 b @ post) (length pre) = length b"
  by (simp add: vec16_def)

lemma length_vec16 [simp]: "length (vec16 b) = 2 + length b"
  by (simp add: vec16_def)

lemma at_extension:
  assumes "length (snd e) < 65536"
  shows "read_be16 (pre @ encode_extension e @ post) (length pre) = Ok (unat (fst e))"
    and "read_be16 (pre @ encode_extension e @ post) (length pre + 2) = Ok (length (snd e))"
    and "slice (pre @ encode_extension e @ post) (length pre + 4) (length pre + 4 + length (snd e)) = Ok (snd e)"
proof -
  let ?b = "pre @ encode_extension e @ post"
  have "be16_at ?b (length pre) = unat (fst e)"
    by (simp add: encode_extension_def)
  then show "read_be16 ?b (length pre) = Ok (unat (fst e))"
    by (simp add: read_be16_ok encode_extension_def)
  have "be16_at ((pre @ u16_to_be (fst e)) @ vec16 (snd e) @ post) (length (pre @ u16_to_be (fst e))) = length (snd e)"
    by (rule be16_at_vec16 [OF assms])
  then show "read_be16 ?b (length pre + 2) = Ok (length (snd e))"
    by (simp add: read_be16_ok encode_extension_def)
  have "?b = (pre @ u16_to_be (fst e) @ u16_to_be (word_of_nat (length (snd e)))) @ snd e @ post"
    by (simp add: encode_extension_def vec16_def)
  moreover have "slice ((pre @ u16_to_be (fst e) @ u16_to_be (word_of_nat (length (snd e)))) @ snd e @ post)
      (length pre + 4) (length pre + 4 + length (snd e)) = Ok (snd e)"
    by (simp add: slice_def)
  ultimately show "slice ?b (length pre + 4) (length pre + 4 + length (snd e)) = Ok (snd e)" by simp
qed

lemma length_encode_extension [simp]: "length (encode_extension e) = 4 + length (snd e)"
  by (simp add: encode_extension_def)

definition x25519_share :: "(u16 \<times> bytes) list \<Rightarrow> bytes option" where
  "x25519_share shares = map_option snd (find (\<lambda>s. fst s = 0x001d \<and> length (snd s) = 32) shares)"

definition fits :: "(u16 \<times> bytes) list \<Rightarrow> bool" where
  "fits es \<longleftrightarrow> list_all (\<lambda>e. length (snd e) < 65536) es"

lemma key_share_loop_encoded:
  "fits shares \<Longrightarrow> key_share_loop (pre @ concat (map encode_extension shares))
     (length pre + length (concat (map encode_extension shares))) (length pre) =
     (Ok (x25519_share shares) :: (bytes option, 'e) outcome)"
proof (induction shares arbitrary: pre)
  case Nil
  then show ?case by (subst key_share_loop.simps) (simp add: x25519_share_def)
next
  case (Cons e es)
  then have small: "length (snd e) < 65536" by (simp add: fits_def)
  note at = at_extension [OF small, of pre "concat (map encode_extension es)"]
  have group: "unat (fst e) = 0x001d \<longleftrightarrow> fst e = 0x001d" by (simp add: word_unat_eq_iff)
  show ?case
  proof (cases "fst e = 0x001d \<and> length (snd e) = 32")
    case True
    then have "slice (pre @ encode_extension e @ concat (map encode_extension es)) (length pre + 4) (36 + length pre) =
        (Ok (snd e) :: (bytes, 'e) outcome)"
      using at(3) by (simp add: add.commute)
    with True group show ?thesis
      by (subst key_share_loop.simps) (simp add: Let_def x25519_share_def at del: add_2_eq_Suc')
  next
    case False
    have "key_share_loop ((pre @ encode_extension e) @ concat (map encode_extension es))
        (length (pre @ encode_extension e) + length (concat (map encode_extension es))) (length (pre @ encode_extension e)) =
        (Ok (x25519_share es) :: (bytes option, 'e) outcome)"
      by (rule Cons.IH) (use Cons.prems in \<open>simp add: fits_def\<close>)
    with group False show ?thesis
      by (subst key_share_loop.simps) (auto simp: Let_def x25519_share_def add.assoc at simp del: add_2_eq_Suc')
  qed
qed

lemma parse_key_share_encoded:
  assumes "fits shares" and "length (concat (map encode_extension shares)) < 65536"
  shows "parse_key_share (snd (key_share_extension shares)) = (Ok (x25519_share shares) :: (bytes option, 'e) outcome)"
proof -
  let ?c = "concat (map encode_extension shares)"
  have "read_be16 (vec16 ?c) 0 = (Ok (length ?c) :: (nat, 'e) outcome)"
    using be16_at_vec16 [OF assms(2), of "[]" "[]"] by (simp add: read_be16_ok)
  moreover have "key_share_loop (vec16 ?c) (2 + length ?c) 2 = (Ok (x25519_share shares) :: (bytes option, 'e) outcome)"
    using key_share_loop_encoded [OF assms(1), of "u16_to_be (word_of_nat (length ?c))"] by (simp add: vec16_def)
  ultimately show ?thesis by (simp add: parse_key_share_def key_share_extension_def)
qed

lemma parse_sni_encoded:
  assumes "utf8_valid name" and "length name < 65533"
  shows "parse_sni (snd (sni_extension name)) = (Ok (Some name) :: (rstring option, 'e) outcome)"
proof -
  let ?c = "0x00 # vec16 name"
  have c: "length ?c < 65536" using assms(2) by simp
  have "read_be16 (vec16 ?c) 0 = (Ok (length ?c) :: (nat, 'e) outcome)"
    using be16_at_vec16 [OF c, of "[]" "[]"] by (simp add: read_be16_ok)
  moreover have "sni_loop (vec16 ?c) (2 + length ?c) 2 = (Ok (Some name) :: (rstring option, 'e) outcome)"
  proof -
    have "be16_at ((u16_to_be (word_of_nat (length ?c)) @ [0]) @ vec16 name @ []) (length (u16_to_be (word_of_nat (length ?c)) @ [0 :: u8])) =
        length name" by (rule be16_at_vec16) (use assms(2) in simp)
    then have "read_be16 (vec16 ?c) 3 = (Ok (length name) :: (nat, 'e) outcome)"
      by (simp add: read_be16_ok vec16_def [of "0x00 # vec16 name"] numeral_3_eq_3)
    moreover have "idx (vec16 ?c) 2 = (Ok 0 :: (u8, 'e) outcome)" by (simp add: idx_def vec16_def nth_append)
    moreover have "slice (vec16 ?c) 5 (5 + length name) = (Ok name :: (bytes, 'e) outcome)"
      by (simp add: slice_def vec16_def)
    ultimately show ?thesis using assms(1)
      by (subst sni_loop.simps) (simp add: Let_def)
  qed
  ultimately show ?thesis by (simp add: parse_sni_def sni_extension_def)
qed

text \<open>The extensions of types 0 and 0x33 are a server name extension and a key share extension; TLS forbids a second of either.\<close>

definition carries :: "rstring \<Rightarrow> (u16 \<times> bytes) list \<Rightarrow> (u16 \<times> bytes) list \<Rightarrow> bool" where
  "carries name shares exts \<longleftrightarrow>
     fits exts \<and> fits shares \<and> utf8_valid name \<and> length (concat (map encode_extension shares)) < 65536 \<and> length name < 65533 \<and>
     list_all (\<lambda>e. (fst e = 0x0000 \<longrightarrow> e = sni_extension name) \<and> (fst e = 0x0033 \<longrightarrow> e = key_share_extension shares)) exts"

lemma fst_extensions [simp]: "fst (sni_extension name) = 0x0000" "fst (key_share_extension shares) = 0x0033"
  by (simp_all add: sni_extension_def key_share_extension_def)

lemma extensions_loop_encoded:
  assumes "carries name shares es" and "pk \<in> {None, x25519_share shares}" and "sn \<in> {None, Some name}"
    and "pk = x25519_share shares \<or> key_share_extension shares \<in> set es"
    and "sn = Some name \<or> sni_extension name \<in> set es"
  shows "extensions_loop (pre @ concat (map encode_extension es)) pk sn (length pre) =
     (Ok (x25519_share shares, Some name) :: (bytes option \<times> rstring option, 'e) outcome)"
  using assms
proof (induction es arbitrary: pre pk sn)
  case Nil
  then show ?case by (subst extensions_loop.simps) simp
next
  case (Cons e es)
  then have small: "length (snd e) < 65536" and rest: "carries name shares es"
    by (auto simp: carries_def fits_def)
  note at = at_extension [OF small, of pre "concat (map encode_extension es)"]
  define pk' where "pk' = (if e = key_share_extension shares then x25519_share shares else pk)"
  define sn' where "sn' = (if e = sni_extension name then Some name else sn)"
  have ext_type: "unat (fst e) = 0x0000 \<longleftrightarrow> fst e = 0x0000" "unat (fst e) = 0x0033 \<longleftrightarrow> fst e = 0x0033"
    by (simp_all add: word_unat_eq_iff)
  have different: "sni_extension name \<noteq> key_share_extension shares"
    by (simp add: sni_extension_def key_share_extension_def)
  have kinds: "fst e = 0x0000 \<longleftrightarrow> e = sni_extension name" "fst e = 0x0033 \<longleftrightarrow> e = key_share_extension shares"
    using Cons.prems(1) different by (auto simp: carries_def)
  have parsed: "(parse_sni (snd (sni_extension name)) :: (rstring option, 'e) outcome) = Ok (Some name)"
    "(parse_key_share (snd (key_share_extension shares)) :: (bytes option, 'e) outcome) = Ok (x25519_share shares)"
    using rest by (auto simp: carries_def parse_sni_encoded parse_key_share_encoded)
  have IH: "extensions_loop ((pre @ encode_extension e) @ concat (map encode_extension es)) pk' sn'
      (length (pre @ encode_extension e)) = (Ok (x25519_share shares, Some name) :: (bytes option \<times> rstring option, 'e) outcome)"
    by (rule Cons.IH [OF rest]) (use Cons.prems in \<open>auto simp: pk'_def sn'_def\<close>)
  have "extensions_loop (pre @ encode_extension e @ concat (map encode_extension es)) pk sn (length pre) =
      (if pk' \<noteq> None \<and> sn' \<noteq> None then Ok (pk', sn')
       else extensions_loop (pre @ encode_extension e @ concat (map encode_extension es)) pk' sn' (length pre + 4 + length (snd e))
         :: (bytes option \<times> rstring option, 'e) outcome)"
    by (subst extensions_loop.simps)
      (auto simp: Let_def at kinds ext_type parsed pk'_def sn'_def different different [symmetric] simp del: add_2_eq_Suc')
  with IH Cons.prems(2,3) show ?case
    by (auto simp: add.assoc pk'_def sn'_def split: if_splits)
qed

lemma parse_extensions_encoded:
  "carries name shares exts \<Longrightarrow> sni_extension name \<in> set exts \<Longrightarrow> key_share_extension shares \<in> set exts \<Longrightarrow>
     parse_extensions (concat (map encode_extension exts)) = Ok (x25519_share shares, Some name)"
  using extensions_loop_encoded [of name shares exts None None "[]"] by (simp add: parse_extensions_def)

lemma read_be16_vec16:
  "length b < 65536 \<Longrightarrow> i = length pre \<Longrightarrow> read_be16 (pre @ vec16 b @ post) i = Ok (length b)"
  by (simp add: read_be16_ok vec16_def)

lemma slice_vec16:
  "i = length pre + 2 \<Longrightarrow> j = length pre + 2 + length b \<Longrightarrow> slice (pre @ vec16 b @ post) i j = Ok b"
  by (simp add: slice_def vec16_def)

lemma idx_vec8: "length b < 256 \<Longrightarrow> i = length pre \<Longrightarrow> idx (pre @ vec8 b @ post) i = Ok (word_of_nat (length b))"
  by (simp add: idx_def vec8_def)

lemma unat_vec8: "length b < 256 \<Longrightarrow> unat (word_of_nat (length b) :: u8) = length b"
  by simp

lemma length_vec8 [simp]: "length (vec8 b) = 1 + length b"
  by (simp add: vec8_def)

lemma parse_hello_rest_encoded:
  assumes "carries name shares exts" and "sni_extension name \<in> set exts" and "key_share_extension shares \<in> set exts"
    and "length (concat (map encode_extension exts)) < 65536" and "i = length pre"
  shows "parse_hello_rest (pre @ vec16 (concat (map encode_extension exts)) @ post) i random sid =
     Ok (Some \<lparr>ch_session_id = sid, ch_client_random = random, ch_public_key = x25519_share shares, ch_server_name = Some name\<rparr>)"
  unfolding parse_hello_rest_def using assms
  by (simp add: read_be16_vec16 slice_vec16 parse_extensions_encoded Let_def)

lemma parse_hello_suites_encoded:
  assumes "length suites < 65536" and "length compression < 256" and "i = length pre"
  shows "parse_hello_suites (pre @ vec16 suites @ vec8 compression @ vec16 e @ post) i random sid =
     parse_hello_rest ((pre @ vec16 suites @ vec8 compression) @ vec16 e @ post) (length pre + 3 + length suites + length compression) random sid"
proof -
  have "idx (pre @ vec16 suites @ vec8 compression @ vec16 e @ post) (length pre + 2 + length suites) =
      (Ok (word_of_nat (length compression)) :: (u8, rstring) outcome)"
    using idx_vec8 [OF assms(2), of "length pre + 2 + length suites" "pre @ vec16 suites" "vec16 e @ post"] by simp
  then show ?thesis
    unfolding parse_hello_suites_def using assms
    by (simp add: read_be16_vec16 Let_def unat_vec8 add.assoc numeral_3_eq_3)
qed

lemma parse_client_hello_encoded:
  assumes "length random = 32" and "length length3 = 3" and "length sid < 256"
    and "length suites < 65536" and "length compression < 256"
    and "length (0x01 # length3 @ client_hello_body random sid suites compression exts) < 65536"
    and "carries name shares exts" and "sni_extension name \<in> set exts" and "key_share_extension shares \<in> set exts"
  shows "parse_client_hello (client_hello_record length3 (client_hello_body random sid suites compression exts) @ rest) =
     Ok (Some \<lparr>ch_session_id = sid, ch_client_random = random, ch_public_key = x25519_share shares, ch_server_name = Some name\<rparr>)"
proof -
  let ?e = "concat (map encode_extension exts)"
  let ?body = "client_hello_body random sid suites compression exts"
  let ?buf = "client_hello_record length3 ?body @ rest"
  let ?head = "[0x16, 0x03, 0x01] @ u16_to_be (word_of_nat (length (0x01 # length3 @ ?body))) @ [0x01] @ length3 @ [0x03, 0x03] :: bytes"
  have head: "length ?head = 11" using assms(2) by simp
  have buf: "?buf = ?head @ random @ vec8 sid @ vec16 suites @ vec8 compression @ vec16 ?e @ rest"
    by (simp add: client_hello_record_def client_hello_body_def vec16_def [of "0x01 # _"])
  have len: "length ?buf = 49 + length sid + length suites + length compression + length ?e + length rest"
    unfolding buf using head assms(1) by simp
  have record_len: "read_be16 ?buf 3 = (Ok (length (0x01 # length3 @ ?body)) :: (nat, rstring) outcome)"
    unfolding client_hello_record_def append.assoc by (rule read_be16_vec16) (use assms(6) in simp_all)
  have whole: "5 + length (0x01 # length3 @ ?body) \<le> length ?buf"
    by (simp add: client_hello_record_def)
  have b0: "idx ?buf 0 = (Ok 0x16 :: (u8, rstring) outcome)" and b5: "idx ?buf 5 = (Ok 0x01 :: (u8, rstring) outcome)"
    unfolding buf by (simp_all add: idx_def nth_append)
  have r: "slice ?buf 11 43 = (Ok random :: (bytes, rstring) outcome)"
    unfolding buf using head assms(1) by (simp add: slice_def)
  have sl: "idx ?buf 43 = (Ok (word_of_nat (length sid)) :: (u8, rstring) outcome)"
    unfolding buf using idx_vec8 [OF assms(3), of 43 "?head @ random"] head assms(1) by simp
  have s: "slice ?buf 44 (44 + length sid) = (Ok sid :: (bytes, rstring) outcome)"
    unfolding buf using head assms(1) by (simp add: slice_def vec8_def)
  have "parse_hello_suites ?buf (44 + length sid) random sid =
      parse_hello_rest ?buf (47 + length sid + length suites + length compression) random sid"
    using parse_hello_suites_encoded [OF assms(4,5), of "44 + length sid" "?head @ random @ vec8 sid" ?e rest random sid] head assms(1)
    unfolding buf by simp
  also have "\<dots> = Ok (Some \<lparr>ch_session_id = sid, ch_client_random = random, ch_public_key = x25519_share shares, ch_server_name = Some name\<rparr>)"
    using parse_hello_rest_encoded [OF assms(7-9), of "47 + length sid + length suites + length compression"
      "?head @ random @ vec8 sid @ vec16 suites @ vec8 compression" rest random sid] head assms(1,6)
    unfolding buf by (simp add: client_hello_body_def)
  finally show ?thesis
    unfolding parse_client_hello_def using whole len assms(1)
    by (simp add: b0 b5 r sl s record_len unat_vec8 assms(3) del: length_append)
qed

text \<open>The client hello parser accepts every well-formed hello: for a record with any session
  identifier, cipher suites and compression methods, whose extensions, in any order and among any
  others, contain one server name extension and one key share extension, it returns the session
  identifier, the random, the first X25519 share with a 32-byte key and the name, and it ignores the
  bytes after the record.
\<close>

lemma parse_client_hello_complete:
  assumes "length random = 32" and "length length3 = 3" and "length sid < 256"
    and "length suites < 65536" and "length compression < 256"
    and "length (0x01 # length3 @ client_hello_body random sid suites compression exts) < 65536"
    and "carries name shares exts" and "sni_extension name \<in> set exts" and "key_share_extension shares \<in> set exts"
  shows "parse_client_hello (client_hello_record length3 (client_hello_body random sid suites compression exts) @ rest) =
     Ok (Some \<lparr>ch_session_id = sid, ch_client_random = random, ch_public_key = x25519_share shares, ch_server_name = Some name\<rparr>)"
  by (rule parse_client_hello_encoded [OF assms])

lemma parse_client_hello_total: "returns (parse_client_hello buf)"
proof (cases "length buf < 5")
  case False
  then have "buf \<noteq> []" by auto
  with False show ?thesis
    by (auto simp: parse_client_hello_def idx_ok read_be16_ok slice_ok parse_hello_suites_returns)
qed (simp add: parse_client_hello_def)

text \<open>The client hello parser never panics, whatever bytes a peer sends: no index or slice is out of range.\<close>

lemma parse_client_hello_returns: "returns (parse_client_hello buf)"
  by (rule parse_client_hello_total)

end
