(* ===== verification/Reality_Auth.thy ===== *)
theory Reality_Auth
  imports Reality_Hello Text_Format
begin

text \<open>
  The authentication of a REALITY client by its hello: the server's check
  (\<open>crates/skadi-transport/src/reality/auth.rs\<close>) and the client's side of it
  (\<open>reality/client_auth.rs\<close>). X25519, HKDF, AES-GCM and hexadecimal encoding are third-party code and
  parameters; the record \<open>reality_crypto\<close> holds them, and \<open>crypto_laws\<close> states what their
  documentation promises.
\<close>

record reality_crypto =
  x25519 :: "bytes \<Rightarrow> bytes \<Rightarrow> bytes"
  x25519_public :: "bytes \<Rightarrow> bytes"
  hkdf_expand :: "bytes \<Rightarrow> bytes \<Rightarrow> bytes \<Rightarrow> nat \<Rightarrow> bytes option"
  aes_gcm_seal :: "bytes \<Rightarrow> bytes \<Rightarrow> bytes \<Rightarrow> bytes \<Rightarrow> bytes option"
  aes_gcm_open :: "bytes \<Rightarrow> bytes \<Rightarrow> bytes \<Rightarrow> bytes \<Rightarrow> bytes option"
  hex_encode :: "bytes \<Rightarrow> rstring"

definition crypto_laws :: "reality_crypto \<Rightarrow> bool" where
  "crypto_laws cr \<longleftrightarrow>
     (\<forall>a b. x25519 cr a (x25519_public cr b) = x25519 cr b (x25519_public cr a)) \<and>
     (\<forall>a. length (x25519_public cr a) = 32) \<and>
     (\<forall>salt ikm info. \<exists>k. hkdf_expand cr salt ikm info 32 = Some k \<and> length k = 32) \<and>
     (\<forall>k n aad m. length k = 32 \<longrightarrow> length n = 12 \<longrightarrow>
        (\<exists>c. aes_gcm_seal cr k n aad m = Some c \<and> length c = length m + 16 \<and> aes_gcm_open cr k n aad c = Some m)) \<and>
     (\<forall>bs. hex_encode cr bs = concat (map fmt_02x bs))"

section \<open>Erasing\<close>

text \<open>\<open>for i in 0..n { if pos + i < aad.len() { aad[pos + i] = 0; } }\<close>\<close>

primrec zero_at :: "nat \<Rightarrow> nat \<Rightarrow> bytes \<Rightarrow> bytes" where
  "zero_at 0 pos aad = aad"
| "zero_at (Suc n) pos aad = (let aad = zero_at n pos aad in if pos + n < length aad then aad[pos + n := 0] else aad)"

lemma length_zero_at [simp]: "length (zero_at n pos aad) = length aad"
  by (induction n) (simp_all add: Let_def)

lemma zero_at_part: "n \<le> length mid \<Longrightarrow>
    zero_at n (length pre) (pre @ mid @ post) = pre @ replicate n 0 @ drop n mid @ post"
proof (induction n)
  case (Suc n)
  then obtain x xs where "drop n mid = x # xs" by (metis Suc_le_lessD Cons_nth_drop_Suc)
  with Suc show ?case
    by (simp add: Let_def list_update_append drop_Suc tl_drop [symmetric] flip: replicate_append_same)
qed simp

lemma zero_at_block: "n = length mid \<Longrightarrow> zero_at n (length pre) (pre @ mid @ post) = pre @ replicate n 0 @ post"
  using zero_at_part [of n mid pre post] by simp

section \<open>The server\<close>

text \<open>\<open>if full_hello.first() == Some(&0x16) { &full_hello[5..] } else { full_hello }\<close>\<close>

definition handshake_part :: "bytes \<Rightarrow> (bytes, 'e) outcome" where
  "handshake_part b = (if b \<noteq> [] \<and> hd b = 0x16 then slice b 5 (length b) else Ok b)"

definition try_key :: "bytes option \<Rightarrow> bytes option" where
  "try_key k = (case k of Some b \<Rightarrow> if length b = 32 then Some b else None | None \<Rightarrow> None)"

definition find_session_id :: "reality_crypto \<Rightarrow> bytes \<Rightarrow> bytes \<Rightarrow> nat option" where
  "find_session_id cr hay needle = map_option (\<lambda>p. p div 2) (str_find (hex_encode cr hay) (hex_encode cr needle))"

fun match_short_id :: "bytes \<Rightarrow> bytes list \<Rightarrow> (bool, 'e) outcome" where
  "match_short_id buf [] = Ok False"
| "match_short_id buf (sid # sids) =
     ebind (slice buf 4 12) (\<lambda>early.
     if sid = early then Ok True
     else ebind (slice buf 8 16) (\<lambda>late.
       if sid = late then Ok True else match_short_id buf sids))"

definition verify_client_reality ::
  "reality_crypto \<Rightarrow> client_hello_info \<Rightarrow> bytes \<Rightarrow> bytes \<Rightarrow> bytes list \<Rightarrow> (bytes option, 'e) outcome" where
  "verify_client_reality cr info full_hello private_key short_ids =
     (if length (ch_session_id info) \<noteq> 32 \<or> ch_public_key info = None then Ok None
      else case try_key (ch_public_key info) of
        None \<Rightarrow> Ok None
      | Some client_pub \<Rightarrow>
          let shared = x25519 cr private_key client_pub in
          ebind (slice (ch_client_random info) 0 20) (\<lambda>salt.
          case hkdf_expand cr salt shared (lit ''REALITY'') 32 of
            None \<Rightarrow> Ok None
          | Some auth_key \<Rightarrow>
              ebind (slice (ch_client_random info) 20 32) (\<lambda>nonce.
              ebind (handshake_part full_hello) (\<lambda>handshake_msg.
              let aad = (case find_session_id cr handshake_msg (ch_session_id info) of
                    Some pos \<Rightarrow> zero_at 32 pos handshake_msg
                  | None \<Rightarrow> handshake_msg)
              in case aes_gcm_open cr auth_key nonce aad (ch_session_id info) of
                None \<Rightarrow> Ok None
              | Some buf \<Rightarrow>
                  if length buf < 16 then Ok None
                  else ebind (match_short_id buf short_ids) (\<lambda>found. Ok (if found then Some auth_key else None))))))"

section \<open>The client\<close>

record reality_client_auth =
  rca_server_public_key :: bytes
  rca_short_id :: bytes

datatype reality_client_auth_error = InvalidShortId | Cipher | Encrypt

definition derive_auth_key ::
  "reality_crypto \<Rightarrow> reality_client_auth \<Rightarrow> bytes \<Rightarrow> bytes \<Rightarrow> (bytes, 'e) outcome" where
  "derive_auth_key cr auth client_secret client_random =
     (let shared = x25519 cr client_secret (rca_server_public_key auth) in
      ebind (slice client_random 0 20) (\<lambda>salt.
      case hkdf_expand cr salt shared (lit ''REALITY'') 32 of
        Some auth_key \<Rightarrow> Ok auth_key
      | None \<Rightarrow> Panic))"

definition session_id_offset_in_hello_aad :: "bytes \<Rightarrow> (nat option, 'e) outcome" where
  "session_id_offset_in_hello_aad hello_aad =
     (let base = (if hello_aad \<noteq> [] \<and> hd hello_aad = 0x16 then 5 else 0) in
      ebind (handshake_part hello_aad) (\<lambda>handshake.
      if length handshake < 40 then Ok None
      else ebind (idx handshake 0) (\<lambda>b.
        if b \<noteq> 0x01 then Ok None else Ok (Some (base + 4 + 2 + 32 + 1)))))"

text \<open>The sixteen bytes a client seals: version bytes, the seconds of the clock as \<open>u32\<close>, the short identifier.\<close>

definition u32_to_be :: "u32 \<Rightarrow> bytes" where
  "u32_to_be w = map (\<lambda>k. word_of_nat (unat w div 256 ^ k mod 256)) [3, 2, 1, 0]"

definition reality_plaintext :: "u32 \<Rightarrow> bytes \<Rightarrow> bytes" where
  "reality_plaintext ts short_id =
     [0x01, 0x08, 0x00, 0x00] @ u32_to_be ts @ short_id @ replicate (8 - length short_id) 0"

definition encrypt_session_id ::
  "reality_crypto \<Rightarrow> u32 \<Rightarrow> reality_client_auth \<Rightarrow> bytes \<Rightarrow> bytes \<Rightarrow> bytes \<Rightarrow> (bytes, reality_client_auth_error) outcome" where
  "encrypt_session_id cr ts auth auth_key client_random hello_aad =
     (if rca_short_id auth = [] \<or> length (rca_short_id auth) > 8 then Err InvalidShortId
      else if length auth_key \<noteq> 32 then Err Cipher
      else
        ebind (slice client_random 20 32) (\<lambda>nonce.
        ebind (session_id_offset_in_hello_aad hello_aad) (\<lambda>offset.
        let aad = (case offset of Some offset \<Rightarrow> zero_at 32 offset hello_aad | None \<Rightarrow> hello_aad)
        in case aes_gcm_seal cr auth_key nonce aad (reality_plaintext ts (rca_short_id auth)) of
          None \<Rightarrow> Err Encrypt
        | Some sealed \<Rightarrow> if length sealed \<noteq> 32 then Err Encrypt else Ok sealed)))"

definition zero_session_id_aad_handshake :: "bytes \<Rightarrow> nat \<Rightarrow> (bytes, 'e) outcome" where
  "zero_session_id_aad_handshake record_bytes offset =
     ebind (handshake_part record_bytes) (\<lambda>handshake. Ok (zero_at 32 offset handshake))"

definition find_session_id_offset :: "reality_crypto \<Rightarrow> bytes \<Rightarrow> bytes \<Rightarrow> nat option" where
  "find_session_id_offset cr handshake_msg session_id =
     (if session_id = [] then None else find_session_id cr handshake_msg session_id)"

definition session_id_offset_in_handshake :: "reality_crypto \<Rightarrow> bytes \<Rightarrow> (nat option, 'e) outcome" where
  "session_id_offset_in_handshake cr record_bytes =
     (case parse_client_hello record_bytes of
        Ok (Some info) \<Rightarrow>
          ebind (handshake_part record_bytes) (\<lambda>handshake_msg.
          Ok (find_session_id_offset cr handshake_msg (ch_session_id info)))
      | Panic \<Rightarrow> Panic
      | Pending \<Rightarrow> Pending
      | _ \<Rightarrow> Ok None)"

text \<open>
  The same steps inside the vendored TLS library (\<open>third_party/rustls-reality\<close>, \<open>reality/client.rs\<close>),
  which is where the outbound transport runs them: \<open>apply_client_hello\<close> reads the encoding of the
  hello, and returns the session identifier it stores in the hello and the key it keeps.
\<close>

record reality_client_settings =
  rcs_server_public_key :: bytes
  rcs_short_id :: bytes
  rcs_eph_secret :: bytes

definition hello_session_offset :: "bytes \<Rightarrow> (nat, rstring) outcome" where
  "hello_session_offset hello_encoded =
     (if length hello_encoded < 40 then Err (lit ''invalid ClientHello encoding for REALITY'')
      else ebind (idx hello_encoded 0) (\<lambda>b.
        if b \<noteq> 0x01 then Err (lit ''invalid ClientHello encoding for REALITY'') else Ok (4 + 2 + 32 + 1)))"

definition seal_session_id :: "reality_crypto \<Rightarrow> u32 \<Rightarrow> bytes \<Rightarrow> bytes \<Rightarrow> bytes \<Rightarrow> bytes \<Rightarrow> (bytes, rstring) outcome" where
  "seal_session_id cr ts auth_key client_random hello_aad short_id =
     (if length auth_key \<noteq> 32 then Err (lit ''REALITY AES-GCM init failed'')
      else
        ebind (slice client_random 20 32) (\<lambda>nonce.
        case aes_gcm_seal cr auth_key nonce hello_aad (reality_plaintext ts short_id) of
          None \<Rightarrow> Err (lit ''REALITY session_id seal failed'')
        | Some sealed \<Rightarrow> if length sealed \<noteq> 32 then Err (lit ''REALITY session_id length mismatch'') else Ok sealed))"

definition apply_client_hello ::
  "reality_crypto \<Rightarrow> u32 \<Rightarrow> bytes \<Rightarrow> bytes \<Rightarrow> reality_client_settings \<Rightarrow> (bytes \<times> bytes, rstring) outcome" where
  "apply_client_hello cr ts hello_raw client_random settings =
     (if rcs_short_id settings = [] \<or> length (rcs_short_id settings) > 8 then Err (lit ''REALITY short_id must be 1..8 bytes'')
      else
        ebind (derive_auth_key cr \<lparr>rca_server_public_key = rcs_server_public_key settings, rca_short_id = rcs_short_id settings\<rparr>
          (rcs_eph_secret settings) client_random) (\<lambda>auth_key.
        ebind (hello_session_offset hello_raw) (\<lambda>offset.
        ebind (seal_session_id cr ts auth_key client_random (zero_at 32 offset hello_raw) (rcs_short_id settings)) (\<lambda>session_id.
        Ok (session_id, auth_key)))))"

section \<open>Agreement\<close>

lemma hex_length [simp]: "length (concat (map fmt_02x bs)) = 2 * length bs"
  by (induction bs) (simp_all add: fmt_02x_def)

lemma find_session_id_at:
  assumes "crypto_laws cr" and "hay = pre @ needle @ post"
    and "\<forall>i < 2 * length pre. \<not> starts_with (drop i (hex_encode cr hay)) (hex_encode cr needle)"
  shows "find_session_id cr hay needle = Some (length pre)"
proof -
  have hex: "hex_encode cr bs = concat (map fmt_02x bs)" for bs using assms(1) by (simp add: crypto_laws_def)
  have "drop (2 * length pre) (hex_encode cr hay) = hex_encode cr needle @ hex_encode cr post"
    by (simp add: hex assms(2))
  then have "str_find (hex_encode cr hay) (hex_encode cr needle) = Some (2 * length pre)"
    using assms(3) by (intro str_find_first) simp_all
  then show ?thesis by (simp add: find_session_id_def)
qed

lemma match_short_id_conv:
  "16 \<le> length buf \<Longrightarrow> match_short_id buf sids =
     Ok (\<exists>sid \<in> set sids. sid = take 8 (drop 4 buf) \<or> sid = take 8 (drop 8 buf))"
  by (induction sids) (auto simp: slice_ok)

lemma reality_plaintext_short_id:
  "length short_id = 8 \<Longrightarrow> drop 8 (reality_plaintext ts short_id) = short_id"
  by (simp add: reality_plaintext_def u32_to_be_def)

lemma length_reality_plaintext: "length short_id \<le> 8 \<Longrightarrow> length (reality_plaintext ts short_id) = 16"
  by (simp add: reality_plaintext_def u32_to_be_def)

text \<open>The handshake message of a hello; its session identifier has 39 bytes before it.\<close>

definition hello_message :: "bytes \<Rightarrow> bytes \<Rightarrow> bytes \<Rightarrow> bytes \<Rightarrow> (u16 \<times> bytes) list \<Rightarrow> bytes \<Rightarrow> bytes" where
  "hello_message length3 random suites compression exts sid =
     0x01 # length3 @ client_hello_body random sid suites compression exts"

lemma hello_message_split:
  "hello_message length3 random suites compression exts sid =
     (0x01 # length3 @ [0x03, 0x03] @ random @ [word_of_nat (length sid)]) @ sid @
       (vec16 suites @ vec8 compression @ vec16 (concat (map encode_extension exts)))"
  by (simp add: hello_message_def client_hello_body_def vec8_def)

lemma zeroed_hello:
  assumes "length length3 = 3" and "length random = 32" and "length sid = 32"
  shows "zero_at 32 39 (hello_message length3 random suites compression exts sid) =
     hello_message length3 random suites compression exts (replicate 32 0)"
  unfolding hello_message_split
  using zero_at_block [of 32 sid "0x01 # length3 @ [0x03, 0x03] @ random @ [word_of_nat (length sid)]"] assms
  by simp

lemma handshake_of_record: "handshake_part ([0x16, 0x03, 0x01] @ vec16 b) = Ok b"
  by (simp add: handshake_part_def slice_def vec16_def)

lemma hello_offset:
  "length length3 = 3 \<Longrightarrow> length random = 32 \<Longrightarrow>
     session_id_offset_in_hello_aad (hello_message length3 random suites compression exts sid) = Ok (Some 39)"
  by (simp add: session_id_offset_in_hello_aad_def handshake_part_def hello_message_def client_hello_body_def idx_def)

lemma hello_session_offset_Ok:
  "length length3 = 3 \<Longrightarrow> length random = 32 \<Longrightarrow>
     hello_session_offset (hello_message length3 random suites compression exts sid) = Ok 39"
  by (simp add: hello_session_offset_def hello_message_def client_hello_body_def idx_def)

text \<open>The two implementations of the client's side agree, whatever identifier the hello had before.\<close>

lemma apply_client_hello_agrees:
  assumes "length random = 32" and "length length3 = 3" and "length sid0 = 32"
    and "derive_auth_key cr auth client_secret random = (Ok k :: (bytes, rstring) outcome)"
    and "encrypt_session_id cr ts auth k random (hello_message length3 random suites compression exts (replicate 32 0)) = Ok sid"
  shows "apply_client_hello cr ts (hello_message length3 random suites compression exts sid0) random
     \<lparr>rcs_server_public_key = rca_server_public_key auth, rcs_short_id = rca_short_id auth, rcs_eph_secret = client_secret\<rparr> = Ok (sid, k)"
  using assms
  by (cases auth) (auto simp: apply_client_hello_def encrypt_session_id_def hello_offset hello_session_offset_Ok zeroed_hello seal_session_id_def
      slice_ok split: if_splits option.splits)

lemma encrypt_session_id_Ok:
  assumes "crypto_laws cr" and "rca_short_id auth \<noteq> []" and "length (rca_short_id auth) \<le> 8" and "length k = 32"
    and "length random = 32" and "length length3 = 3"
  shows "\<exists>sid. encrypt_session_id cr ts auth k random (hello_message length3 random suites compression exts (replicate 32 0)) = Ok sid \<and>
     length sid = 32 \<and>
     aes_gcm_open cr k (drop 20 random) (hello_message length3 random suites compression exts (replicate 32 0)) sid =
       Some (reality_plaintext ts (rca_short_id auth))"
proof -
  let ?h = "hello_message length3 random suites compression exts (replicate 32 0)"
  have "length (drop 20 random) = 12" using assms(5) by simp
  then obtain c where c: "aes_gcm_seal cr k (drop 20 random) ?h (reality_plaintext ts (rca_short_id auth)) = Some c"
      "length c = length (reality_plaintext ts (rca_short_id auth)) + 16"
      "aes_gcm_open cr k (drop 20 random) ?h c = Some (reality_plaintext ts (rca_short_id auth))"
    using assms(1,4) unfolding crypto_laws_def by blast
  from c assms show ?thesis
    by (simp add: encrypt_session_id_def hello_offset slice_ok zeroed_hello length_reality_plaintext not_less)
qed

text \<open>The session identifier of a hello does not occur, in hexadecimal, before its place.\<close>

definition sid_first :: "reality_crypto \<Rightarrow> bytes \<Rightarrow> bytes \<Rightarrow> bool" where
  "sid_first cr hello sid \<longleftrightarrow> (\<forall>i < 78. \<not> starts_with (drop i (hex_encode cr hello)) (hex_encode cr sid))"

lemma verify_sealed_hello:
  assumes laws: "crypto_laws cr" and random: "length random = 32" and l3: "length length3 = 3" and sid: "length sid = 32"
    and first: "sid_first cr (hello_message length3 random suites compression exts sid) sid"
    and pk: "length pk = 32" and key: "hkdf_expand cr (take 20 random) (x25519 cr private_key pk) (lit ''REALITY'') 32 = Some k"
    and opened: "aes_gcm_open cr k (drop 20 random) (hello_message length3 random suites compression exts (replicate 32 0)) sid = Some buf"
    and buf: "16 \<le> length buf" and found: "take 8 (drop 8 buf) \<in> set short_ids"
  shows "verify_client_reality cr
      \<lparr>ch_session_id = sid, ch_client_random = random, ch_public_key = Some pk, ch_server_name = sn\<rparr>
      ([0x16, 0x03, 0x01] @ vec16 (hello_message length3 random suites compression exts sid)) private_key short_ids =
      (Ok (Some k) :: (bytes option, 'e) outcome)"
proof -
  let ?pre = "0x01 # length3 @ [0x03, 0x03] @ random @ [word_of_nat (length sid)] :: bytes"
  have pre: "length ?pre = 39" using random l3 by simp
  have "find_session_id cr (hello_message length3 random suites compression exts sid) sid = Some (length ?pre)"
    by (rule find_session_id_at [OF laws hello_message_split]) (use first pre in \<open>simp add: sid_first_def\<close>)
  then have "find_session_id cr (hello_message length3 random suites compression exts sid) sid = Some 39"
    by (simp only: pre)
  moreover have "match_short_id buf short_ids = (Ok True :: (bool, 'e) outcome)"
    using buf found by (auto simp: match_short_id_conv)
  ultimately show ?thesis
    using random sid pk key opened buf
    by (simp add: verify_client_reality_def try_key_def slice_ok handshake_of_record zeroed_hello l3 Let_def
        del: append_Cons append_Nil)
qed

section \<open>Properties\<close>

text \<open>C19: a REALITY client and the server that holds the matching key recognise each other. The client
  derives its session key and seals its session identifier over the hello it is about to send,
  whatever the hello's suites and extensions, and the library that runs this on an outgoing
  connection computes the same two values; the server parses the record, opens the identifier
  with the key it derives from its own private key, finds the short identifier among its own and
  ends with the same session key. The short identifier must have eight bytes, and the sealed
  identifier must not also occur earlier in the hello.\<close>
theorem reality_client_recognised:
  assumes "crypto_laws cr" and "rca_server_public_key auth = x25519_public cr private_key"
    and "length (rca_short_id auth) = 8" and "rca_short_id auth \<in> set short_ids"
    and "length random = 32" and "length length3 = 3" and "length suites < 65536" and "length compression < 256"
    and "length (hello_message length3 random suites compression exts (replicate 32 0)) < 65536"
    and "carries name shares exts" and "sni_extension name \<in> set exts" and "key_share_extension shares \<in> set exts"
    and "x25519_share shares = Some (x25519_public cr client_secret)"
    and "length sid0 = 32"
  shows "\<exists>k sid. derive_auth_key cr auth client_secret random = (Ok k :: (bytes, rstring) outcome) \<and>
    encrypt_session_id cr ts auth k random (hello_message length3 random suites compression exts (replicate 32 0)) = Ok sid \<and>
    apply_client_hello cr ts (hello_message length3 random suites compression exts sid0) random
      \<lparr>rcs_server_public_key = rca_server_public_key auth, rcs_short_id = rca_short_id auth, rcs_eph_secret = client_secret\<rparr> = Ok (sid, k) \<and>
    (sid_first cr (hello_message length3 random suites compression exts sid) sid \<longrightarrow>
      (let hello = client_hello_record length3 (client_hello_body random sid suites compression exts) in
       \<exists>info. parse_client_hello hello = Ok (Some info) \<and> ch_server_name info = Some name \<and>
         verify_client_reality cr info hello private_key short_ids = (Ok (Some k) :: (bytes option, 'e) outcome)))"
proof -
  have commutes: "x25519 cr client_secret (rca_server_public_key auth) = x25519 cr private_key (x25519_public cr client_secret)"
    and pk: "length (x25519_public cr client_secret) = 32" using assms(1,2) by (simp_all add: crypto_laws_def)
  obtain k where k: "hkdf_expand cr (take 20 random) (x25519 cr private_key (x25519_public cr client_secret)) (lit ''REALITY'') 32 = Some k"
      "length k = 32" using assms(1) unfolding crypto_laws_def by blast
  then have derived: "derive_auth_key cr auth client_secret random = (Ok k :: (bytes, rstring) outcome)"
    using assms(5) by (simp add: derive_auth_key_def commutes slice_ok Let_def)
  have "rca_short_id auth \<noteq> []" "length (rca_short_id auth) \<le> 8" using assms(3) by auto
  from encrypt_session_id_Ok [OF assms(1) this k(2) assms(5,6)] obtain sid where
    sealed: "encrypt_session_id cr ts auth k random (hello_message length3 random suites compression exts (replicate 32 0)) = Ok sid"
    and sid: "length sid = 32"
    and opened: "aes_gcm_open cr k (drop 20 random) (hello_message length3 random suites compression exts (replicate 32 0)) sid =
      Some (reality_plaintext ts (rca_short_id auth))" by blast
  let ?hello = "client_hello_record length3 (client_hello_body random sid suites compression exts)"
  let ?info = "\<lparr>ch_session_id = sid, ch_client_random = random, ch_public_key = Some (x25519_public cr client_secret), ch_server_name = Some name\<rparr>"
  have "length (0x01 # length3 @ client_hello_body random sid suites compression exts) < 65536"
    using assms(9) sid by (simp add: hello_message_def client_hello_body_def)
  then have "parse_client_hello (?hello @ []) = Ok (Some ?info)"
    using parse_client_hello_encoded [of random length3 sid suites compression exts name shares "[]"] assms sid by simp
  moreover have "verify_client_reality cr ?info ?hello private_key short_ids = (Ok (Some k) :: (bytes option, 'e) outcome)"
    if "sid_first cr (hello_message length3 random suites compression exts sid) sid"
    unfolding client_hello_record_def hello_message_def [symmetric]
    by (rule verify_sealed_hello [OF assms(1,5,6) sid that pk k(1) opened])
      (simp_all add: length_reality_plaintext reality_plaintext_short_id assms(3,4))
  ultimately show ?thesis
    using derived sealed apply_client_hello_agrees [OF assms(5,6,14) derived sealed] by (auto simp: Let_def)
qed

text \<open>Functions that keep the laws, for concrete instances.\<close>

definition pad32 :: "bytes \<Rightarrow> bytes" where
  "pad32 b = take 32 (b @ replicate 32 0)"

definition sample_crypto :: reality_crypto where
  "sample_crypto =
     \<lparr>x25519 = (\<lambda>a p. map2 (+) (pad32 a) p), x25519_public = pad32,
      hkdf_expand = (\<lambda>salt ikm info n. Some (take n (ikm @ replicate n 0))),
      aes_gcm_seal = (\<lambda>k n aad m. Some (m @ take 16 k)),
      aes_gcm_open = (\<lambda>k n aad c. if drop (length c - 16) c = take 16 k then Some (take (length c - 16) c) else None),
      hex_encode = (\<lambda>bs. concat (map fmt_02x bs))\<rparr>"

lemma map2_plus_commute: "map2 (+) a b = map2 (+) b (a :: bytes)"
  by (induction a b rule: list_induct2') (auto simp: add.commute)

lemma sample_crypto_laws: "crypto_laws sample_crypto"
  by (auto simp: crypto_laws_def sample_crypto_def pad32_def map2_plus_commute)

definition sample_auth :: reality_client_auth where
  "sample_auth = \<lparr>rca_server_public_key = replicate 32 0x01, rca_short_id = replicate 8 0xAA\<rparr>"

definition sample_shares :: "(u16 \<times> bytes) list" where
  "sample_shares = [(0x001d, replicate 32 0x07)]"

definition sample_exts :: "(u16 \<times> bytes) list" where
  "sample_exts = [sni_extension [0x61], key_share_extension sample_shares]"

definition sample_sid :: bytes where
  "sample_sid = [0x01, 0x08, 0x00, 0x00, 0x00, 0x00, 0x00, 0x00] @ replicate 8 0xAA @ replicate 16 0x08"

lemma replicate_unfold:
  "replicate 8 x = [x, x, x, x, x, x, x, x]"
  "replicate 16 x = [x, x, x, x, x, x, x, x, x, x, x, x, x, x, x, x]"
  "replicate 32 x = [x, x, x, x, x, x, x, x, x, x, x, x, x, x, x, x, x, x, x, x, x, x, x, x, x, x, x, x, x, x, x, x]"
  by (simp_all add: numeral_eq_Suc)

lemma sample_sid_first:
  "sid_first sample_crypto (hello_message [0, 0, 0] (replicate 32 0x11) [0x13, 0x01] [0x00] sample_exts sample_sid) sample_sid"
proof -
  have "str_find (hex_encode sample_crypto (hello_message [0, 0, 0] (replicate 32 0x11) [0x13, 0x01] [0x00] sample_exts sample_sid))
      (hex_encode sample_crypto sample_sid) = Some 78"
    by (simp add: sample_crypto_def hello_message_split sample_sid_def fmt_02x_def hex_digit_def replicate_unfold)
  then show ?thesis by (simp add: sid_first_def str_find_Some)
qed

lemma sample_hello_parses:
  "parse_client_hello ([0x16, 0x03, 0x01] @ vec16 (hello_message [0, 0, 0] (replicate 32 0x11) [0x13, 0x01] [0x00] sample_exts sample_sid)) =
     Ok (Some \<lparr>ch_session_id = sample_sid, ch_client_random = replicate 32 0x11, ch_public_key = Some (replicate 32 0x07),
       ch_server_name = Some [0x61]\<rparr>)"
proof -
  have "carries [0x61] sample_shares sample_exts"
    by (simp add: carries_def fits_def sample_exts_def sample_shares_def sni_extension_def key_share_extension_def utf8_valid.simps)
  then show ?thesis
    using parse_client_hello_encoded [of "replicate 32 0x11" "[0, 0, 0]" sample_sid "[0x13, 0x01]" "[0x00]" sample_exts "[0x61]" sample_shares "[]"]
    by (simp add: client_hello_record_def hello_message_def sample_sid_def x25519_share_def sample_shares_def sample_exts_def
        client_hello_body_def sni_extension_def key_share_extension_def)
qed

lemma sample_hello_verifies:
  "replicate 8 0xAA \<in> set short_ids \<Longrightarrow>
     verify_client_reality sample_crypto
       \<lparr>ch_session_id = sample_sid, ch_client_random = replicate 32 0x11, ch_public_key = Some (replicate 32 0x07), ch_server_name = sn\<rparr>
       ([0x16, 0x03, 0x01] @ vec16 (hello_message [0, 0, 0] (replicate 32 0x11) [0x13, 0x01] [0x00] sample_exts sample_sid))
       (replicate 32 0x01) short_ids = Ok (Some (replicate 32 0x08))"
  by (rule verify_sealed_hello [OF sample_crypto_laws _ _ _ sample_sid_first, where
        buf = "[0x01, 0x08, 0x00, 0x00, 0x00, 0x00, 0x00, 0x00] @ replicate 8 0xAA"])
    (simp_all add: sample_sid_def sample_crypto_def pad32_def)

theorem reality_client_recognised_witness:
  "let hello = client_hello_record [0, 0, 0] (client_hello_body (replicate 32 0x11) sample_sid [0x13, 0x01] [0x00] sample_exts) in
   \<exists>info. parse_client_hello hello = Ok (Some info) \<and> ch_server_name info = Some [0x61] \<and>
     verify_client_reality sample_crypto info hello (replicate 32 0x01) [[0x01], replicate 8 0xAA] =
       (Ok (Some (replicate 32 0x08)) :: (bytes option, unit) outcome)"
proof -
  let ?msg = "hello_message [0, 0, 0] (replicate 32 0x11) [0x13, 0x01] [0x00] sample_exts"
  have key: "derive_auth_key sample_crypto sample_auth (replicate 32 0x07) (replicate 32 0x11) =
      (Ok (replicate 32 0x08) :: (bytes, rstring) outcome)"
    by (simp add: derive_auth_key_def sample_crypto_def sample_auth_def pad32_def slice_def)
  have sealed: "encrypt_session_id sample_crypto 0 sample_auth (replicate 32 0x08) (replicate 32 0x11) (?msg (replicate 32 0)) = Ok sample_sid"
    by (simp add: encrypt_session_id_def hello_offset zeroed_hello slice_def sample_auth_def sample_crypto_def
        reality_plaintext_def u32_to_be_def sample_sid_def)
  have "carries [0x61] sample_shares sample_exts"
    by (simp add: carries_def fits_def sample_exts_def sample_shares_def sni_extension_def key_share_extension_def utf8_valid.simps)
  then obtain k sid where ks: "derive_auth_key sample_crypto sample_auth (replicate 32 0x07) (replicate 32 0x11) = (Ok k :: (bytes, rstring) outcome)"
      "encrypt_session_id sample_crypto 0 sample_auth k (replicate 32 0x11) (?msg (replicate 32 0)) = Ok sid"
      and accepted: "sid_first sample_crypto (?msg sid) sid \<longrightarrow>
        (let hello = client_hello_record [0, 0, 0] (client_hello_body (replicate 32 0x11) sid [0x13, 0x01] [0x00] sample_exts) in
         \<exists>info. parse_client_hello hello = Ok (Some info) \<and> ch_server_name info = Some [0x61] \<and>
           verify_client_reality sample_crypto info hello (replicate 32 0x01) [[0x01], replicate 8 0xAA] = (Ok (Some k) :: (bytes option, unit) outcome))"
    using reality_client_recognised [OF sample_crypto_laws, of sample_auth "replicate 32 0x01" "[[0x01], replicate 8 0xAA]"
        "replicate 32 0x11" "[0, 0, 0]" "[0x13, 0x01]" "[0x00]" sample_exts "[0x61]" sample_shares "replicate 32 0x07" "replicate 32 0x33" 0]
    by (auto simp: sample_auth_def sample_crypto_def pad32_def sample_exts_def sample_shares_def x25519_share_def
        hello_message_def client_hello_body_def sni_extension_def key_share_extension_def)
  from ks key sealed have "k = replicate 32 0x08" "sid = sample_sid" by auto
  with accepted sample_sid_first show ?thesis by simp
qed

text \<open>How a result may depend on the list of short identifiers: only through a match against an opened identifier.\<close>

definition decided_by_match :: "(bytes list \<Rightarrow> (bytes option, 'e) outcome) \<Rightarrow> bool" where
  "decided_by_match v \<longleftrightarrow>
     (\<exists>r. (\<forall>k. r \<noteq> Ok (Some k)) \<and> (\<forall>ids. v ids = r)) \<or>
     (\<exists>k buf. 16 \<le> length buf \<and> (\<forall>ids. v ids = ebind (match_short_id buf ids) (\<lambda>found. Ok (if found then Some k else None))))"

lemma decided_None: "decided_by_match (\<lambda>ids. Ok None)"
  by (simp add: decided_by_match_def)

lemma decided_match: "16 \<le> length buf \<Longrightarrow>
    decided_by_match (\<lambda>ids. ebind (match_short_id buf ids) (\<lambda>found. Ok (if found then Some k else None)))"
  unfolding decided_by_match_def by blast

lemma decided_bind: "(\<And>x. decided_by_match (f x)) \<Longrightarrow> decided_by_match (\<lambda>ids. ebind m (\<lambda>x. f x ids))"
  by (cases m) (simp_all add: decided_by_match_def)

lemma decided_if: "(b \<Longrightarrow> decided_by_match f) \<Longrightarrow> (\<not> b \<Longrightarrow> decided_by_match g) \<Longrightarrow> decided_by_match (\<lambda>ids. if b then f ids else g ids)"
  by (cases b) simp_all

lemma decided_option: "decided_by_match f \<Longrightarrow> (\<And>x. decided_by_match (g x)) \<Longrightarrow>
    decided_by_match (\<lambda>ids. case x of None \<Rightarrow> f ids | Some y \<Rightarrow> g y ids)"
  by (cases x) simp_all

lemma verify_decided: "decided_by_match (\<lambda>ids. verify_client_reality cr info full_hello private_key ids)"
  unfolding verify_client_reality_def Let_def
  by (intro decided_None decided_if decided_option decided_bind decided_match) simp

text \<open>A short identifier that has not exactly eight bytes never authenticates a client, although the
  configuration and the client accept one to eight: whatever the hello and the libraries, a
  verified client used one of the eight-byte identifiers of the list.\<close>
lemma short_ids_need_eight_bytes:
  "verify_client_reality cr info full_hello private_key short_ids = (Ok (Some k) :: (bytes option, 'e) outcome) \<Longrightarrow>
     \<exists>sid \<in> set short_ids. length sid = 8 \<and>
       verify_client_reality cr info full_hello private_key [sid] = (Ok (Some k) :: (bytes option, 'e) outcome)"
proof -
  let ?v = "\<lambda>ids. verify_client_reality cr info full_hello private_key ids :: (bytes option, 'e) outcome"
  assume verified: "?v short_ids = Ok (Some k)"
  then have "\<not> (\<exists>r. (\<forall>k. r \<noteq> Ok (Some k)) \<and> (\<forall>ids. ?v ids = r))"
    by (auto dest: spec [of _ short_ids])
  with verify_decided [of cr info full_hello private_key] obtain k' buf where buf: "16 \<le> length buf"
      and all: "\<And>ids. ?v ids =
        ebind (match_short_id buf ids) (\<lambda>found. Ok (if found then Some k' else None))"
    unfolding decided_by_match_def by blast
  from verified obtain sid where "sid \<in> set short_ids" "sid = take 8 (drop 4 buf) \<or> sid = take 8 (drop 8 buf)" "k' = k"
    unfolding all match_short_id_conv [OF buf] by (auto split: if_splits)
  moreover from this buf have "length sid = 8" by auto
  ultimately show ?thesis
    unfolding all match_short_id_conv [OF buf] by (intro bexI [of _ sid]) auto
qed

end
