(* ===== verification/Reality_Cert.thy ===== *)
theory Reality_Cert
  imports Reality_Auth Endpoint
begin

text \<open>
  The certificate a REALITY server makes for a verified client
  (\<open>crates/skadi-transport/src/reality/cert.rs\<close>) and the check the client makes of it
  (\<open>third_party/rustls-reality\<close>, \<open>reality/verifier.rs\<close>). Key pairs, the encoding of certificates,
  distinguished names, the reading of X.509 and HMAC are third-party code: the record \<open>cert_lib\<close>
  holds them. The random bytes and the clock are arguments.
\<close>

section \<open>Certificates\<close>

datatype dn_type = CommonName | CountryName | LocalityName | StateOrProvinceName | OrganizationName | OrganizationalUnitName

datatype san_type = SanDns rstring | SanIp ip_addr

datatype key_usage = DigitalSignature | KeyEncipherment

datatype extended_key_usage = ServerAuth

text \<open>The fields of \<open>CertificateParams\<close> the code sets; the others keep the library's defaults. Times are in seconds.\<close>

record 'd cert_params =
  cp_serial :: bytes
  cp_not_before :: int
  cp_not_after :: int
  cp_dn :: 'd
  cp_sans :: "san_type list"
  cp_key_usages :: "key_usage list"
  cp_ext_key_usages :: "extended_key_usage list"

text \<open>A parsed certificate: attribute values are absent when they are not text.\<close>

type_synonym oid = "nat list"

datatype general_name = DNSName rstring | IPAddress bytes | OtherName

datatype x509_extension =
    SubjectAlternativeName "general_name list"
  | KeyUsage bool bool
  | ExtendedKeyUsage bool
  | OtherExtension

record x509_certificate =
  xc_serial :: bytes
  xc_not_before :: int
  xc_not_after :: int
  xc_subject :: "(oid \<times> rstring option) list list"
  xc_extensions :: "x509_extension list"

record ('d, 'k) cert_lib =
  cl_generate_key :: "('k, rstring) outcome"
  cl_public_raw :: "'k \<Rightarrow> bytes"
  cl_private_der :: "'k \<Rightarrow> bytes"
  cl_names :: "rstring list \<Rightarrow> (san_type list, rstring) outcome"
  cl_dn_new :: 'd
  cl_dn_push :: "'d \<Rightarrow> dn_type \<Rightarrow> rstring \<Rightarrow> 'd"
  cl_dn_get :: "'d \<Rightarrow> dn_type \<Rightarrow> rstring option"
  cl_dns_name :: "rstring \<Rightarrow> bool"
  cl_self_signed :: "'d cert_params \<Rightarrow> 'k \<Rightarrow> (bytes, rstring) outcome"
  cl_from_der :: "bytes \<Rightarrow> x509_certificate option"
  cl_hmac_sha512 :: "bytes \<Rightarrow> bytes \<Rightarrow> bytes"
  cl_spki :: "bytes \<Rightarrow> bytes option"

section \<open>The parameters of a certificate\<close>

definition SECONDS_PER_DAY :: int where
  "SECONDS_PER_DAY = 86400"

text \<open>\<open>serial_bytes\<close> and \<open>jitter\<close> are the random bytes, sixteen and two.\<close>

definition build_fallback_params ::
  "('d, 'k) cert_lib \<Rightarrow> bytes \<Rightarrow> u8 \<times> u8 \<Rightarrow> int \<Rightarrow> rstring \<Rightarrow> ('d cert_params, rstring) outcome" where
  "build_fallback_params lib serial_bytes jitter now server_name =
     (let serial_bytes = serial_bytes[0 := (serial_bytes ! 0) OR 0x01];
          days_ago = 30 + int (unat (fst jitter) mod 60);
          days_valid = 365 + int (unat (snd jitter) mod 365);
          not_before = now - days_ago * SECONDS_PER_DAY;
          not_after = not_before + days_valid * SECONDS_PER_DAY in
      ebind (cl_names lib [server_name]) (\<lambda>sans.
      Ok \<lparr>cp_serial = serial_bytes, cp_not_before = not_before, cp_not_after = not_after,
          cp_dn = cl_dn_push lib (cl_dn_new lib) CommonName server_name, cp_sans = sans,
          cp_key_usages = [DigitalSignature], cp_ext_key_usages = [ServerAuth]\<rparr>))"

definition map_dn_type :: "oid \<Rightarrow> dn_type option" where
  "map_dn_type oid =
     (if oid = [2, 5, 4, 3] then Some CommonName
      else if oid = [2, 5, 4, 6] then Some CountryName
      else if oid = [2, 5, 4, 7] then Some LocalityName
      else if oid = [2, 5, 4, 8] then Some StateOrProvinceName
      else if oid = [2, 5, 4, 10] then Some OrganizationName
      else if oid = [2, 5, 4, 11] then Some OrganizationalUnitName
      else None)"

fun push_attributes :: "('d, 'k) cert_lib \<Rightarrow> (oid \<times> rstring option) list \<Rightarrow> 'd \<Rightarrow> ('d, rstring) outcome" where
  "push_attributes lib [] dn = Ok dn"
| "push_attributes lib ((oid, value) # attrs) dn =
     (case value of
        None \<Rightarrow> Err (lit ''invalid subject attribute encoding'')
      | Some value \<Rightarrow>
          push_attributes lib attrs
            (case map_dn_type oid of Some dn_type \<Rightarrow> cl_dn_push lib dn dn_type value | None \<Rightarrow> dn))"

definition parse_distinguished_name ::
  "('d, 'k) cert_lib \<Rightarrow> (oid \<times> rstring option) list list \<Rightarrow> ('d, rstring) outcome" where
  "parse_distinguished_name lib subject = push_attributes lib (concat subject) (cl_dn_new lib)"

definition san_of_ip :: "bytes \<Rightarrow> san_type list" where
  "san_of_ip ip =
     (if length ip = 4 then [SanIp (V4 (Ipv4 (ip ! 0) (ip ! 1) (ip ! 2) (ip ! 3)))]
      else if length ip = 16 then [SanIp (V6 (ipv6_from_octets ip))]
      else [])"

fun parse_general_names :: "('d, 'k) cert_lib \<Rightarrow> general_name list \<Rightarrow> (san_type list, rstring) outcome" where
  "parse_general_names lib [] = Ok []"
| "parse_general_names lib (DNSName dns # names) =
     (if cl_dns_name lib dns then ebind (parse_general_names lib names) (\<lambda>sans. Ok (SanDns dns # sans))
      else Err (lit ''invalid DNS SAN''))"
| "parse_general_names lib (IPAddress ip # names) =
     ebind (parse_general_names lib names) (\<lambda>sans. Ok (san_of_ip ip @ sans))"
| "parse_general_names lib (OtherName # names) = parse_general_names lib names"

fun parse_subject_alt_names :: "('d, 'k) cert_lib \<Rightarrow> x509_extension list \<Rightarrow> (san_type list, rstring) outcome" where
  "parse_subject_alt_names lib [] = Ok []"
| "parse_subject_alt_names lib (SubjectAlternativeName names # exts) =
     ebind (parse_general_names lib names) (\<lambda>sans.
     ebind (parse_subject_alt_names lib exts) (\<lambda>rest. Ok (sans @ rest)))"
| "parse_subject_alt_names lib (_ # exts) = parse_subject_alt_names lib exts"

text \<open>\<open>apply_key_usages\<close>: the usages of the template, or one of each kind when it has none.\<close>

definition usages_of :: "x509_extension \<Rightarrow> key_usage list" where
  "usages_of ext =
     (case ext of
        KeyUsage digital_signature key_encipherment \<Rightarrow>
          (if digital_signature then [DigitalSignature] else []) @ (if key_encipherment then [KeyEncipherment] else [])
      | _ \<Rightarrow> [])"

definition ext_usages_of :: "x509_extension \<Rightarrow> extended_key_usage list" where
  "ext_usages_of ext = (case ext of ExtendedKeyUsage server_auth \<Rightarrow> if server_auth then [ServerAuth] else [] | _ \<Rightarrow> [])"

definition apply_key_usages :: "x509_extension list \<Rightarrow> 'd cert_params \<Rightarrow> 'd cert_params" where
  "apply_key_usages exts params =
     (let usages = concat (map usages_of exts); ext_usages = concat (map ext_usages_of exts) in
      params\<lparr>cp_key_usages := (if usages = [] then [DigitalSignature] else usages),
             cp_ext_key_usages := (if ext_usages = [] then [ServerAuth] else ext_usages)\<rparr>)"

definition build_impersonate_params ::
  "('d, 'k) cert_lib \<Rightarrow> bytes \<Rightarrow> rstring \<Rightarrow> ('d cert_params, rstring) outcome" where
  "build_impersonate_params lib der server_name =
     (case cl_from_der lib der of
        None \<Rightarrow> Err (lit ''parse impersonate cert DER'')
      | Some cert \<Rightarrow>
          ebind (parse_distinguished_name lib (xc_subject cert)) (\<lambda>dn.
          let dn = (if cl_dn_get lib dn CommonName = None then cl_dn_push lib dn CommonName server_name else dn) in
          ebind (parse_subject_alt_names lib (xc_extensions cert)) (\<lambda>sans.
          ebind (if sans \<noteq> [] then Ok sans
                 else if cl_dns_name lib server_name then Ok [SanDns server_name]
                 else Err (lit ''invalid DNS name in SNI'')) (\<lambda>sans.
          Ok (apply_key_usages (xc_extensions cert)
                \<lparr>cp_serial = xc_serial cert, cp_not_before = xc_not_before cert, cp_not_after = xc_not_after cert,
                 cp_dn = dn, cp_sans = sans, cp_key_usages = [], cp_ext_key_usages = []\<rparr>)))))"

section \<open>Signing\<close>

text \<open>\<open>copy_from_slice\<close> panics when the lengths differ.\<close>

definition patch_reality_signature ::
  "('d, 'k) cert_lib \<Rightarrow> bytes \<Rightarrow> bytes \<Rightarrow> bytes \<Rightarrow> (bytes, rstring) outcome" where
  "patch_reality_signature lib cert_der auth_key pub_key_raw =
     (if length cert_der < 64 then Err (lit ''generated certificate DER is too short'')
      else
        let sig_pos = length cert_der - 64; signature = cl_hmac_sha512 lib auth_key pub_key_raw in
        if length signature \<noteq> 64 then Panic else Ok (take sig_pos cert_der @ signature))"

definition generate_reality_cert ::
  "('d, 'k) cert_lib \<Rightarrow> bytes \<Rightarrow> u8 \<times> u8 \<Rightarrow> int \<Rightarrow> bytes \<Rightarrow> rstring \<Rightarrow> bytes option \<Rightarrow> (bytes \<times> bytes, rstring) outcome" where
  "generate_reality_cert lib serial_bytes jitter now auth_key server_name impersonate_der =
     ebind (cl_generate_key lib) (\<lambda>key_pair.
     ebind (case impersonate_der of
              Some der \<Rightarrow> build_impersonate_params lib der server_name
            | None \<Rightarrow> build_fallback_params lib serial_bytes jitter now server_name) (\<lambda>params.
     ebind (cl_self_signed lib params key_pair) (\<lambda>cert_der.
     ebind (patch_reality_signature lib cert_der auth_key (cl_public_raw lib key_pair)) (\<lambda>cert_der.
     Ok (cert_der, cl_private_der lib key_pair)))))"

section \<open>The client's check\<close>

datatype cert_error = BadEncoding | BadSignature | General rstring

definition AUTH_HMAC_TAIL_LEN :: nat where "AUTH_HMAC_TAIL_LEN = 64"

definition ED25519_OID :: bytes where "ED25519_OID = [0x06, 0x03, 0x2b, 0x65, 0x70]"

text \<open>\<open>bytes.windows(n).any(|w| w == p)\<close> is a substring search.\<close>

definition ed25519_public_key_raw :: "('d, 'k) cert_lib \<Rightarrow> bytes \<Rightarrow> (bytes, cert_error) outcome" where
  "ed25519_public_key_raw lib cert_der =
     (case cl_spki lib cert_der of
        None \<Rightarrow> Err BadEncoding
      | Some spki \<Rightarrow>
          if \<not> contains spki ED25519_OID then Err (General (lit ''REALITY leaf certificate must use Ed25519''))
          else if length spki < 32 then Err BadEncoding
          else Ok (drop (length spki - 32) spki))"

definition verify_server_cert_hmac :: "('d, 'k) cert_lib \<Rightarrow> bytes \<Rightarrow> bytes \<Rightarrow> (unit, cert_error) outcome" where
  "verify_server_cert_hmac lib auth_key cert_der =
     (if length cert_der < AUTH_HMAC_TAIL_LEN + 1 then Err BadEncoding
      else
        let expected = drop (length cert_der - AUTH_HMAC_TAIL_LEN) cert_der in
        ebind (ed25519_public_key_raw lib cert_der) (\<lambda>pub_key.
        let computed = cl_hmac_sha512 lib auth_key pub_key in
        if length computed \<noteq> AUTH_HMAC_TAIL_LEN then Err (General (lit ''internal error: REALITY HMAC length mismatch''))
        else if expected = computed then Ok () else Err BadSignature))"

definition verify_server_cert :: "('d, 'k) cert_lib \<Rightarrow> bytes \<Rightarrow> bytes \<Rightarrow> bytes list \<Rightarrow> (unit, cert_error) outcome" where
  "verify_server_cert lib auth_key end_entity intermediates =
     (if intermediates \<noteq> [] then Err (General (lit ''REALITY rejects TLS certificate chains with intermediates''))
      else verify_server_cert_hmac lib auth_key end_entity)"

section \<open>Laws of the libraries\<close>

text \<open>
  An HMAC-SHA512 tag has 64 bytes. A certificate of an Ed25519 key ends with its 64-byte signature,
  and its public key information, which stands before the signature, names the algorithm and ends
  with the raw key.
\<close>

definition cert_laws :: "('d, 'k) cert_lib \<Rightarrow> bool" where
  "cert_laws lib \<longleftrightarrow>
     (\<forall>k m. length (cl_hmac_sha512 lib k m) = 64) \<and>
     (\<forall>params key der signature. cl_self_signed lib params key = Ok der \<longrightarrow> length signature = 64 \<longrightarrow>
        64 < length der \<and>
        (\<exists>spki. cl_spki lib (take (length der - 64) der @ signature) = Some spki \<and> contains spki ED25519_OID \<and>
           32 \<le> length spki \<and> drop (length spki - 32) spki = cl_public_raw lib key))"

lemma generate_cases:
  assumes "generate_reality_cert lib serial jitter now auth_key server_name impersonate = Ok (cert, priv)"
  obtains key params der where "cl_generate_key lib = Ok key" and "cl_self_signed lib params key = Ok der"
    and "patch_reality_signature lib der auth_key (cl_public_raw lib key) = Ok cert" and "priv = cl_private_der lib key"
  using assms by (auto simp: generate_reality_cert_def ebind_eq_Ok_conv)

lemma patched_certificate:
  assumes "cert_laws lib" and "cl_self_signed lib params key = Ok der"
    and "patch_reality_signature lib der k (cl_public_raw lib key) = Ok cert"
  shows "verify_server_cert_hmac lib k' cert =
     (if cl_hmac_sha512 lib k' (cl_public_raw lib key) = cl_hmac_sha512 lib k (cl_public_raw lib key) then Ok () else Err BadSignature)"
proof -
  let ?sig = "cl_hmac_sha512 lib k (cl_public_raw lib key)"
  have sig: "length ?sig = 64" using assms(1) by (simp add: cert_laws_def)
  with assms(1,2) obtain spki where long: "64 < length der"
      and spki: "cl_spki lib (take (length der - 64) der @ ?sig) = Some spki" "contains spki ED25519_OID" "32 \<le> length spki"
        "drop (length spki - 32) spki = cl_public_raw lib key"
    unfolding cert_laws_def by blast
  have cert: "cert = take (length der - 64) der @ ?sig"
    using assms(3) by (simp add: patch_reality_signature_def Let_def split: if_splits)
  have "ed25519_public_key_raw lib cert = Ok (cl_public_raw lib key)"
    using spki by (simp add: ed25519_public_key_raw_def cert)
  moreover have "drop (length cert - AUTH_HMAC_TAIL_LEN) cert = ?sig" "\<not> length cert < AUTH_HMAC_TAIL_LEN + 1"
    using long sig by (simp_all add: cert AUTH_HMAC_TAIL_LEN_def)
  moreover have "length (cl_hmac_sha512 lib k' (cl_public_raw lib key)) = AUTH_HMAC_TAIL_LEN"
    using assms(1) by (simp add: cert_laws_def AUTH_HMAC_TAIL_LEN_def)
  ultimately show ?thesis by (auto simp: verify_server_cert_hmac_def Let_def)
qed

lemma generated_certificate_verifies:
  "cert_laws lib \<Longrightarrow> generate_reality_cert lib serial jitter now k server_name impersonate = Ok (cert, priv) \<Longrightarrow>
     verify_server_cert lib k cert [] = Ok ()"
  by (erule generate_cases) (simp add: verify_server_cert_def patched_certificate)

lemma apply_key_usages_simps [simp]:
  "cp_serial (apply_key_usages exts p) = cp_serial p" "cp_not_before (apply_key_usages exts p) = cp_not_before p"
  "cp_not_after (apply_key_usages exts p) = cp_not_after p" "cp_sans (apply_key_usages exts p) = cp_sans p"
  "cp_key_usages (apply_key_usages exts p) \<noteq> []" "cp_ext_key_usages (apply_key_usages exts p) \<noteq> []"
  by (simp_all add: apply_key_usages_def Let_def)

lemma impersonation_copies_template:
  assumes "build_impersonate_params lib der server_name = Ok params"
  shows "\<exists>cert. cl_from_der lib der = Some cert \<and> cp_serial params = xc_serial cert \<and>
    cp_not_before params = xc_not_before cert \<and> cp_not_after params = xc_not_after cert \<and>
    cp_sans params \<noteq> [] \<and> cp_key_usages params \<noteq> [] \<and> cp_ext_key_usages params \<noteq> []"
proof -
  from assms obtain cert where cert: "cl_from_der lib der = Some cert"
    by (cases "cl_from_der lib der") (simp_all add: build_impersonate_params_def)
  with assms obtain dn sans where "sans \<noteq> []"
      and "params = apply_key_usages (xc_extensions cert)
        \<lparr>cp_serial = xc_serial cert, cp_not_before = xc_not_before cert, cp_not_after = xc_not_after cert,
         cp_dn = dn, cp_sans = sans, cp_key_usages = [], cp_ext_key_usages = []\<rparr>"
    unfolding build_impersonate_params_def Let_def by (simp add: ebind_eq_Ok_conv) (metis list.distinct(1) outcome.distinct(1) outcome.inject(1))
  with cert show ?thesis by simp
qed

section \<open>Properties\<close>

text \<open>C21: the certificate a server makes is the one its client expects. Whatever the template, the name and
  the random bytes, the client that holds the session key accepts the certificate on its own and
  refuses it with any other certificate behind it, and a client with another key accepts it only
  when the two keys give the same HMAC tag of the certificate's public key.\<close>
theorem reality_certificate_accepted:
  assumes "cert_laws lib" and "generate_reality_cert lib serial jitter now auth_key server_name impersonate = Ok (cert, priv)"
  shows "\<exists>pub. verify_server_cert lib auth_key cert [] = Ok () \<and>
    (\<forall>c chain. verify_server_cert lib auth_key cert (c # chain) \<noteq> Ok ()) \<and>
    (\<forall>k. verify_server_cert lib k cert [] = Ok () \<longleftrightarrow> cl_hmac_sha512 lib k pub = cl_hmac_sha512 lib auth_key pub)"
proof -
  from assms(2) obtain key params der where "cl_self_signed lib params key = Ok der"
      "patch_reality_signature lib der auth_key (cl_public_raw lib key) = Ok cert"
    by (rule generate_cases)
  from patched_certificate [OF assms(1) this] show ?thesis
    by (auto simp: verify_server_cert_def intro!: exI [of _ "cl_public_raw lib key"])
qed

definition sample_spki :: bytes where
  "sample_spki = ED25519_OID @ replicate 32 0x05"

definition sample_cert_lib :: "(unit, unit) cert_lib" where
  "sample_cert_lib =
     \<lparr>cl_generate_key = Ok (), cl_public_raw = (\<lambda>_. replicate 32 0x05), cl_private_der = (\<lambda>_. []),
      cl_names = (\<lambda>names. Ok (map SanDns names)), cl_dn_new = (), cl_dn_push = (\<lambda>_ _ _. ()), cl_dn_get = (\<lambda>_ _. None),
      cl_dns_name = (\<lambda>_. True), cl_self_signed = (\<lambda>_ _. Ok (sample_spki @ replicate 64 0)), cl_from_der = (\<lambda>_. None),
      cl_hmac_sha512 = (\<lambda>k m. replicate 64 (sum_list k + sum_list m)), cl_spki = (\<lambda>cert. Some (take (length cert - 64) cert))\<rparr>"

lemma sample_cert_laws: "cert_laws sample_cert_lib"
  by (auto simp: cert_laws_def sample_cert_lib_def sample_spki_def ED25519_OID_def)

lemma sample_certificate: "\<exists>cert. generate_reality_cert sample_cert_lib serial jitter now k name None = Ok (cert, [])"
  by (simp add: generate_reality_cert_def build_fallback_params_def sample_cert_lib_def patch_reality_signature_def sample_spki_def
      ED25519_OID_def Let_def)

theorem reality_certificate_accepted_witness:
  "\<exists>cert. generate_reality_cert sample_cert_lib (replicate 16 0) (0, 0) 0 (replicate 32 0x09) [0x61] None = Ok (cert, []) \<and>
     verify_server_cert sample_cert_lib (replicate 32 0x09) cert [] = Ok ()"
  using sample_certificate reality_certificate_accepted [OF sample_cert_laws] by blast

text \<open>A certificate made without a template is valid at the moment it is made, whatever the random bytes:
  it began 30 to 89 days ago and has at least 276 days left, and its serial number is not zero.\<close>
lemma fallback_certificate_is_valid:
  assumes "build_fallback_params lib serial jitter now server_name = Ok params" and "length serial = 16"
  shows "cp_not_before params \<le> now - 30 * SECONDS_PER_DAY \<and> now - 89 * SECONDS_PER_DAY \<le> cp_not_before params \<and>
    now + 276 * SECONDS_PER_DAY \<le> cp_not_after params \<and> length (cp_serial params) = 16 \<and> (\<exists>b \<in> set (cp_serial params). b \<noteq> 0)"
proof -
  have "unat (fst jitter) mod 60 \<le> 59" by simp
  moreover have "cp_not_before params = now - (30 + int (unat (fst jitter) mod 60)) * 86400"
      "cp_not_after params = cp_not_before params + (365 + int (unat (snd jitter) mod 365)) * 86400"
      "cp_serial params = serial[0 := (serial ! 0) OR 0x01]"
    using assms(1) by (auto simp: build_fallback_params_def Let_def ebind_eq_Ok_conv SECONDS_PER_DAY_def)
  moreover have "(serial ! 0) OR 0x01 \<in> set (serial[0 := (serial ! 0) OR 0x01])" "(serial ! 0) OR 0x01 \<noteq> 0"
    using assms(2) by (auto intro!: set_update_memI simp: or_eq_0_iff)
  ultimately show ?thesis using assms(2) by (auto simp: SECONDS_PER_DAY_def)
qed

end
