(* ===== verification/Sidecar.thy ===== *)
theory Sidecar
  imports Net_Text
begin

text \<open>
  The backends that run as separate programs: AmneziaWG (\<open>crates/skadi-transport/src/awg\<close>),
  Hysteria 2 (\<open>hysteria2\<close>) and TUIC (\<open>tuic\<close>). What the code does for them is to write their
  configuration files and, for AmneziaWG, to set up address translation. The WireGuard key and
  interface types of the \<open>wireguard-conf\<close> and \<open>ipnet\<close> crates are parameters.
\<close>

abbreviation newline :: rstring where "newline \<equiv> [0x0A]"
abbreviation quote :: rstring where "quote \<equiv> [0x22]"

definition text_lines :: "rstring list \<Rightarrow> rstring" where
  "text_lines ls = concat (map (\<lambda>l. l @ newline) ls)"

section \<open>AmneziaWG\<close>

record awg_obfuscation =
  ao_jc :: u8
  ao_jmin :: u16
  ao_jmax :: u16
  ao_s1 :: u8
  ao_s2 :: u8
  ao_s3 :: u8
  ao_s4 :: u8
  ao_h1 :: rstring
  ao_h2 :: rstring
  ao_h3 :: rstring
  ao_h4 :: rstring

record awg_peer =
  ap_public_key :: rstring
  ap_allowed_ips :: "rstring list"
  ap_preshared_key :: "rstring option"
  ap_endpoint :: "rstring option"
  ap_keepalive :: "u16 option"

record awg_server =
  as_listen :: socket_addr
  as_interface :: rstring
  as_private_key :: rstring
  as_address :: rstring
  as_mtu :: "u16 option"
  as_obfuscation :: awg_obfuscation
  as_peers :: "awg_peer list"

record awg_client_export =
  ax_private_key :: rstring
  ax_address :: rstring
  ax_dns :: "rstring option"
  ax_allowed_ips :: "rstring list"
  ax_keepalive :: "u16 option"

text \<open>The values the builders of \<open>wireguard-conf\<close> are given.\<close>

type_synonym ip_net = "ip_addr \<times> nat"

record amnezia_settings =
  am_jc :: u8
  am_jmin :: u16
  am_jmax :: u16
  am_s :: "u8 list"
  am_h :: "(u32 \<times> u32) list"

record wg_peer =
  wp_public_key :: bytes
  wp_endpoint :: "rstring option"
  wp_allowed_ips :: "ip_net list"
  wp_preshared_key :: "bytes option"
  wp_keepalive :: "u16 option"

record wg_interface =
  wi_private_key :: bytes
  wi_address :: ip_net
  wi_listen_port :: "u16 option"
  wi_settings :: amnezia_settings
  wi_mtu :: "nat option"
  wi_dns :: "rstring list"
  wi_peers :: "wg_peer list"

text \<open>The crates: parsing of keys and networks, the checks of the settings, and the rendering.\<close>

record wg_lib =
  wl_private_key :: "rstring \<Rightarrow> (bytes, rstring) outcome"
  wl_public_key :: "rstring \<Rightarrow> (bytes, rstring) outcome"
  wl_preshared_key :: "rstring \<Rightarrow> (bytes, rstring) outcome"
  wl_public_of :: "bytes \<Rightarrow> rstring"
  wl_ip_net :: "rstring \<Rightarrow> ip_net option"
  wl_build :: "amnezia_settings \<Rightarrow> (unit, rstring) outcome"
  wl_validate :: "amnezia_settings \<Rightarrow> (unit, rstring) outcome"
  wl_render :: "wg_interface \<Rightarrow> rstring"

definition public_key_from_private :: "wg_lib \<Rightarrow> rstring \<Rightarrow> (rstring, rstring) outcome" where
  "public_key_from_private wg private_key =
     ebind (map_err (\<lambda>e. lit ''invalid AWG private_key: '' @ e) (wl_private_key wg private_key)) (\<lambda>k.
     Ok (wl_public_of wg k))"

definition parse_ipnet :: "wg_lib \<Rightarrow> rstring \<Rightarrow> string \<Rightarrow> (ip_net, rstring) outcome" where
  "parse_ipnet wg value field =
     (case wl_ip_net wg value of
        Some n \<Rightarrow> Ok n
      | None \<Rightarrow> Err (lit ''invalid AWG '' @ lit field @ lit '': '' @ value))"

definition parse_h_range :: "rstring \<Rightarrow> string \<Rightarrow> (u32 \<times> u32, rstring) outcome" where
  "parse_h_range value field =
     (let trimmed = trim value in
      if trimmed = [] then Err (lit ''AWG '' @ lit field @ lit '' must not be empty'')
      else
        (case split_once 0x2D trimmed of
           Some (lo, hi) \<Rightarrow>
             (case parse_u32 (trim lo) of
                None \<Rightarrow> Err (lit ''invalid '' @ lit field)
              | Some mn \<Rightarrow>
                  (case parse_u32 (trim hi) of
                     None \<Rightarrow> Err (lit ''invalid '' @ lit field)
                   | Some mx \<Rightarrow>
                       if mn > mx then
                         Err (lit ''AWG '' @ lit field @ lit '': min ('' @ fmt_dec (unat mn) @ lit '') must be <= max ('' @
                              fmt_dec (unat mx) @ lit '')'')
                       else Ok (mn, mx)))
         | None \<Rightarrow>
             (case parse_u32 trimmed of
                None \<Rightarrow> Err (lit ''invalid '' @ lit field)
              | Some single \<Rightarrow> Ok (single, single))))"

fun emap :: "('a \<Rightarrow> ('b, 'e) outcome) \<Rightarrow> 'a list \<Rightarrow> ('b list, 'e) outcome" where
  "emap f [] = Ok []"
| "emap f (x # xs) = ebind (f x) (\<lambda>y. ebind (emap f xs) (\<lambda>ys. Ok (y # ys)))"

definition build_amnezia_settings :: "wg_lib \<Rightarrow> awg_obfuscation \<Rightarrow> (amnezia_settings, rstring) outcome" where
  "build_amnezia_settings wg obf =
     ebind (parse_h_range (ao_h1 obf) ''h1'') (\<lambda>h1.
     ebind (parse_h_range (ao_h2 obf) ''h2'') (\<lambda>h2.
     ebind (parse_h_range (ao_h3 obf) ''h3'') (\<lambda>h3.
     ebind (parse_h_range (ao_h4 obf) ''h4'') (\<lambda>h4.
     let settings = \<lparr>am_jc = ao_jc obf, am_jmin = ao_jmin obf, am_jmax = ao_jmax obf,
           am_s = [ao_s1 obf, ao_s2 obf, ao_s3 obf, ao_s4 obf], am_h = [h1, h2, h3, h4]\<rparr> in
     ebind (map_err (\<lambda>e. lit ''AWG obfuscation build failed: '' @ e) (wl_build wg settings)) (\<lambda>_.
     ebind (map_err (\<lambda>e. lit ''AWG obfuscation validation failed: '' @ e) (wl_validate wg settings)) (\<lambda>_.
     Ok settings))))))"

definition build_peer :: "wg_lib \<Rightarrow> awg_peer \<Rightarrow> (wg_peer, rstring) outcome" where
  "build_peer wg peer =
     ebind (map_err (\<lambda>e. lit ''invalid AWG peer public_key: '' @ e) (wl_public_key wg (ap_public_key peer))) (\<lambda>public_key.
     ebind (emap (\<lambda>ip. parse_ipnet wg ip ''allowed_ips'') (ap_allowed_ips peer)) (\<lambda>allowed_ips.
     ebind (case ap_preshared_key peer of
              None \<Rightarrow> Ok None
            | Some psk \<Rightarrow>
                ebind (map_err (\<lambda>e. lit ''invalid AWG preshared_key: '' @ e) (wl_preshared_key wg psk)) (\<lambda>k. Ok (Some k))) (\<lambda>psk.
     ebind (case ap_endpoint peer of
              None \<Rightarrow> Ok None
            | Some endpoint \<Rightarrow>
                (case parse_socket_addr endpoint of
                   None \<Rightarrow> Err (lit ''invalid peer endpoint: '' @ endpoint)
                 | Some addr \<Rightarrow> Ok (Some (fmt_sock addr)))) (\<lambda>endpoint.
     Ok \<lparr>wp_public_key = public_key, wp_endpoint = endpoint, wp_allowed_ips = allowed_ips,
         wp_preshared_key = psk, wp_keepalive = ap_keepalive peer\<rparr>))))"

definition render_server_conf :: "wg_lib \<Rightarrow> awg_server \<Rightarrow> (rstring, rstring) outcome" where
  "render_server_conf wg config =
     ebind (map_err (\<lambda>e. lit ''invalid AWG private_key: '' @ e) (wl_private_key wg (as_private_key config))) (\<lambda>private_key.
     ebind (parse_ipnet wg (as_address config) ''address'') (\<lambda>address.
     ebind (build_amnezia_settings wg (as_obfuscation config)) (\<lambda>awg.
     ebind (emap (build_peer wg) (as_peers config)) (\<lambda>peers.
     Ok (wl_render wg
       \<lparr>wi_private_key = private_key, wi_address = address, wi_listen_port = Some (sock_port (as_listen config)),
        wi_settings = awg, wi_mtu = map_option unat (as_mtu config), wi_dns = [], wi_peers = peers\<rparr>)))))"

definition render_client_conf ::
  "wg_lib \<Rightarrow> rstring \<Rightarrow> rstring \<Rightarrow> awg_client_export \<Rightarrow> awg_obfuscation \<Rightarrow> u16 option \<Rightarrow> (rstring, rstring) outcome" where
  "render_client_conf wg server_public_key endpoint client obfuscation mtu =
     ebind (map_err (\<lambda>e. lit ''invalid client private_key: '' @ e) (wl_private_key wg (ax_private_key client))) (\<lambda>private_key.
     ebind (parse_ipnet wg (ax_address client) ''client address'') (\<lambda>address.
     ebind (build_amnezia_settings wg obfuscation) (\<lambda>awg.
     ebind (emap (\<lambda>ip. parse_ipnet wg ip ''allowed_ips'') (ax_allowed_ips client)) (\<lambda>allowed_ips.
     if trim endpoint = [] then Err (lit ''AWG endpoint must not be empty'')
     else
       ebind (map_err (\<lambda>e. lit ''invalid server public_key: '' @ e) (wl_public_key wg server_public_key)) (\<lambda>server_key.
       Ok (wl_render wg
         \<lparr>wi_private_key = private_key, wi_address = address, wi_listen_port = None, wi_settings = awg,
          wi_mtu = map_option unat mtu,
          wi_dns = (case ax_dns client of
              Some dns \<Rightarrow> if trim dns = [] then [] else [trim dns]
            | None \<Rightarrow> []),
          wi_peers = [\<lparr>wp_public_key = server_key, wp_endpoint = Some (trim endpoint), wp_allowed_ips = allowed_ips,
              wp_preshared_key = None, wp_keepalive = ax_keepalive client\<rparr>]\<rparr>))))))"

text \<open>\<open>str::lines\<close>: without the line ends, a carriage return before the newline included.\<close>

definition strip_cr :: "rstring \<Rightarrow> rstring" where
  "strip_cr l = (if l \<noteq> [] \<and> last l = 0x0D then butlast l else l)"

definition str_lines :: "rstring \<Rightarrow> rstring list" where
  "str_lines s =
     (let parts = split_on 0x0A s in
      map strip_cr (butlast parts) @ (if last parts = [] then [] else [last parts]))"

definition WGQUICK_KEYS :: "rstring list" where
  "WGQUICK_KEYS = [lit ''address'', lit ''mtu'', lit ''dns'', lit ''table'', lit ''preup'', lit ''postup'',
     lit ''predown'', lit ''postdown'', lit ''saveconfig'']"

definition setconf_line :: "rstring \<Rightarrow> bool" where
  "setconf_line line =
     (let trimmed = trim line in
      if trimmed = [] \<or> starts_with trimmed (lit ''#'') then True
      else
        (let key = (case split_once 0x3D trimmed of Some (k, _) \<Rightarrow> trim k | None \<Rightarrow> []) in
         \<not> list_ex (\<lambda>k. to_ascii_lowercase key = k) WGQUICK_KEYS))"

definition strip_wgquick_fields :: "rstring \<Rightarrow> rstring" where
  "strip_wgquick_fields conf = join newline (filter setconf_line (str_lines conf)) @ newline"

section \<open>Address translation for AmneziaWG\<close>

record awg_nat =
  an_enabled :: bool
  an_egress_interface :: "rstring option"
  an_subnet :: rstring

text \<open>
  What a finished program leaves (its output as \<open>String::from_utf8_lossy\<close> gives it), and the programs
  that were run, in order.
\<close>

record command_output =
  co_success :: bool
  co_stdout :: rstring
  co_stderr :: rstring

type_synonym shell = "rstring list \<Rightarrow> (command_output, rstring) outcome"
type_synonym 'a command = "rstring list list \<Rightarrow> ('a, rstring) outcome \<times> rstring list list"

definition run_command :: "shell \<Rightarrow> rstring list \<Rightarrow> command_output command" where
  "run_command sh argv log = (sh argv, log @ [argv])"

definition cmd_bind :: "'a command \<Rightarrow> ('a \<Rightarrow> 'b command) \<Rightarrow> 'b command" where
  "cmd_bind m f log =
     (case m log of
        (Ok x, log) \<Rightarrow> f x log
      | (Err e, log) \<Rightarrow> (Err e, log)
      | (Panic, log) \<Rightarrow> (Panic, log)
      | (Pending, log) \<Rightarrow> (Pending, log))"

definition cmd_lift :: "('a, rstring) outcome \<Rightarrow> 'a command" where
  "cmd_lift r log = (r, log)"

definition cmd_or_else :: "'a command \<Rightarrow> 'a command \<Rightarrow> 'a command" where
  "cmd_or_else m n log = (case m log of (Err e, log) \<Rightarrow> n log | r \<Rightarrow> r)"

definition cmd_map_err :: "(rstring \<Rightarrow> rstring) \<Rightarrow> 'a command \<Rightarrow> 'a command" where
  "cmd_map_err f m log = (map_err f (fst (m log)), snd (m log))"

definition run_iptables :: "shell \<Rightarrow> rstring list \<Rightarrow> unit command" where
  "run_iptables sh args =
     cmd_bind (cmd_map_err (\<lambda>e. lit ''iptables failed: '' @ e) (run_command sh (lit ''iptables'' # args))) (\<lambda>output.
     if \<not> co_success output then
       cmd_lift (Err (lit ''iptables '' @ join (lit '' '') args @ lit '': '' @ co_stderr output))
     else cmd_lift (Ok ()))"

definition enable_ip_forward :: "shell \<Rightarrow> unit command" where
  "enable_ip_forward sh =
     cmd_bind (cmd_map_err (\<lambda>e. lit ''sysctl failed: '' @ e)
       (run_command sh [lit ''sysctl'', lit ''-w'', lit ''net.ipv4.ip_forward=1''])) (\<lambda>output.
     if \<not> co_success output then
       cmd_lift (Err (lit ''sysctl net.ipv4.ip_forward failed: '' @ co_stderr output))
     else cmd_lift (Ok ()))"

fun after_dev :: "rstring list \<Rightarrow> rstring option" where
  "after_dev (a # b # rest) = (if a = lit ''dev'' then Some b else after_dev (b # rest))"
| "after_dev _ = None"

definition detect_default_interface :: "shell \<Rightarrow> rstring command" where
  "detect_default_interface sh =
     cmd_bind (cmd_map_err (\<lambda>e. lit ''ip route failed: '' @ e)
       (run_command sh [lit ''ip'', lit ''route'', lit ''show'', lit ''default''])) (\<lambda>output.
     if \<not> co_success output then
       cmd_lift (Err (lit ''failed to detect default route interface; set transport.awg.nat.egress_interface''))
     else
       (case after_dev (split_whitespace (co_stdout output)) of
          Some iface \<Rightarrow> cmd_lift (Ok iface)
        | None \<Rightarrow> cmd_lift (Err (lit ''could not parse default interface from `ip route`''))))"

definition masquerade :: "string \<Rightarrow> rstring \<Rightarrow> rstring \<Rightarrow> rstring list" where
  "masquerade op subnet iface =
     [lit ''-t'', lit ''nat'', lit op, lit ''POSTROUTING'', lit ''-s'', subnet, lit ''-o'', iface, lit ''-j'',
      lit ''MASQUERADE'']"

definition apply_nat :: "shell \<Rightarrow> awg_nat \<Rightarrow> unit command" where
  "apply_nat sh config =
     (if \<not> an_enabled config then cmd_lift (Ok ())
      else if trim (an_subnet config) = [] then cmd_lift (Err (lit ''NAT subnet must not be empty''))
      else
        cmd_bind (enable_ip_forward sh) (\<lambda>_.
        cmd_bind (case an_egress_interface config of
             Some name \<Rightarrow> if trim name = [] then detect_default_interface sh else cmd_lift (Ok name)
           | None \<Rightarrow> detect_default_interface sh) (\<lambda>iface.
        cmd_or_else (run_iptables sh (masquerade ''-C'' (an_subnet config) iface))
          (run_iptables sh (masquerade ''-A'' (an_subnet config) iface)))))"

section \<open>Hysteria 2\<close>

record hysteria2_server =
  hs_listen :: socket_addr
  hs_password :: rstring
  hs_cert_path :: rstring
  hs_key_path :: rstring
  hs_masquerade_url :: "rstring option"

record hysteria2_client =
  hc_server :: rstring
  hc_password :: rstring
  hc_socks5_listen :: rstring
  hc_http_listen :: "rstring option"
  hc_sni :: "rstring option"
  hc_ca_file :: "rstring option"
  hc_insecure :: bool
  hc_pin_sha256 :: "rstring option"
  hc_bandwidth_up :: "rstring option"
  hc_bandwidth_down :: "rstring option"

definition render_server_yaml :: "hysteria2_server \<Rightarrow> (rstring, rstring) outcome" where
  "render_server_yaml config =
     (let port = fmt_dec (unat (sock_port (hs_listen config)));
          ip = sock_ip (hs_listen config);
          listen = (if ip_is_unspecified ip then lit '':'' @ port
                    else if \<not> is_ipv4 (hs_listen config) then lit ''['' @ fmt_ip ip @ lit '']:'' @ port
                    else fmt_ip ip @ lit '':'' @ port);
          yaml = text_lines [lit ''listen: '' @ listen, [], lit ''tls:'', lit ''  cert: '' @ hs_cert_path config,
            lit ''  key: '' @ hs_key_path config, [], lit ''auth:'', lit ''  type: password'',
            lit ''  password: '' @ hs_password config]
      in Ok (case hs_masquerade_url config of
           Some url \<Rightarrow>
             if trim url = [] then yaml
             else yaml @ text_lines [[], lit ''masquerade:'', lit ''  type: proxy'', lit ''  proxy:'',
                    lit ''    url: '' @ trim url, lit ''    rewriteHost: true'']
         | None \<Rightarrow> yaml))"

definition yaml_quote :: "rstring \<Rightarrow> rstring" where
  "yaml_quote value =
     (if value = [] \<or> 0x3A \<in> set value \<or> 0x23 \<in> set value \<or> 0x20 \<in> set value \<or> 0x22 \<in> set value \<or>
         0x27 \<in> set value \<or> is_digit (hd value)
      then quote @ replace_char 0x22 [0x5C, 0x22] (replace_char 0x5C [0x5C, 0x5C] value) @ quote
      else value)"

definition when_set :: "rstring option \<Rightarrow> (rstring \<Rightarrow> rstring list) \<Rightarrow> rstring list" where
  "when_set field f =
     (case field of Some v \<Rightarrow> if trim v = [] then [] else f (trim v) | None \<Rightarrow> [])"

definition render_client_yaml :: "hysteria2_client \<Rightarrow> (rstring, rstring) outcome" where
  "render_client_yaml config =
     (let base = [lit ''server: '' @ yaml_quote (hc_server config), lit ''auth: '' @ yaml_quote (hc_password config), [],
            lit ''socks5:'', lit ''  listen: '' @ yaml_quote (hc_socks5_listen config)];
          http = when_set (hc_http_listen config) (\<lambda>h. [[], lit ''http:'', lit ''  listen: '' @ yaml_quote h]);
          need_tls = hc_insecure config \<or> hc_ca_file config \<noteq> None \<or> hc_sni config \<noteq> None \<or> hc_pin_sha256 config \<noteq> None;
          tls = (if need_tls then
              [[], lit ''tls:''] @
              when_set (hc_sni config) (\<lambda>v. [lit ''  sni: '' @ yaml_quote v]) @
              when_set (hc_ca_file config) (\<lambda>v. [lit ''  ca: '' @ yaml_quote v]) @
              (if hc_insecure config then [lit ''  insecure: true''] else []) @
              when_set (hc_pin_sha256 config) (\<lambda>v. [lit ''  pinSHA256: '' @ yaml_quote v])
            else []);
          bandwidth = (if hc_bandwidth_up config \<noteq> None \<or> hc_bandwidth_down config \<noteq> None then
              [[], lit ''bandwidth:''] @
              (case hc_bandwidth_up config of Some up \<Rightarrow> [lit ''  up: '' @ yaml_quote up] | None \<Rightarrow> []) @
              (case hc_bandwidth_down config of Some down \<Rightarrow> [lit ''  down: '' @ yaml_quote down] | None \<Rightarrow> [])
            else [])
      in Ok (text_lines (base @ http @ tls @ bandwidth)))"

definition unreserved :: "u8 \<Rightarrow> bool" where
  "unreserved b \<longleftrightarrow> 0x41 \<le> b \<and> b \<le> 0x5A \<or> 0x61 \<le> b \<and> b \<le> 0x7A \<or> is_digit b \<or>
     b = 0x2D \<or> b = 0x5F \<or> b = 0x2E \<or> b = 0x7E"

definition hex_upper :: "nat \<Rightarrow> u8" where
  "hex_upper n = (if n < 10 then word_of_nat (0x30 + n) else word_of_nat (0x37 + n))"

definition urlencoding_simple :: "rstring \<Rightarrow> rstring" where
  "urlencoding_simple s =
     concat (map (\<lambda>b. if unreserved b then [b] else [0x25, hex_upper (unat b div 16), hex_upper (unat b mod 16)]) s)"

definition render_share_uri :: "hysteria2_client \<Rightarrow> rstring" where
  "render_share_uri config =
     (let uri = lit ''hy2://'' @ urlencoding_simple (hc_password config) @ lit ''@'' @ hc_server config;
          q = (case hc_sni config of
                 Some sni \<Rightarrow> if sni = [] then [] else [lit ''sni='' @ urlencoding_simple sni]
               | None \<Rightarrow> []) @
              (if hc_insecure config then [lit ''insecure=1''] else [])
      in if q = [] then uri else uri @ lit ''?'' @ join (lit ''&'') q)"

section \<open>TUIC\<close>

record tuic_server =
  ts_listen :: socket_addr
  ts_uuid :: rstring
  ts_password :: rstring
  ts_cert_path :: rstring
  ts_key_path :: rstring
  ts_congestion_control :: rstring
  ts_alpn :: "rstring list"

record tuic_client =
  tc_server :: rstring
  tc_uuid :: rstring
  tc_password :: rstring
  tc_socks5_listen :: rstring
  tc_ip :: "rstring option"
  tc_congestion_control :: rstring
  tc_alpn :: "rstring list"
  tc_udp_relay_mode :: rstring
  tc_allow_insecure :: bool

definition quoted :: "rstring \<Rightarrow> rstring" where
  "quoted s = quote @ s @ quote"

definition escape_toml_string :: "rstring \<Rightarrow> rstring" where
  "escape_toml_string s = replace_char 0x22 [0x5C, 0x22] (replace_char 0x5C [0x5C, 0x5C] s)"

definition json_escape :: "rstring \<Rightarrow> rstring" where
  "json_escape s = replace_char 0x22 [0x5C, 0x22] (replace_char 0x5C [0x5C, 0x5C] s)"

definition render_server_toml :: "tuic_server \<Rightarrow> (rstring, rstring) outcome" where
  "render_server_toml config =
     (let alpn = join (lit '', '') (map quoted (ts_alpn config)) in
      Ok (text_lines
        [lit ''log_level = '' @ quoted (lit ''warn''),
         lit ''server = '' @ quoted (fmt_sock (ts_listen config)),
         lit ''udp_relay_ipv6 = false'',
         lit ''dual_stack = false'',
         [],
         lit ''[users]'',
         quoted (ts_uuid config) @ lit '' = '' @ quoted (escape_toml_string (ts_password config)),
         [],
         lit ''[tls]'',
         lit ''certificate = '' @ quoted (ts_cert_path config),
         lit ''private_key = '' @ quoted (ts_key_path config),
         lit ''alpn = ['' @ alpn @ lit '']'',
         [],
         lit ''[quic.congestion_control]'',
         lit ''controller = '' @ quoted (ts_congestion_control config),
         [],
         lit ''[experimental]'',
         lit ''drop_loopback = false'',
         lit ''drop_private = false'']))"

definition json_field :: "string \<Rightarrow> rstring \<Rightarrow> rstring" where
  "json_field name value = quoted (lit name) @ lit '': '' @ quoted (json_escape value)"

definition render_client_json :: "tuic_client \<Rightarrow> (rstring, rstring) outcome" where
  "render_client_json config =
     (let alpn = join (lit '', '') (map quoted (tc_alpn config));
          relay = join (lit '','' @ newline)
            ([lit ''    '' @ json_field ''server'' (tc_server config),
              lit ''    '' @ json_field ''uuid'' (tc_uuid config),
              lit ''    '' @ json_field ''password'' (tc_password config),
              lit ''    '' @ json_field ''udp_relay_mode'' (tc_udp_relay_mode config),
              lit ''    '' @ json_field ''congestion_control'' (tc_congestion_control config),
              lit ''    '' @ quoted (lit ''alpn'') @ lit '': ['' @ alpn @ lit '']''] @
             when_set (tc_ip config) (\<lambda>ip. [lit ''    '' @ json_field ''ip'' ip]) @
             (if tc_allow_insecure config then [lit ''    '' @ quoted (lit ''skip_cert_verify'') @ lit '': true''] else []))
      in Ok (text_lines
        [lit ''{'',
         lit ''  '' @ quoted (lit ''relay'') @ lit '': {'',
         relay,
         lit ''  },'',
         lit ''  '' @ quoted (lit ''local'') @ lit '': {'',
         lit ''    '' @ json_field ''server'' (tc_socks5_listen config),
         lit ''  },'',
         lit ''  '' @ quoted (lit ''log_level'') @ lit '': '' @ quoted (lit ''warn''),
         lit ''}'']))"

section \<open>Reading the files back\<close>

text \<open>
  The basic strings of TOML after the opening quote: up to the closing quote, with the escapes for a
  quote and a backslash; control characters other than the tab may not occur. The other escape
  sequences of TOML are not produced by the code and are refused here.
\<close>

definition toml_control :: "u8 \<Rightarrow> bool" where
  "toml_control c \<longleftrightarrow> c < 0x20 \<and> c \<noteq> 0x09 \<or> c = 0x7F"

fun toml_basic :: "rstring \<Rightarrow> (rstring \<times> rstring) option" where
  "toml_basic [] = None"
| "toml_basic (c # s) =
     (if c = 0x22 then Some ([], s)
      else if c = 0x5C then
        (case s of
           d # s' \<Rightarrow> if d = 0x22 \<or> d = 0x5C then map_option (\<lambda>(v, r). (d # v, r)) (toml_basic s') else None
         | [] \<Rightarrow> None)
      else if toml_control c then None
      else map_option (\<lambda>(v, r). (c # v, r)) (toml_basic s))"

lemma escape_toml_Cons:
  "escape_toml_string (b # s) =
     (if b = 0x5C then [0x5C, 0x5C] else if b = 0x22 then [0x5C, 0x22] else [b]) @ escape_toml_string s"
  by (simp add: escape_toml_string_def replace_char_def)

lemma toml_basic_escape:
  assumes "\<not> list_ex toml_control s"
  shows "toml_basic (escape_toml_string s @ 0x22 # rest) = Some (s, rest)"
  using assms
proof (induction s)
  case Nil
  show ?case by (simp add: escape_toml_string_def replace_char_def)
next
  case (Cons b s)
  then show ?case by (simp add: escape_toml_Cons)
qed

fun percent_decode :: "rstring \<Rightarrow> rstring option" where
  "percent_decode [] = Some []"
| "percent_decode (c # s) =
     (if c = 0x25 then
        (case s of
           a # b # s' \<Rightarrow>
             (case (to_digit 16 a, to_digit 16 b) of
                (Some x, Some y) \<Rightarrow> map_option (\<lambda>r. word_of_nat (16 * x + y) # r) (percent_decode s')
              | _ \<Rightarrow> None)
         | _ \<Rightarrow> None)
      else map_option (\<lambda>r. c # r) (percent_decode s))"

lemma unat_hex_upper: "n < 16 \<Longrightarrow> unat (hex_upper n) = (if n < 10 then 0x30 + n else 0x37 + n)"
  by (simp add: hex_upper_def del: of_nat_add)

lemma to_digit_hex_upper: "n < 16 \<Longrightarrow> to_digit 16 (hex_upper n) = Some n"
  by (simp add: to_digit_def word_le_nat_alt unat_hex_upper)

lemma nibble_bound: "unat (b :: u8) div 16 < 16"
  using unsigned_less [of b] by (simp add: less_mult_imp_div_less)

lemma unreserved_not_percent: "unreserved b \<Longrightarrow> b \<noteq> 0x25 \<and> b \<noteq> 0x40"
  by (auto simp: unreserved_def is_digit_def)

lemma urlencoding_Cons:
  "urlencoding_simple (b # s) =
     (if unreserved b then [b] else [0x25, hex_upper (unat b div 16), hex_upper (unat b mod 16)]) @ urlencoding_simple s"
  by (simp add: urlencoding_simple_def)

lemma percent_decode_plain: "c \<noteq> 0x25 \<Longrightarrow> percent_decode (c # s) = map_option (\<lambda>r. c # r) (percent_decode s)"
  by simp

lemma percent_decode_escape:
  "m < 16 \<Longrightarrow> n < 16 \<Longrightarrow> percent_decode (0x25 # hex_upper m # hex_upper n # s) =
     map_option (\<lambda>r. word_of_nat (16 * m + n) # r) (percent_decode s)"
  by (simp add: to_digit_hex_upper)

declare percent_decode.simps(2) [simp del]

lemma percent_decode_encode: "percent_decode (urlencoding_simple s) = Some s"
proof (induction s)
  case (Cons b s)
  show ?case
  proof (cases "unreserved b")
    case True
    with Cons unreserved_not_percent [of b] show ?thesis by (simp add: urlencoding_Cons percent_decode_plain)
  next
    case False
    have "word_of_nat (16 * (unat b div 16) + unat b mod 16) = b"
      unfolding mult_div_mod_eq by simp
    moreover have "unat b mod 16 < 16" by simp
    ultimately show ?thesis
      using False Cons percent_decode_escape [OF nibble_bound [of b], of "unat b mod 16" "urlencoding_simple s"]
      by (simp only: urlencoding_Cons if_False append_Cons append_Nil option.map)
  qed
qed (simp add: urlencoding_simple_def)

lemma hex_upper_not_at: "n < 16 \<Longrightarrow> hex_upper n \<noteq> 0x40"
  using unat_hex_upper [of n] by (auto split: if_split_asm)

lemma urlencoding_no_at: "0x40 \<notin> set (urlencoding_simple s)"
proof (induction s)
  case (Cons b s)
  have "unat b div 16 < 16" by (rule nibble_bound)
  with Cons hex_upper_not_at [of "unat b div 16"] hex_upper_not_at [of "unat b mod 16"] unreserved_not_percent [of b]
  show ?case by (cases "unreserved b") (auto simp: urlencoding_Cons)
qed (simp add: urlencoding_simple_def)

section \<open>Commands\<close>

text \<open>Without NAT no program is run; the rule is only added when the check did not find it.\<close>

lemma nat_disabled: "\<not> an_enabled config \<Longrightarrow> apply_nat sh config log = (Ok (), log)"
  by (simp add: apply_nat_def cmd_lift_def)

lemma nat_adds_once:
  assumes "an_enabled config" and "trim (an_subnet config) \<noteq> []" and "an_egress_interface config = Some iface"
    and "trim iface \<noteq> []"
    and "sh [lit ''sysctl'', lit ''-w'', lit ''net.ipv4.ip_forward=1''] = Ok out" and "co_success out"
    and "sh (lit ''iptables'' # masquerade ''-C'' (an_subnet config) iface) = Ok out'" and "co_success out'"
  shows "apply_nat sh config log = (Ok (), log @ [[lit ''sysctl'', lit ''-w'', lit ''net.ipv4.ip_forward=1''],
    lit ''iptables'' # masquerade ''-C'' (an_subnet config) iface])"
  using assms
  by (simp add: apply_nat_def enable_ip_forward_def cmd_bind_def cmd_map_err_def run_command_def cmd_lift_def
      cmd_or_else_def run_iptables_def)

section \<open>Properties\<close>

text \<open>The password of a TUIC server reaches the program that reads the file: after the opening quote of
  its line, a reader of TOML strings finds exactly the configured password and stops at the closing
  quote, whatever quotes and backslashes the password has; only control characters, which the file
  format does not allow in strings and the code does not escape, are excluded.\<close>
lemma tuic_password_survives:
  assumes "\<not> list_ex toml_control (ts_password config)"
  shows "\<exists>pre rest post. render_server_toml config = Ok (pre @ quote @ rest) \<and>
    (\<exists>ls. pre = text_lines (ls @ [lit ''[users]'']) @ quoted (ts_uuid config) @ lit '' = '') \<and>
    toml_basic rest = Some (ts_password config, newline @ post)"
proof -
  let ?ls = "[lit ''log_level = '' @ quoted (lit ''warn''), lit ''server = '' @ quoted (fmt_sock (ts_listen config)),
         lit ''udp_relay_ipv6 = false'', lit ''dual_stack = false'', []]"
  let ?pre = "text_lines (?ls @ [lit ''[users]'']) @ quoted (ts_uuid config) @ lit '' = ''"
  let ?post = "text_lines [[], lit ''[tls]'', lit ''certificate = '' @ quoted (ts_cert_path config),
         lit ''private_key = '' @ quoted (ts_key_path config),
         lit ''alpn = ['' @ join (lit '', '') (map quoted (ts_alpn config)) @ lit '']'', [],
         lit ''[quic.congestion_control]'', lit ''controller = '' @ quoted (ts_congestion_control config), [],
         lit ''[experimental]'', lit ''drop_loopback = false'', lit ''drop_private = false'']"
  let ?rest = "escape_toml_string (ts_password config) @ 0x22 # newline @ ?post"
  have "render_server_toml config = Ok (?pre @ quote @ ?rest)"
    by (simp add: render_server_toml_def text_lines_def quoted_def)
  moreover have "toml_basic ?rest = Some (ts_password config, newline @ ?post)"
    by (rule toml_basic_escape [OF assms])
  ultimately show ?thesis by blast
qed

text \<open>A share link carries its password: the part between the scheme and the first at-sign decodes,
  by the rules of percent encoding, to exactly the configured password, and the server follows.\<close>
lemma share_uri_carries_password:
  "\<exists>enc tail. render_share_uri config = lit ''hy2://'' @ enc @ lit ''@'' @ hc_server config @ tail \<and>
     0x40 \<notin> set enc \<and> percent_decode enc = Some (hc_password config)"
proof -
  have "\<exists>tail. render_share_uri config =
      lit ''hy2://'' @ urlencoding_simple (hc_password config) @ lit ''@'' @ hc_server config @ tail"
    by (simp add: render_share_uri_def Let_def)
  then show ?thesis using urlencoding_no_at percent_decode_encode by blast
qed

end
