(* ===== verification/Tls_Inbound.thy ===== *)
theory Tls_Inbound
  imports Net_Text
begin

text \<open>
  The certificates of the inbound TLS transport (\<open>crates/skadi-transport/src/tls.rs\<close>) and the
  key-exchange modes (\<open>crates/skadi-transport/src/crypto.rs\<close>): the table from server names to
  certificates and the choice made for a client hello. Reading PEM files and the TLS handshake
  itself belong to \<open>rustls\<close>; a loaded certificate is a value of any type.
\<close>

section \<open>Key exchange\<close>

datatype tls_kex_mode = Classic | HybridPq

definition tls_kex_parse :: "rstring \<Rightarrow> (tls_kex_mode, rstring) outcome" where
  "tls_kex_parse value =
     (if value = lit ''classic'' \<or> value = lit ''x25519'' then Ok Classic
      else if value = lit ''hybrid'' \<or> value = lit ''hybrid_pq'' \<or> value = lit ''x25519mlkem768'' then Ok HybridPq
      else Err (lit ''invalid TLS KEX mode '' @ [0x22] @ value @ [0x22] @ lit '': expected classic or hybrid_pq''))"

section \<open>Certificates\<close>

record tls_cert_paths =
  cp_cert_path :: rstring
  cp_key_path :: rstring

record tls_sni_cert =
  sc_server_names :: "rstring list"
  sc_cert_path :: rstring
  sc_key_path :: rstring

record tls_server_config =
  tsc_default :: "tls_cert_paths option"
  tsc_sni_certs :: "tls_sni_cert list"
  tsc_alpn :: "rstring list"
  tsc_kex_mode :: tls_kex_mode

definition tls_single :: "rstring \<Rightarrow> rstring \<Rightarrow> rstring list \<Rightarrow> tls_server_config" where
  "tls_single cert_path key_path alpn =
     \<lparr>tsc_default = Some \<lparr>cp_cert_path = cert_path, cp_key_path = key_path\<rparr>, tsc_sni_certs = [], tsc_alpn = alpn,
      tsc_kex_mode = Classic\<rparr>"

datatype tls_error = NoCertificate | NoCertificates | EmptyServerNames | DuplicateServerName rstring | EmptySniName
  | IpServerName rstring | LoadFailed rstring | HandshakeFailed rstring

fun tls_error_text :: "tls_error \<Rightarrow> rstring" where
  "tls_error_text NoCertificate = lit ''no certificate found in PEM file''"
| "tls_error_text NoCertificates = lit ''no TLS certificates configured''"
| "tls_error_text EmptyServerNames = lit ''SNI entry has no server_names''"
| "tls_error_text (DuplicateServerName n) = lit ''duplicate SNI server name: '' @ n"
| "tls_error_text EmptySniName = lit ''empty SNI server name''"
| "tls_error_text (IpServerName n) = lit ''IP addresses are not supported in server_names: '' @ n"
| "tls_error_text (LoadFailed e) = e"
| "tls_error_text (HandshakeFailed e) = lit ''TLS handshake failed: '' @ e"

record 'k sni_resolver =
  rs_by_name :: "rstring \<rightharpoonup> 'k"
  rs_default :: "'k option"

text \<open>\<open>resolve\<close>: the name of the client hello, if it has one.\<close>

definition sni_resolve :: "'k sni_resolver \<Rightarrow> rstring option \<Rightarrow> 'k option" where
  "sni_resolve r server_name =
     (case server_name of
        Some name \<Rightarrow>
          (case rs_by_name r (to_ascii_lowercase name) of Some ck \<Rightarrow> Some ck | None \<Rightarrow> rs_default r)
      | None \<Rightarrow> rs_default r)"

definition normalize_server_name :: "rstring \<Rightarrow> (rstring, tls_error) outcome" where
  "normalize_server_name name =
     (let trimmed = trim name in
      if trimmed = [] then Err EmptySniName
      else if parse_ip trimmed \<noteq> None then Err (IpServerName trimmed)
      else Ok (to_ascii_lowercase trimmed))"

fun add_names :: "'k \<Rightarrow> rstring list \<Rightarrow> (rstring \<rightharpoonup> 'k) \<Rightarrow> (rstring \<rightharpoonup> 'k, tls_error) outcome" where
  "add_names ck [] m = Ok m"
| "add_names ck (name # names) m =
     ebind (normalize_server_name name) (\<lambda>normalized.
     if normalized \<in> dom m then Err (DuplicateServerName normalized)
     else add_names ck names (m(normalized \<mapsto> ck)))"

fun add_sni_certs ::
  "(tls_cert_paths \<Rightarrow> ('k, tls_error) outcome) \<Rightarrow> tls_sni_cert list \<Rightarrow> (rstring \<rightharpoonup> 'k) \<Rightarrow> (rstring \<rightharpoonup> 'k, tls_error) outcome"
where
  "add_sni_certs load [] m = Ok m"
| "add_sni_certs load (entry # entries) m =
     (if sc_server_names entry = [] then Err EmptyServerNames
      else
        ebind (load \<lparr>cp_cert_path = sc_cert_path entry, cp_key_path = sc_key_path entry\<rparr>) (\<lambda>ck.
        ebind (add_names ck (sc_server_names entry) m) (\<lambda>m. add_sni_certs load entries m)))"

definition build_resolver ::
  "(tls_cert_paths \<Rightarrow> ('k, tls_error) outcome) \<Rightarrow> tls_server_config \<Rightarrow> ('k sni_resolver, tls_error) outcome" where
  "build_resolver load config =
     (if tsc_default config = None \<and> tsc_sni_certs config = [] then Err NoCertificates
      else
        ebind (case tsc_default config of
             Some paths \<Rightarrow> ebind (load paths) (\<lambda>ck. Ok (Some ck))
           | None \<Rightarrow> Ok None) (\<lambda>default.
        ebind (add_sni_certs load (tsc_sni_certs config) Map.empty) (\<lambda>by_name.
        Ok \<lparr>rs_by_name = by_name, rs_default = default\<rparr>)))"

section \<open>The transport\<close>

text \<open>
  Reading PEM files, making a signing key and the handshake are library calls. A PEM file opens or
  not, and its certificates parse or not.
\<close>

record ('c, 'k) tls_lib =
  tli_pem_file :: "rstring \<Rightarrow> ('c list option, rstring) outcome"
  tli_key_file :: "rstring \<Rightarrow> (bytes, rstring) outcome"
  tli_signing_key :: "bytes \<Rightarrow> 'k option"
  tli_provider :: "tls_kex_mode \<Rightarrow> (unit, rstring) outcome"

definition load_certs :: "('c, 'k) tls_lib \<Rightarrow> rstring \<Rightarrow> ('c list, tls_error) outcome" where
  "load_certs lib path =
     ebind (map_err (\<lambda>e. LoadFailed (lit ''cannot open certificate file '' @ path @ lit '': '' @ e)) (tli_pem_file lib path)) (\<lambda>certs.
     case certs of
       None \<Rightarrow> Err (LoadFailed (lit ''failed to parse certificates from '' @ path))
     | Some certs \<Rightarrow> if certs = [] then Err NoCertificate else Ok certs)"

definition load_private_key :: "('c, 'k) tls_lib \<Rightarrow> rstring \<Rightarrow> (bytes, tls_error) outcome" where
  "load_private_key lib path =
     map_err (\<lambda>e. LoadFailed (lit ''failed to parse private key from '' @ path @ lit '': '' @ e)) (tli_key_file lib path)"

definition load_certified_key :: "('c, 'k) tls_lib \<Rightarrow> tls_cert_paths \<Rightarrow> ('c list \<times> 'k, tls_error) outcome" where
  "load_certified_key lib paths =
     ebind (load_certs lib (cp_cert_path paths)) (\<lambda>cert_chain.
     ebind (load_private_key lib (cp_key_path paths)) (\<lambda>key.
     case tli_signing_key lib key of
       None \<Rightarrow> Err (LoadFailed (lit ''invalid private key: '' @ cp_key_path paths))
     | Some signing_key \<Rightarrow> Ok (cert_chain, signing_key)))"

record ('c, 'k) tls_transport =
  tt_resolver :: "('c list \<times> 'k) sni_resolver"
  tt_alpn :: "rstring list"
  tt_kex_mode :: tls_kex_mode

definition tls_transport_new :: "('c, 'k) tls_lib \<Rightarrow> tls_server_config \<Rightarrow> (('c, 'k) tls_transport, tls_error) outcome" where
  "tls_transport_new lib config =
     ebind (map_err LoadFailed (tli_provider lib (tsc_kex_mode config))) (\<lambda>_.
     ebind (build_resolver (load_certified_key lib) config) (\<lambda>resolver.
     Ok \<lparr>tt_resolver = resolver, tt_alpn = tsc_alpn config, tt_kex_mode = tsc_kex_mode config\<rparr>))"

definition tls_accept ::
  "(('c, 'k) tls_transport \<Rightarrow> 's \<Rightarrow> ('t, rstring) outcome) \<Rightarrow> ('c, 'k) tls_transport \<Rightarrow> 's \<Rightarrow> ('t, tls_error) outcome" where
  "tls_accept handshake t stream = map_err HandshakeFailed (handshake t stream)"

section \<open>The table\<close>

text \<open>A name of an entry, in the form names are compared in.\<close>

definition entry_names :: "tls_sni_cert \<Rightarrow> rstring set" where
  "entry_names entry = (\<lambda>n. to_ascii_lowercase (trim n)) ` set (sc_server_names entry)"

lemma normalize_Ok: "normalize_server_name n = Ok m \<Longrightarrow> m = to_ascii_lowercase (trim n)"
  by (auto simp: normalize_server_name_def Let_def split: if_split_asm)

lemma add_names_succeeds:
  assumes "list_all (\<lambda>n. trim n \<noteq> [] \<and> parse_ip (trim n) = None) names"
    and "distinct (map (\<lambda>n. to_ascii_lowercase (trim n)) names)"
    and "dom m \<inter> (\<lambda>n. to_ascii_lowercase (trim n)) ` set names = {}"
  shows "\<exists>m'. add_names ck names m = Ok m'"
  using assms by (induction names arbitrary: m) (auto simp: normalize_server_name_def Let_def)

lemma add_names_Ok:
  assumes "add_names ck names m = Ok m'"
  shows "m' = (\<lambda>n. if n \<in> (\<lambda>n. to_ascii_lowercase (trim n)) ` set names then Some ck else m n) \<and>
    dom m \<inter> (\<lambda>n. to_ascii_lowercase (trim n)) ` set names = {}"
  using assms
proof (induction names arbitrary: m)
  case (Cons name names)
  from Cons.prems obtain k where k: "normalize_server_name name = Ok k" by (cases "normalize_server_name name") auto
  with Cons.prems have new: "k \<notin> dom m" and rec: "add_names ck names (m(k \<mapsto> ck)) = Ok m'"
    by (auto split: if_split_asm)
  note ih = Cons.IH [OF rec]
  have "dom m \<inter> (\<lambda>n. to_ascii_lowercase (trim n)) ` set names = {}" using ih by (auto simp del: fun_upd_apply)
  with ih normalize_Ok [OF k] new show ?case by (auto simp: fun_eq_iff)
qed auto

lemma add_sni_certs_Ok:
  assumes "add_sni_certs load entries m = Ok m'"
  shows "(\<forall>e \<in> set entries. \<forall>n \<in> entry_names e. \<exists>ck. m' n = Some ck \<and>
      load \<lparr>cp_cert_path = sc_cert_path e, cp_key_path = sc_key_path e\<rparr> = Ok ck) \<and>
    (\<forall>n. n \<notin> \<Union> (entry_names ` set entries) \<longrightarrow> m' n = m n) \<and> m \<subseteq>\<^sub>m m'"
  using assms
proof (induction entries arbitrary: m)
  case (Cons e es)
  let ?p = "\<lparr>cp_cert_path = sc_cert_path e, cp_key_path = sc_key_path e\<rparr>"
  from Cons.prems obtain ck m1 where ck: "load ?p = Ok ck" and m1: "add_names ck (sc_server_names e) m = Ok m1"
      and rec: "add_sni_certs load es m1 = Ok m'"
    by (cases "load ?p"; cases "add_names (case load ?p of Ok c \<Rightarrow> c) (sc_server_names e) m")
      (auto split: if_split_asm)
  note a = add_names_Ok [OF m1]
  then have a1: "m1 = (\<lambda>n. if n \<in> entry_names e then Some ck else m n)" and a2: "dom m \<inter> entry_names e = {}"
    by (simp_all add: entry_names_def)
  have "m \<subseteq>\<^sub>m m1" using a1 a2 by (auto simp: map_le_def)
  moreover note ih = Cons.IH [OF rec]
  ultimately have "m \<subseteq>\<^sub>m m'" using map_le_trans by blast
  moreover have "m' n = Some ck" if "n \<in> entry_names e" for n
    using ih that a1 by (auto simp: map_le_def dom_def)
  ultimately show ?case using ih a1 ck by auto
qed auto

section \<open>Properties\<close>

text \<open>C32: a client that names a configured server gets the certificate of the entry that lists the name,
  compared without regard to case and surrounding space; a client that names another server, or
  none, gets the default certificate, if there is one.\<close>
theorem sni_selects_certificate:
  assumes "build_resolver load config = Ok r"
  shows "(\<forall>e \<in> set (tsc_sni_certs config). \<forall>name. to_ascii_lowercase name \<in> entry_names e \<longrightarrow>
      (\<exists>ck. sni_resolve r (Some name) = Some ck \<and>
         load \<lparr>cp_cert_path = sc_cert_path e, cp_key_path = sc_key_path e\<rparr> = Ok ck)) \<and>
    (\<forall>name. to_ascii_lowercase name \<notin> \<Union> (entry_names ` set (tsc_sni_certs config)) \<longrightarrow>
      sni_resolve r (Some name) = rs_default r) \<and>
    sni_resolve r None = rs_default r \<and>
    (case tsc_default config of None \<Rightarrow> rs_default r = None | Some p \<Rightarrow> \<exists>ck. load p = Ok ck \<and> rs_default r = Some ck)"
proof -
  from assms obtain m where m: "add_sni_certs load (tsc_sni_certs config) Map.empty = Ok m" and r: "rs_by_name r = m"
    and d: "case tsc_default config of None \<Rightarrow> rs_default r = None | Some p \<Rightarrow> \<exists>ck. load p = Ok ck \<and> rs_default r = Some ck"
    by (cases "add_sni_certs load (tsc_sni_certs config) Map.empty"; cases "tsc_default config")
      (auto simp: build_resolver_def ebind_eq_Ok_conv map_err_eq_Ok_conv split: if_split_asm)
  from add_sni_certs_Ok [OF m] d r show ?thesis by (force simp: sni_resolve_def split: option.split)
qed

definition sample_tls :: tls_server_config where
  "sample_tls =
     \<lparr>tsc_default = None, tsc_sni_certs = [\<lparr>sc_server_names = [lit '' Xy''], sc_cert_path = [1], sc_key_path = [2]\<rparr>],
      tsc_alpn = [], tsc_kex_mode = Classic\<rparr>"

theorem sni_selects_certificate_witness:
  "\<exists>r. build_resolver (\<lambda>p. Ok (cp_cert_path p)) sample_tls = Ok r \<and>
     sni_resolve r (Some (lit ''xY'')) = Some [1] \<and> sni_resolve r (Some (lit ''c'')) = None"
proof -
  have lower: "to_ascii_lowercase (lit ''Xy'') = lit ''xy''" "to_ascii_lowercase (lit ''xY'') = lit ''xy''"
      "to_ascii_lowercase (lit ''c'') = lit ''c''" "trim (lit '' Xy'') = lit ''Xy''"
    by (simp_all add: lit_def to_ascii_lowercase_def ascii_lower_def trim_def ws_ascii_def ws_two_def ws_three_def)
  have "parse_ip (lit ''Xy'') = None"
    using read_groups.simps(2) [of 7 0 "lit ''Xy''"]
    by (simp add: lit_def parse_ip_def read_ipv4_def read_octet_def read_number_def to_digit_def read_ipv6_def
        read_separator_def whole_def)
  then have "normalize_server_name (lit '' Xy'') = Ok (lit ''xy'')"
    using lower by (simp add: normalize_server_name_def) (simp add: lit_def)
  then obtain r where r: "build_resolver (\<lambda>p. Ok (cp_cert_path p)) sample_tls = Ok r"
    by (simp add: build_resolver_def sample_tls_def)
  note t = sni_selects_certificate [OF r]
  have "sni_resolve r (Some (lit ''xY'')) = Some [1]"
    using t lower by (simp add: sample_tls_def entry_names_def)
  moreover have "sni_resolve r (Some (lit ''c'')) = None"
    using t lower by (simp add: sample_tls_def entry_names_def) (simp add: lit_def)
  ultimately show ?thesis using r by blast
qed

end
