(* ===== verification/Xhttp_Config.thy ===== *)
theory Xhttp_Config
  imports Net_Text
begin

text \<open>
  The configuration of the XHTTP transport (\<open>crates/skadi-transport/src/xhttp/config.rs\<close>): modes,
  padding, and how paths and hosts of requests are compared.
\<close>

datatype xhttp_mode = Auto | PacketUp | StreamUp | StreamOne

definition xhttp_mode_parse :: "rstring \<Rightarrow> xhttp_mode option" where
  "xhttp_mode_parse s =
     (if s = [] \<or> s = lit ''auto'' then Some Auto
      else if s = lit ''packet-up'' then Some PacketUp
      else if s = lit ''stream-up'' then Some StreamUp
      else if s = lit ''stream-one'' then Some StreamOne
      else None)"

definition allows_stream_one :: "xhttp_mode \<Rightarrow> bool" where
  "allows_stream_one m \<longleftrightarrow> m = Auto \<or> m = StreamOne \<or> m = StreamUp"

definition allows_stream_up :: "xhttp_mode \<Rightarrow> bool" where
  "allows_stream_up m \<longleftrightarrow> m = Auto \<or> m = StreamUp \<or> m = StreamOne"

definition allows_packet_up :: "xhttp_mode \<Rightarrow> bool" where
  "allows_packet_up m \<longleftrightarrow> m = Auto \<or> m = PacketUp"

record padding_range =
  pr_min :: u32
  pr_max :: u32

definition padding_default :: padding_range where
  "padding_default = \<lparr>pr_min = 100, pr_max = 1000\<rparr>"

text \<open>\<open>sample_len\<close> with the random number it draws; \<open>usize\<close> has 64 bits.\<close>

definition sample_len :: "u32 \<Rightarrow> padding_range \<Rightarrow> nat" where
  "sample_len random p =
     (if pr_max p \<le> pr_min p then unat (pr_min p)
      else unat (pr_min p) + unat random mod (unat (pr_max p - pr_min p) + 1))"

record xhttp_config =
  xc_path :: rstring
  xc_host :: "rstring option"
  xc_mode :: xhttp_mode
  xc_padding :: padding_range
  xc_no_sse_header :: bool

definition normalized_path :: "xhttp_config \<Rightarrow> rstring" where
  "normalized_path cfg =
     (let path = hd (split_on 0x3F (xc_path cfg)) in
      if path = [] \<or> \<not> starts_with path (lit ''/'') then lit ''/'' @ trim_start_char 0x2F path else path)"

definition host_matches :: "xhttp_config \<Rightarrow> rstring \<Rightarrow> bool" where
  "host_matches cfg request_host =
     (case xc_host cfg of
        Some expected \<Rightarrow>
          if expected = [] then True
          else eq_ignore_ascii_case request_host expected \<or>
               eq_ignore_ascii_case (hd (split_on 0x3A request_host)) expected
      | None \<Rightarrow> True)"

text \<open>The padding stays inside the configured range, both ends included.\<close>

lemma sample_len_bounds:
  assumes "pr_min p \<le> pr_max p"
  shows "unat (pr_min p) \<le> sample_len random p \<and> sample_len random p \<le> unat (pr_max p)"
proof (cases "pr_max p \<le> pr_min p")
  case True
  with assms have "pr_max p = pr_min p" by simp
  then show ?thesis by (simp add: sample_len_def)
next
  case False
  then have "unat (pr_max p - pr_min p) = unat (pr_max p) - unat (pr_min p)"
    using assms by (simp add: unat_sub)
  moreover have "unat random mod (unat (pr_max p - pr_min p) + 1) \<le> unat (pr_max p - pr_min p)"
    using mod_less_divisor [of "unat (pr_max p - pr_min p) + 1" "unat random"] by linarith
  moreover have "unat (pr_min p) \<le> unat (pr_max p)" using assms by (simp add: word_le_nat_alt)
  ultimately have "unat (pr_min p) + unat random mod (unat (pr_max p - pr_min p) + 1) \<le> unat (pr_max p)"
    by linarith
  with False show ?thesis by (simp add: sample_len_def)
qed

lemma normalized_path_absolute: "starts_with (normalized_path cfg) (lit ''/'')"
  by (simp add: normalized_path_def Let_def lit_def)

end
