(* ===== verification/Config.thy ===== *)
theory Config
  imports Sidecar Tls_Inbound Xhttp_Config User_Store Auth_Rate_Limit Inbound Relay
begin

text \<open>
  The configuration of the server (\<open>crates/skadi-config/src/lib.rs\<close>): its records and default
  values, the check that runs after loading (\<open>validate\<close>), and the functions that turn it into the
  values the server is built from. Errors are the texts of the messages. Reading TOML is the work of
  \<open>serde\<close>; a configuration is a value of the records below. Files, base64 and hex decoding and the
  WireGuard library are the parameter \<open>config_env\<close>.
\<close>

section \<open>Errors\<close>

type_synonym 'a checked = "('a, rstring) outcome"

definition bail_if :: "bool \<Rightarrow> rstring \<Rightarrow> unit checked" where
  "bail_if c msg = (if c then Err msg else Ok ())"

definition ok_or :: "'a option \<Rightarrow> rstring \<Rightarrow> 'a checked" where
  "ok_or v msg = (case v of Some x \<Rightarrow> Ok x | None \<Rightarrow> Err msg)"

abbreviation ethen :: "unit checked \<Rightarrow> 'a checked \<Rightarrow> 'a checked" where
  "ethen m n \<equiv> ebind m (\<lambda>_. n)"

text \<open>\<open>Option::filter\<close>, with which empty fields are treated as absent.\<close>

definition option_filter :: "('a \<Rightarrow> bool) \<Rightarrow> 'a option \<Rightarrow> 'a option" where
  "option_filter P v = (case v of Some x \<Rightarrow> if P x then Some x else None | None \<Rightarrow> None)"

abbreviation not_blank :: "rstring \<Rightarrow> bool" where
  "not_blank s \<equiv> trim s \<noteq> []"

record config_env =
  fe_is_file :: "rstring \<Rightarrow> bool"
  fe_open :: "rstring \<Rightarrow> (unit, io_kind) outcome"
  fe_impersonate :: "rstring \<Rightarrow> (bytes, rstring) outcome"
  fe_base64 :: "rstring \<Rightarrow> bytes option"
  fe_hex :: "rstring \<Rightarrow> bytes option"
  fe_wg :: wg_lib

section \<open>Records and defaults\<close>

record metrics_config =
  mc_enabled :: bool
  mc_listen :: rstring

definition metrics_default :: metrics_config where
  "metrics_default = \<lparr>mc_enabled = False, mc_listen = lit ''127.0.0.1:9090''\<rparr>"

record api_tls_config =
  at_enabled :: bool
  at_cert :: "rstring option"
  at_key :: "rstring option"

record api_config =
  apc_enabled :: bool
  apc_listen :: rstring
  apc_token :: "rstring option"
  apc_tls :: api_tls_config
  apc_rate_limit :: "u32 option"
  apc_audit_log :: bool

definition api_default :: api_config where
  "api_default =
     \<lparr>apc_enabled = False, apc_listen = lit ''127.0.0.1:10085'', apc_token = None,
      apc_tls = \<lparr>at_enabled = False, at_cert = None, at_key = None\<rparr>, apc_rate_limit = None, apc_audit_log = True\<rparr>"

text \<open>\<open>ListenAddrs\<close>: one address, or a list for several.\<close>

datatype raw_listen = One rstring | Many "rstring list"

fun listen_deserialize :: "raw_listen \<Rightarrow> rstring list checked" where
  "listen_deserialize (One addr) = Ok [addr]"
| "listen_deserialize (Many addrs) =
     (if addrs = [] then Err (lit ''server.listen array must not be empty'') else Ok addrs)"

definition listen_default :: "rstring list" where
  "listen_default = [lit ''127.0.0.1:0'']"

definition listen_display :: "rstring list \<Rightarrow> rstring" where
  "listen_display addrs = join (lit '', '') addrs"

definition socket_addrs :: "rstring list \<Rightarrow> socket_addr list checked" where
  "socket_addrs addrs = emap (\<lambda>s. ok_or (parse_socket_addr s) (lit ''invalid server.listen: '' @ s)) addrs"

fun validate_addrs :: "socket_addr set \<Rightarrow> rstring list \<Rightarrow> unit checked" where
  "validate_addrs seen [] = Ok ()"
| "validate_addrs seen (addr_str # rest) =
     ebind (ok_or (parse_socket_addr addr_str) (lit ''invalid server.listen: '' @ addr_str)) (\<lambda>addr.
     if addr \<in> seen then Err (lit ''duplicate server.listen address: '' @ fmt_sock addr)
     else validate_addrs (insert addr seen) rest)"

definition validate_listen :: "rstring list \<Rightarrow> unit checked" where
  "validate_listen addrs =
     ethen (bail_if (addrs = []) (lit ''server.listen must specify at least one address'')) (validate_addrs {} addrs)"

definition auth_rate_limit_default :: auth_rate_limit_config where
  "auth_rate_limit_default =
     \<lparr>ar_enabled = True, ar_max_failures = Some 10, ar_window_secs = 600, ar_ban_base_secs = 60, ar_ban_max_secs = 3600\<rparr>"

record timeouts_config =
  tm_connect_secs :: u64
  tm_idle_secs :: "u64 option"
  tm_lifetime_secs :: "u64 option"

definition timeouts_default :: timeouts_config where
  "timeouts_default = \<lparr>tm_connect_secs = 10, tm_idle_secs = None, tm_lifetime_secs = None\<rparr>"

record server_config =
  srv_listen :: "rstring list"
  srv_timeouts :: timeouts_config
  srv_max_connections :: "u32 option"
  srv_auth_rate_limit :: auth_rate_limit_config

definition server_default :: server_config where
  "server_default =
     \<lparr>srv_listen = listen_default, srv_timeouts = timeouts_default, srv_max_connections = None,
      srv_auth_rate_limit = auth_rate_limit_default\<rparr>"

definition with_listen :: "rstring list \<Rightarrow> server_config" where
  "with_listen listen = server_default\<lparr>srv_listen := listen\<rparr>"

record outbound_tls_config =
  ot_enabled :: bool
  ot_ca_file :: "rstring option"
  ot_cert :: "rstring option"
  ot_key :: "rstring option"
  ot_kex_mode :: rstring

definition outbound_tls_default :: outbound_tls_config where
  "outbound_tls_default =
     \<lparr>ot_enabled = False, ot_ca_file = None, ot_cert = None, ot_key = None, ot_kex_mode = lit ''classic''\<rparr>"

record outbound_config =
  oc_tls :: outbound_tls_config
  oc_allow_private :: bool

record xhttp_file_config =
  xf_enabled :: bool
  xf_path :: rstring
  xf_host :: "rstring option"
  xf_mode :: rstring
  xf_no_sse_header :: bool
  xf_padding :: "(u32 \<times> u32) option"

definition xhttp_file_default :: xhttp_file_config where
  "xhttp_file_default =
     \<lparr>xf_enabled = False, xf_path = lit ''/xhttp'', xf_host = None, xf_mode = lit ''auto'', xf_no_sse_header = False,
      xf_padding = None\<rparr>"

record awg_file_config =
  af_enabled :: bool
  af_listen :: rstring
  af_interface :: rstring
  af_private_key :: "rstring option"
  af_address :: rstring
  af_mtu :: "u16 option"
  af_obfuscation :: awg_obfuscation
  af_peers :: "awg_peer list"
  af_nat :: awg_nat

definition awg_obfuscation_default :: awg_obfuscation where
  "awg_obfuscation_default =
     \<lparr>ao_jc = 8, ao_jmin = 64, ao_jmax = 1024, ao_s1 = 32, ao_s2 = 32, ao_s3 = 16, ao_s4 = 16,
      ao_h1 = lit ''1-10000000'', ao_h2 = lit ''10000001-20000000'', ao_h3 = lit ''20000001-30000000'',
      ao_h4 = lit ''30000001-40000000''\<rparr>"

text \<open>The derived default of the \<open>nat\<close> table has an empty subnet.\<close>

definition awg_file_default :: awg_file_config where
  "awg_file_default =
     \<lparr>af_enabled = False, af_listen = lit ''0.0.0.0:51820'', af_interface = lit ''skadiwg0'', af_private_key = None,
      af_address = lit ''10.8.0.1/24'', af_mtu = Some 1420, af_obfuscation = awg_obfuscation_default, af_peers = [],
      af_nat = \<lparr>an_enabled = False, an_egress_interface = None, an_subnet = []\<rparr>\<rparr>"

record hysteria2_file_config =
  hf_enabled :: bool
  hf_listen :: rstring
  hf_password :: "rstring option"
  hf_cert :: "rstring option"
  hf_key :: "rstring option"
  hf_masquerade_url :: "rstring option"

definition hysteria2_file_default :: hysteria2_file_config where
  "hysteria2_file_default =
     \<lparr>hf_enabled = False, hf_listen = lit '':443'', hf_password = None, hf_cert = None, hf_key = None,
      hf_masquerade_url = None\<rparr>"

record tuic_file_config =
  tf_enabled :: bool
  tf_listen :: rstring
  tf_uuid :: "rstring option"
  tf_password :: "rstring option"
  tf_certificate :: "rstring option"
  tf_private_key :: "rstring option"
  tf_congestion_control :: rstring
  tf_alpn :: "rstring list"

definition tuic_file_default :: tuic_file_config where
  "tuic_file_default =
     \<lparr>tf_enabled = False, tf_listen = lit ''0.0.0.0:8443'', tf_uuid = None, tf_password = None, tf_certificate = None,
      tf_private_key = None, tf_congestion_control = lit ''bbr'', tf_alpn = [lit ''h3'']\<rparr>"

record tls_config =
  tl_enabled :: bool
  tl_cert :: "rstring option"
  tl_key :: "rstring option"
  tl_alpn :: "rstring list"
  tl_certificates :: "tls_sni_cert list"
  tl_kex_mode :: rstring

definition tls_default :: tls_config where
  "tls_default =
     \<lparr>tl_enabled = False, tl_cert = None, tl_key = None, tl_alpn = [], tl_certificates = [], tl_kex_mode = lit ''classic''\<rparr>"

record reality_config =
  re_enabled :: bool
  re_dest :: "rstring option"
  re_server_names :: "rstring list"
  re_private_key :: "rstring option"
  re_short_ids :: "rstring list"
  re_impersonate_cert :: "rstring option"
  re_fetch_impersonate_cert :: bool
  re_kex_mode :: rstring

definition reality_default :: reality_config where
  "reality_default =
     \<lparr>re_enabled = False, re_dest = None, re_server_names = [], re_private_key = None, re_short_ids = [],
      re_impersonate_cert = None, re_fetch_impersonate_cert = True, re_kex_mode = lit ''classic''\<rparr>"

record transport_config =
  tr_tls :: tls_config
  tr_reality :: reality_config
  tr_xhttp :: xhttp_file_config
  tr_awg :: awg_file_config
  tr_hysteria2 :: hysteria2_file_config
  tr_tuic :: tuic_file_config

definition transport_default :: transport_config where
  "transport_default =
     \<lparr>tr_tls = tls_default, tr_reality = reality_default, tr_xhttp = xhttp_file_default, tr_awg = awg_file_default,
      tr_hysteria2 = hysteria2_file_default, tr_tuic = tuic_file_default\<rparr>"

record config =
  cf_server :: server_config
  cf_protocol :: protocol_config
  cf_transport :: transport_config
  cf_api :: api_config
  cf_metrics :: metrics_config
  cf_outbound :: outbound_config

section \<open>Helpers\<close>

definition is_loopback :: "socket_addr \<Rightarrow> bool" where
  "is_loopback addr = (case sock_ip addr of V4 (Ipv4 a b c d) \<Rightarrow> a = 127 | V6 ip \<Rightarrow> v6_is_loopback ip)"

definition parse_tls_kex_mode :: "rstring \<Rightarrow> string \<Rightarrow> tls_kex_mode checked" where
  "parse_tls_kex_mode value field = map_err (\<lambda>_. lit ''invalid '' @ lit field) (tls_kex_parse value)"

definition ensure_readable_file :: "config_env \<Rightarrow> rstring \<Rightarrow> rstring \<Rightarrow> unit checked" where
  "ensure_readable_file env path field =
     (if \<not> fe_is_file env path then Err (field @ lit '': file not found: '' @ path)
      else map_err (\<lambda>_. field @ lit '': cannot read '' @ path) (fe_open env path))"

definition decode_base64_32 :: "config_env \<Rightarrow> rstring \<Rightarrow> string \<Rightarrow> bytes checked" where
  "decode_base64_32 env value field =
     ebind (ok_or (fe_base64 env (trim value)) (lit field @ lit '': invalid base64'')) (\<lambda>bytes.
     if length bytes \<noteq> 32 then
       Err (lit field @ lit '': must decode to 32 bytes, got '' @ fmt_dec (length bytes))
     else Ok bytes)"

definition awg_key_is_placeholder :: "rstring \<Rightarrow> bool" where
  "awg_key_is_placeholder key = (starts_with (trim key) (lit ''<'') \<and> ends_with (trim key) (lit ''>''))"

definition awg_uses_placeholder_keys :: "awg_server \<Rightarrow> bool" where
  "awg_uses_placeholder_keys runtime =
     (awg_key_is_placeholder (as_private_key runtime) \<or>
      list_ex (\<lambda>p. awg_key_is_placeholder (ap_public_key p)) (as_peers runtime))"

section \<open>Values for the server\<close>

definition connect_timeout :: "config \<Rightarrow> duration" where
  "connect_timeout c = from_secs (unat (tm_connect_secs (srv_timeouts (cf_server c))))"

definition idle_timeout :: "config \<Rightarrow> duration option" where
  "idle_timeout c =
     map_option (\<lambda>s. from_secs (unat s)) (option_filter (\<lambda>s. s > 0) (tm_idle_secs (srv_timeouts (cf_server c))))"

definition max_session_lifetime :: "config \<Rightarrow> duration option" where
  "max_session_lifetime c =
     map_option (\<lambda>s. from_secs (unat s)) (option_filter (\<lambda>s. s > 0) (tm_lifetime_secs (srv_timeouts (cf_server c))))"

definition max_connections :: "config \<Rightarrow> u32 option" where
  "max_connections c = option_filter (\<lambda>n. n > 0) (srv_max_connections (cf_server c))"

definition config_enabled_protocols :: "config \<Rightarrow> enabled_protocols" where
  "config_enabled_protocols c =
     \<lparr>ep_socks5 = s5_enabled (pc_socks5 (cf_protocol c)), ep_vless = vl_enabled (pc_vless (cf_protocol c))\<rparr>"

definition enabled_protocol_count :: "config \<Rightarrow> nat" where
  "enabled_protocol_count c = enabled_count (config_enabled_protocols c)"

definition allow_private_outbound :: "config \<Rightarrow> bool" where
  "allow_private_outbound c = oc_allow_private (cf_outbound c)"

record tls_client_config =
  tcc_ca_file :: "rstring option"
  tcc_client_cert :: "rstring option"
  tcc_client_key :: "rstring option"
  tcc_kex_mode :: tls_kex_mode
  tcc_alpn_http1_only :: bool

text \<open>The \<open>expect\<close> panics when the mode was not checked before.\<close>

definition outbound_tls_client_config :: "config \<Rightarrow> tls_client_config checked" where
  "outbound_tls_client_config c =
     (let tls = oc_tls (cf_outbound c) in
      case parse_tls_kex_mode (ot_kex_mode tls) ''outbound.tls.kex_mode'' of
        Ok m \<Rightarrow> Ok \<lparr>tcc_ca_file = ot_ca_file tls, tcc_client_cert = ot_cert tls, tcc_client_key = ot_key tls,
                  tcc_kex_mode = m, tcc_alpn_http1_only = False\<rparr>
      | _ \<Rightarrow> Panic)"

text \<open>\<open>outbound_tcp_transport\<close>; building the TLS connector is a parameter.\<close>

definition outbound_tcp_transport ::
  "(duration \<Rightarrow> tls_client_config \<Rightarrow> bool \<Rightarrow> 't checked) \<Rightarrow> (duration \<Rightarrow> bool \<Rightarrow> 't) \<Rightarrow> config \<Rightarrow> 't checked" where
  "outbound_tcp_transport tls_with_policy plain_with_policy c =
     (if ot_enabled (oc_tls (cf_outbound c)) then
        ebind (outbound_tls_client_config c) (\<lambda>tls. tls_with_policy (connect_timeout c) tls (allow_private_outbound c))
      else Ok (plain_with_policy (connect_timeout c) (allow_private_outbound c)))"

definition xhttp_config_of :: "config \<Rightarrow> xhttp_config checked" where
  "xhttp_config_of c =
     (let xhttp = tr_xhttp (cf_transport c) in
      ebind (ok_or (xhttp_mode_parse (xf_mode xhttp)) (lit ''transport.xhttp.mode invalid: '' @ xf_mode xhttp)) (\<lambda>mode.
      ebind (case xf_padding xhttp of
           Some (mn, mx) \<Rightarrow>
             if mn \<le> mx then Ok \<lparr>pr_min = mn, pr_max = mx\<rparr>
             else Err (lit ''transport.xhttp.x_padding_bytes: min ('' @ fmt_dec (unat mn) @ lit '') must be <= max ('' @
                       fmt_dec (unat mx) @ lit '')'')
         | None \<Rightarrow> Ok padding_default) (\<lambda>padding.
      Ok \<lparr>xc_path = xf_path xhttp, xc_host = xf_host xhttp, xc_mode = mode, xc_padding = padding,
          xc_no_sse_header = xf_no_sse_header xhttp\<rparr>)))"

definition awg_peer_config :: "awg_peer \<Rightarrow> awg_peer checked" where
  "awg_peer_config peer =
     ethen (bail_if (trim (ap_public_key peer) = []) (lit ''transport.awg.peers[].public_key must not be empty''))
     (ethen (bail_if (ap_allowed_ips peer = []) (lit ''transport.awg.peers[].allowed_ips must not be empty''))
     (Ok peer))"

definition awg_server_config :: "config \<Rightarrow> awg_server checked" where
  "awg_server_config c =
     (let awg = tr_awg (cf_transport c) in
      ebind (ok_or (parse_socket_addr (af_listen awg)) (lit ''invalid transport.awg.listen: '' @ af_listen awg)) (\<lambda>listen.
      ebind (ok_or (option_filter not_blank (af_private_key awg))
          (lit ''transport.awg.private_key is required when awg is enabled'')) (\<lambda>private_key.
      ethen (bail_if (trim (af_interface awg) = []) (lit ''transport.awg.interface must not be empty''))
      (ethen (bail_if (af_peers awg = []) (lit ''transport.awg.peers must contain at least one peer when awg is enabled''))
      (ebind (emap awg_peer_config (af_peers awg)) (\<lambda>peers.
      Ok \<lparr>as_listen = listen, as_interface = af_interface awg, as_private_key = private_key, as_address = af_address awg,
          as_mtu = af_mtu awg, as_obfuscation = af_obfuscation awg, as_peers = peers\<rparr>))))))"

definition awg_nat_config :: "config \<Rightarrow> awg_nat" where
  "awg_nat_config c = af_nat (tr_awg (cf_transport c))"

definition export_awg_client_conf :: "config_env \<Rightarrow> config \<Rightarrow> nat \<Rightarrow> rstring \<Rightarrow> rstring \<Rightarrow> rstring checked" where
  "export_awg_client_conf env c peer_index client_private_key endpoint =
     ebind (awg_server_config c) (\<lambda>server.
     ebind (if peer_index < length (as_peers server) then Ok (as_peers server ! peer_index)
            else Err (lit ''peer index '' @ fmt_dec peer_index @ lit '' out of range'')) (\<lambda>peer.
     ebind (public_key_from_private (fe_wg env) (as_private_key server)) (\<lambda>server_public.
     let client_address = (case ap_allowed_ips peer of ip # _ \<Rightarrow> ip | [] \<Rightarrow> lit ''10.8.0.2/32'');
         export = \<lparr>ax_private_key = client_private_key, ax_address = client_address, ax_dns = Some (lit ''1.1.1.1''),
           ax_allowed_ips = [lit ''0.0.0.0/0'', lit ''::/0''],
           ax_keepalive = (case ap_keepalive peer of Some k \<Rightarrow> Some k | None \<Rightarrow> Some 25)\<rparr>
     in render_client_conf (fe_wg env) server_public endpoint export (as_obfuscation server) (as_mtu server))))"

definition hysteria2_server_config :: "config \<Rightarrow> hysteria2_server checked" where
  "hysteria2_server_config c =
     (let hy2 = tr_hysteria2 (cf_transport c) in
      ebind (ok_or (case parse_socket_addr (hf_listen hy2) of
                 Some a \<Rightarrow> Some a | None \<Rightarrow> parse_socket_addr (lit ''0.0.0.0'' @ hf_listen hy2))
          (lit ''invalid transport.hysteria2.listen: '' @ hf_listen hy2)) (\<lambda>listen.
      ebind (ok_or (option_filter not_blank (hf_password hy2))
          (lit ''transport.hysteria2.password is required when hysteria2 is enabled'')) (\<lambda>password.
      ebind (ok_or (option_filter not_blank (hf_cert hy2))
          (lit ''transport.hysteria2.cert is required when hysteria2 is enabled'')) (\<lambda>cert.
      ebind (ok_or (option_filter not_blank (hf_key hy2))
          (lit ''transport.hysteria2.key is required when hysteria2 is enabled'')) (\<lambda>key.
      Ok \<lparr>hs_listen = listen, hs_password = password, hs_cert_path = cert, hs_key_path = key,
          hs_masquerade_url = hf_masquerade_url hy2\<rparr>)))))"

definition tuic_server_config :: "config \<Rightarrow> tuic_server checked" where
  "tuic_server_config c =
     (let tuic = tr_tuic (cf_transport c) in
      ebind (ok_or (parse_socket_addr (tf_listen tuic)) (lit ''invalid transport.tuic.listen: '' @ tf_listen tuic)) (\<lambda>listen.
      ebind (ok_or (option_filter not_blank (tf_uuid tuic))
          (lit ''transport.tuic.uuid is required when tuic is enabled'')) (\<lambda>uuid.
      ebind (map_err (\<lambda>_. lit ''invalid transport.tuic.uuid: '' @ uuid) (uuid_parse uuid)) (\<lambda>_.
      ebind (ok_or (option_filter not_blank (tf_password tuic))
          (lit ''transport.tuic.password is required when tuic is enabled'')) (\<lambda>password.
      ebind (ok_or (option_filter not_blank (tf_certificate tuic))
          (lit ''transport.tuic.certificate is required when tuic is enabled'')) (\<lambda>cert.
      ebind (ok_or (option_filter not_blank (tf_private_key tuic))
          (lit ''transport.tuic.private_key is required when tuic is enabled'')) (\<lambda>key.
      Ok \<lparr>ts_listen = listen, ts_uuid = uuid, ts_password = password, ts_cert_path = cert, ts_key_path = key,
          ts_congestion_control = tf_congestion_control tuic, ts_alpn = tf_alpn tuic\<rparr>)))))))"

definition tls_server_config_of :: "config \<Rightarrow> tls_server_config checked" where
  "tls_server_config_of c =
     (let tls = tr_tls (cf_transport c) in
      ebind (case (tl_cert tls, tl_key tls) of
           (Some cert, Some key) \<Rightarrow> Ok (Some \<lparr>cp_cert_path = cert, cp_key_path = key\<rparr>)
         | (None, None) \<Rightarrow> Ok None
         | _ \<Rightarrow> Err (lit ''transport.tls.cert and transport.tls.key must both be set'')) (\<lambda>default.
      ethen (bail_if (default = None \<and> tl_certificates tls = []) (lit ''no TLS certificates configured''))
      (ebind (parse_tls_kex_mode (tl_kex_mode tls) ''transport.tls.kex_mode'') (\<lambda>kex.
      Ok \<lparr>tsc_default = default, tsc_sni_certs = tl_certificates tls, tsc_alpn = tl_alpn tls, tsc_kex_mode = kex\<rparr>))))"

record reality_server_config =
  rc_private_key :: bytes
  rc_dest :: rstring
  rc_server_names :: "rstring list"
  rc_short_ids :: "bytes list"
  rc_impersonate_cert :: "bytes option"
  rc_connect_timeout :: duration
  rc_idle_timeout :: "duration option"
  rc_max_session_lifetime :: "duration option"
  rc_kex_mode :: tls_kex_mode

definition unwrap :: "'a option \<Rightarrow> 'a checked" where
  "unwrap v = (case v of Some x \<Rightarrow> Ok x | None \<Rightarrow> Panic)"

definition reality_server_config_of :: "config_env \<Rightarrow> config \<Rightarrow> reality_server_config checked" where
  "reality_server_config_of env c =
     (let reality = tr_reality (cf_transport c) in
      ebind (unwrap (re_private_key reality)) (\<lambda>key.
      ebind (decode_base64_32 env key ''transport.reality.private_key'') (\<lambda>private_key.
      ebind (emap (\<lambda>sid. ok_or (fe_hex env sid) (lit ''invalid short_id hex: '' @ sid)) (re_short_ids reality)) (\<lambda>short_ids.
      ebind (case re_impersonate_cert reality of
           None \<Rightarrow> Ok None
         | Some path \<Rightarrow>
             ebind (map_err (\<lambda>_. lit ''transport.reality.impersonate_cert'') (fe_impersonate env path)) (\<lambda>der. Ok (Some der)))
        (\<lambda>impersonate_cert.
      ebind (unwrap (re_dest reality)) (\<lambda>dest.
      ebind (parse_tls_kex_mode (re_kex_mode reality) ''transport.reality.kex_mode'') (\<lambda>kex.
      Ok \<lparr>rc_private_key = private_key, rc_dest = dest, rc_server_names = re_server_names reality,
          rc_short_ids = short_ids, rc_impersonate_cert = impersonate_cert, rc_connect_timeout = connect_timeout c,
          rc_idle_timeout = idle_timeout c, rc_max_session_lifetime = max_session_lifetime c, rc_kex_mode = kex\<rparr>)))))))"

section \<open>The check\<close>

definition validate_metrics :: "config \<Rightarrow> unit checked" where
  "validate_metrics c =
     (let listen = mc_listen (cf_metrics c) in
      ebind (ok_or (parse_socket_addr listen) (lit ''invalid metrics.listen: '' @ listen)) (\<lambda>addr.
      bail_if (\<not> is_loopback addr) (lit ''metrics.listen must bind to loopback (127.0.0.1 or ::1), got '' @ listen)))"

definition validate_api :: "config_env \<Rightarrow> config \<Rightarrow> unit checked" where
  "validate_api env c =
     (let api = cf_api c; tls = apc_tls api in
      ebind (ok_or (parse_socket_addr (apc_listen api)) (lit ''invalid api.listen: '' @ apc_listen api)) (\<lambda>addr.
      ethen (bail_if (\<not> is_loopback addr) (lit ''api.listen must bind to loopback (127.0.0.1 or ::1), got '' @ apc_listen api))
      (ebind (ok_or (apc_token api) (lit ''api.token is required when api.enabled = true'')) (\<lambda>token.
      ethen (bail_if (trim token = []) (lit ''api.token must not be empty''))
      (ethen
        (if at_enabled tls then
           ebind (ok_or (at_cert tls) (lit ''api.tls.cert is required when api.tls.enabled'')) (\<lambda>cert.
           ebind (ok_or (at_key tls) (lit ''api.tls.key is required when api.tls.enabled'')) (\<lambda>key.
           ethen (ensure_readable_file env cert (lit ''api.tls.cert''))
           (ensure_readable_file env key (lit ''api.tls.key''))))
         else
           bail_if (at_cert tls \<noteq> None \<or> at_key tls \<noteq> None) (lit ''api.tls.cert/key set but api.tls.enabled = false''))
      (case apc_rate_limit api of
         Some limit \<Rightarrow> bail_if (limit = 0) (lit ''api.rate_limit_per_sec must be > 0 when set'')
       | None \<Rightarrow> Ok ()))))))"

fun check_names :: "nat \<Rightarrow> rstring list \<Rightarrow> rstring set \<Rightarrow> (rstring set) checked" where
  "check_names i [] seen = Ok seen"
| "check_names i (name # names) seen =
     (let normalized = to_ascii_lowercase (trim name) in
      if normalized = [] then Err (lit ''transport.tls.certificates['' @ fmt_dec i @ lit '']: empty server name'')
      else if normalized \<in> seen then Err (lit ''transport.tls.certificates: duplicate server name: '' @ name)
      else check_names i names (insert normalized seen))"

fun check_certificates :: "config_env \<Rightarrow> nat \<Rightarrow> tls_sni_cert list \<Rightarrow> rstring set \<Rightarrow> unit checked" where
  "check_certificates env i [] seen = Ok ()"
| "check_certificates env i (entry # entries) seen =
     (let at = lit ''transport.tls.certificates['' @ fmt_dec i @ lit '']'' in
      ethen (bail_if (sc_server_names entry = []) (at @ lit '': server_names must not be empty''))
      (ethen (ensure_readable_file env (sc_cert_path entry) (at @ lit ''.cert''))
      (ethen (ensure_readable_file env (sc_key_path entry) (at @ lit ''.key''))
      (ebind (check_names i (sc_server_names entry) seen) (\<lambda>seen. check_certificates env (Suc i) entries seen)))))"

definition optional_file :: "config_env \<Rightarrow> rstring option \<Rightarrow> string \<Rightarrow> unit checked" where
  "optional_file env path field =
     (case path of Some p \<Rightarrow> ensure_readable_file env p (lit field) | None \<Rightarrow> Ok ())"

definition validate_tls :: "config_env \<Rightarrow> config \<Rightarrow> unit checked" where
  "validate_tls env c =
     (let tls = tr_tls (cf_transport c) in
      ethen (bail_if ((tl_cert tls \<noteq> None \<or> tl_key tls \<noteq> None) \<and> (tl_cert tls = None \<or> tl_key tls = None))
          (lit ''transport.tls.cert and transport.tls.key must both be set''))
      (ethen (bail_if (tl_cert tls = None \<and> tl_certificates tls = [])
          (lit ''transport.tls.enabled but no certificates configured: set cert/key or [[transport.tls.certificates]]''))
      (ethen (optional_file env (tl_cert tls) ''transport.tls.cert'')
      (ethen (optional_file env (tl_key tls) ''transport.tls.key'')
      (ebind (parse_tls_kex_mode (tl_kex_mode tls) ''transport.tls.kex_mode'') (\<lambda>_.
      check_certificates env 0 (tl_certificates tls) {}))))))"

definition validate_outbound_tls :: "config_env \<Rightarrow> config \<Rightarrow> unit checked" where
  "validate_outbound_tls env c =
     (let tls = oc_tls (cf_outbound c) in
      if \<not> ot_enabled tls then Ok ()
      else
        ethen (case (ot_cert tls, ot_key tls) of
             (Some cert, Some key) \<Rightarrow>
               ethen (ensure_readable_file env cert (lit ''outbound.tls.cert''))
               (ensure_readable_file env key (lit ''outbound.tls.key''))
           | (None, None) \<Rightarrow> Ok ()
           | _ \<Rightarrow> Err (lit ''outbound.tls.cert and outbound.tls.key must both be set''))
        (ethen (optional_file env (ot_ca_file tls) ''outbound.tls.ca_file'')
        (ebind (parse_tls_kex_mode (ot_kex_mode tls) ''outbound.tls.kex_mode'') (\<lambda>_. Ok ()))))"

definition validate_xhttp :: "config \<Rightarrow> unit checked" where
  "validate_xhttp c =
     (let xhttp = tr_xhttp (cf_transport c) in
      if \<not> xf_enabled xhttp then Ok ()
      else
        ethen (bail_if (trim (xf_path xhttp) = []) (lit ''transport.xhttp.path must not be empty when xhttp is enabled''))
        (ethen (bail_if (xhttp_mode_parse (xf_mode xhttp) = None)
            (lit ''transport.xhttp.mode must be auto, packet-up, stream-up, or stream-one''))
        (case xf_padding xhttp of
           Some (mn, mx) \<Rightarrow> bail_if (mn > mx) (lit ''transport.xhttp.x_padding_bytes: min must be <= max'')
         | None \<Rightarrow> Ok ())))"

definition validate_awg :: "config_env \<Rightarrow> config \<Rightarrow> unit checked" where
  "validate_awg env c =
     (if \<not> af_enabled (tr_awg (cf_transport c)) then Ok ()
      else
        ebind (awg_server_config c) (\<lambda>runtime.
        if awg_uses_placeholder_keys runtime then Ok ()
        else ebind (map_err (\<lambda>e. lit ''transport.awg: '' @ e) (render_server_conf (fe_wg env) runtime)) (\<lambda>_. Ok ())))"

definition validate_hysteria2 :: "config \<Rightarrow> unit checked" where
  "validate_hysteria2 c =
     (if \<not> hf_enabled (tr_hysteria2 (cf_transport c)) then Ok ()
      else
        ebind (hysteria2_server_config c) (\<lambda>runtime.
        ebind (map_err (\<lambda>e. lit ''transport.hysteria2: '' @ e) (render_server_yaml runtime)) (\<lambda>_. Ok ())))"

definition validate_tuic :: "config \<Rightarrow> unit checked" where
  "validate_tuic c =
     (if \<not> tf_enabled (tr_tuic (cf_transport c)) then Ok ()
      else
        ebind (tuic_server_config c) (\<lambda>runtime.
        ebind (map_err (\<lambda>e. lit ''transport.tuic: '' @ e) (render_server_toml runtime)) (\<lambda>_. Ok ())))"

fun check_short_ids :: "config_env \<Rightarrow> nat \<Rightarrow> rstring list \<Rightarrow> unit checked" where
  "check_short_ids env i [] = Ok ()"
| "check_short_ids env i (sid # sids) =
     (let at = lit ''transport.reality.short_ids['' @ fmt_dec i @ lit '']'' in
      ebind (ok_or (fe_hex env sid) (at @ lit '': invalid hex'')) (\<lambda>bytes.
      ethen (bail_if (bytes = [] \<or> length bytes > 8) (at @ lit '': must be 1..8 bytes, got '' @ fmt_dec (length bytes)))
      (check_short_ids env (Suc i) sids)))"

definition validate_reality :: "config_env \<Rightarrow> config \<Rightarrow> unit checked" where
  "validate_reality env c =
     (let reality = tr_reality (cf_transport c) in
      ebind (ok_or (re_dest reality) (lit ''transport.reality.dest is required'')) (\<lambda>dest.
      ethen (bail_if (trim dest = []) (lit ''transport.reality.dest must not be empty''))
      (ethen (bail_if (0x3A \<notin> set dest) (lit ''transport.reality.dest must be host:port''))
      (ethen (bail_if (re_server_names reality = []) (lit ''transport.reality.server_names must not be empty''))
      (ebind (ok_or (re_private_key reality) (lit ''transport.reality.private_key is required'')) (\<lambda>key_b64.
      ebind (decode_base64_32 env key_b64 ''transport.reality.private_key'') (\<lambda>_.
      ethen (bail_if (re_short_ids reality = []) (lit ''transport.reality.short_ids must not be empty''))
      (ethen (check_short_ids env 0 (re_short_ids reality))
      (ebind (parse_tls_kex_mode (re_kex_mode reality) ''transport.reality.kex_mode'') (\<lambda>_. Ok ()))))))))))"

definition validate_server :: "server_config \<Rightarrow> unit checked" where
  "validate_server server =
     (let tm = srv_timeouts server; rl = srv_auth_rate_limit server in
      ethen (validate_listen (srv_listen server))
      (ethen (bail_if (tm_connect_secs tm = 0) (lit ''server.timeouts.connect_timeout_secs must be greater than 0''))
      (ethen (bail_if (tm_idle_secs tm = Some 0)
          (lit ''server.timeouts.idle_timeout_secs must be greater than 0 when set''))
      (ethen (bail_if (srv_max_connections server = Some 0) (lit ''server.max_connections must be greater than 0 when set''))
      (ethen
        (if ar_enabled rl then
           ethen (bail_if (ar_max_failures rl = Some 0)
               (lit ''server.auth_rate_limit.max_failures must be greater than 0 when enabled''))
           (ethen (bail_if (ar_window_secs rl = 0) (lit ''server.auth_rate_limit.window_secs must be greater than 0''))
           (ethen (bail_if (ar_ban_base_secs rl = 0) (lit ''server.auth_rate_limit.ban_base_secs must be greater than 0''))
           (bail_if (ar_ban_max_secs rl = 0) (lit ''server.auth_rate_limit.ban_max_secs must be greater than 0''))))
         else Ok ())
      (bail_if (tm_lifetime_secs tm = Some 0)
          (lit ''server.timeouts.max_session_lifetime_secs must be greater than 0 when set'')))))))"

fun validate_vless_users :: "vless_user list \<Rightarrow> unit checked" where
  "validate_vless_users [] = Ok ()"
| "validate_vless_users (user # users) =
     ebind (map_err (\<lambda>_. lit ''invalid VLESS user id: '' @ vu_id user) (uuid_parse (vu_id user))) (\<lambda>_.
     validate_vless_users users)"

definition validate_protocols :: "config \<Rightarrow> unit checked" where
  "validate_protocols c =
     (let socks5 = pc_socks5 (cf_protocol c); vless = pc_vless (cf_protocol c); t = cf_transport c in
      ethen (bail_if (\<not> s5_enabled socks5 \<and> \<not> vl_enabled vless \<and> \<not> af_enabled (tr_awg t) \<and> \<not> hf_enabled (tr_hysteria2 t) \<and>
            \<not> tf_enabled (tr_tuic t))
          (lit ''at least one of protocol (socks5/vless) or transport (awg/hysteria2/tuic) must be enabled''))
      (ethen (bail_if (s5_enabled socks5 \<and> s5_auth socks5 = UserPass \<and> s5_users socks5 = [])
          (lit ''protocol.socks5.auth is user-pass but no users configured''))
      (if vl_enabled vless then
         ethen (bail_if (vl_users vless = []) (lit ''protocol.vless is enabled but no users configured''))
         (validate_vless_users (vl_users vless))
       else Ok ())))"

definition validate :: "config_env \<Rightarrow> config \<Rightarrow> unit checked" where
  "validate env c =
     (let t = cf_transport c in
      ethen (validate_server (cf_server c))
      (ethen (validate_protocols c)
      (ethen (bail_if (tl_enabled (tr_tls t) \<and> re_enabled (tr_reality t))
          (lit ''transport.tls and transport.reality cannot both be enabled''))
      (ethen (validate_xhttp c)
      (ethen (validate_awg env c)
      (ethen (validate_hysteria2 c)
      (ethen (validate_tuic c)
      (ethen (validate_outbound_tls env c)
      (ethen (if tl_enabled (tr_tls t) then
           ethen (validate_tls env c) (ebind (tls_server_config_of c) (\<lambda>_. Ok ())) else Ok ())
      (ethen (if re_enabled (tr_reality t) then
           ethen (validate_reality env c) (ebind (reality_server_config_of env c) (\<lambda>_. Ok ())) else Ok ())
      (ethen (if apc_enabled (cf_api c) then validate_api env c else Ok ())
      (if mc_enabled (cf_metrics c) then validate_metrics c else Ok ()))))))))))))"

section \<open>The summary\<close>

definition on_off :: "bool \<Rightarrow> rstring" where
  "on_off enabled = (if enabled then lit ''enabled'' else lit ''disabled'')"

fun socks_auth_label :: "auth_method \<Rightarrow> rstring" where
  "socks_auth_label NoAuth = lit ''no-auth''"
| "socks_auth_label UserPass = lit ''user-pass''"

text \<open>\<open>as_secs\<close>: whole seconds of a duration.\<close>

definition seconds_or_disabled :: "duration option \<Rightarrow> rstring" where
  "seconds_or_disabled d = (case d of Some d \<Rightarrow> fmt_dec (d div 1000000000) @ lit ''s'' | None \<Rightarrow> lit ''disabled'')"

definition enabled_or :: "bool \<Rightarrow> rstring \<Rightarrow> rstring" where
  "enabled_or enabled details = (if enabled then lit ''enabled ('' @ details @ lit '')'' else lit ''disabled'')"

text \<open>The lines \<open>print_check_summary\<close> prints for the configuration at a path.\<close>

definition check_summary :: "rstring \<Rightarrow> config \<Rightarrow> rstring list" where
  "check_summary path c =
     (let t = cf_transport c; socks5 = pc_socks5 (cf_protocol c); vless = pc_vless (cf_protocol c); api = cf_api c in
      [lit ''Configuration OK: '' @ path,
       lit ''  listen:  '' @ listen_display (srv_listen (cf_server c)),
       lit ''  timeouts: connect='' @ fmt_dec (unat (tm_connect_secs (srv_timeouts (cf_server c)))) @ lit ''s, idle='' @
         seconds_or_disabled (idle_timeout c) @ lit '', max_lifetime='' @ seconds_or_disabled (max_session_lifetime c),
       lit ''  max_connections: '' @ (case max_connections c of Some n \<Rightarrow> fmt_dec (unat n) | None \<Rightarrow> lit ''unlimited''),
       lit ''  vless:   '' @ on_off (vl_enabled vless) @ lit '' ('' @ fmt_dec (length (vl_users vless)) @ lit '' users)'',
       lit ''  socks5:  '' @ on_off (s5_enabled socks5) @ lit '' ('' @ fmt_dec (length (s5_users socks5)) @
         lit '' users, auth='' @ socks_auth_label (s5_auth socks5) @ lit '')'',
       lit ''  tls:     '' @ on_off (tl_enabled (tr_tls t)),
       lit ''  reality: '' @ on_off (re_enabled (tr_reality t)),
       lit ''  xhttp:   '' @ enabled_or (xf_enabled (tr_xhttp t))
         (lit ''path='' @ xf_path (tr_xhttp t) @ lit '', mode='' @ xf_mode (tr_xhttp t)),
       lit ''  awg:     '' @ enabled_or (af_enabled (tr_awg t))
         (lit ''listen='' @ af_listen (tr_awg t) @ lit '', iface='' @ af_interface (tr_awg t) @ lit '', '' @
          fmt_dec (length (af_peers (tr_awg t))) @ lit '' peers, nat='' @ on_off (an_enabled (af_nat (tr_awg t)))),
       lit ''  hysteria2: '' @ enabled_or (hf_enabled (tr_hysteria2 t)) (lit ''listen='' @ hf_listen (tr_hysteria2 t)),
       lit ''  tuic:    '' @ enabled_or (tf_enabled (tr_tuic t)) (lit ''listen='' @ tf_listen (tr_tuic t)),
       lit ''  outbound.tls: '' @ on_off (ot_enabled (oc_tls (cf_outbound c))),
       lit ''  api:     '' @ enabled_or (apc_enabled api)
         (apc_listen api @ (if at_enabled (apc_tls api) then lit '', tls'' else []) @
          (case apc_rate_limit api of Some n \<Rightarrow> lit '', rate_limit='' @ fmt_dec (unat n) @ lit ''/s'' | None \<Rightarrow> []) @
          (if apc_audit_log api then lit '', audit_log'' else [])),
       lit ''  metrics: '' @ enabled_or (mc_enabled (cf_metrics c)) (mc_listen (cf_metrics c))])"

section \<open>What the check guarantees\<close>

lemma bail_if_Ok [simp]: "bail_if c msg = Ok u \<longleftrightarrow> \<not> c"
  by (simp add: bail_if_def)

lemma ok_or_Ok [simp]: "ok_or v msg = Ok x \<longleftrightarrow> v = Some x"
  by (auto simp: ok_or_def split: option.splits)

lemmas checked_simps = ebind_eq_Ok_conv Let_def

lemma validate_parts:
  assumes "validate env c = Ok u"
  shows "validate_server (cf_server c) = Ok ()" "validate_protocols c = Ok ()"
    "\<not> (tl_enabled (tr_tls (cf_transport c)) \<and> re_enabled (tr_reality (cf_transport c)))"
    "validate_xhttp c = Ok ()" "validate_awg env c = Ok ()" "validate_hysteria2 c = Ok ()" "validate_tuic c = Ok ()"
    "validate_outbound_tls env c = Ok ()"
    "tl_enabled (tr_tls (cf_transport c)) \<Longrightarrow> \<exists>t. tls_server_config_of c = Ok t"
    "tl_enabled (tr_tls (cf_transport c)) \<Longrightarrow> validate_tls env c = Ok ()"
    "re_enabled (tr_reality (cf_transport c)) \<Longrightarrow> validate_reality env c = Ok ()"
    "re_enabled (tr_reality (cf_transport c)) \<Longrightarrow> \<exists>r. reality_server_config_of env c = Ok r"
    "apc_enabled (cf_api c) \<Longrightarrow> validate_api env c = Ok ()" "mc_enabled (cf_metrics c) \<Longrightarrow> validate_metrics c = Ok ()"
  using assms by (auto simp: validate_def checked_simps split: if_split_asm)

lemma validate_addrs_Ok:
  "validate_addrs seen addrs = Ok u \<Longrightarrow>
     \<exists>as. socket_addrs addrs = Ok as \<and> distinct as \<and> set as \<inter> seen = {} \<and> length as = length addrs"
proof (induction addrs arbitrary: seen)
  case (Cons a rest)
  then obtain addr where addr: "parse_socket_addr a = Some addr" "addr \<notin> seen"
      and rec: "validate_addrs (insert addr seen) rest = Ok u"
    by (auto simp: checked_simps split: if_split_asm)
  from Cons.IH [OF rec] obtain as where "socket_addrs rest = Ok as" "distinct as" "set as \<inter> insert addr seen = {}"
      "length as = length rest" by blast
  with addr show ?case by (auto simp: socket_addrs_def ok_or_def)
qed (simp add: socket_addrs_def)

lemma validate_listen_Ok:
  assumes "validate_listen addrs = Ok u"
  shows "\<exists>as. socket_addrs addrs = Ok as \<and> as \<noteq> [] \<and> distinct as"
proof -
  from assms have "addrs \<noteq> []" and "validate_addrs {} addrs = Ok u" by (auto simp: validate_listen_def checked_simps)
  with validate_addrs_Ok [OF this(2)] show ?thesis by (metis length_0_conv)
qed

lemma validate_xhttp_Ok:
  assumes "validate_xhttp c = Ok u" and "xf_enabled (tr_xhttp (cf_transport c))"
  shows "\<exists>x. xhttp_config_of c = Ok x \<and> pr_min (xc_padding x) \<le> pr_max (xc_padding x)"
  using assms
  by (auto simp: validate_xhttp_def xhttp_config_of_def checked_simps ok_or_def padding_default_def not_less
      split: option.splits)

lemma check_short_ids_Ok:
  "check_short_ids env i sids = Ok u \<Longrightarrow>
     list_all (\<lambda>sid. \<exists>b. fe_hex env sid = Some b \<and> b \<noteq> [] \<and> length b \<le> 8) sids"
  by (induction sids arbitrary: i) (auto simp: checked_simps)

lemma emap_ok_or:
  assumes "emap (\<lambda>x. ok_or (f x) (msg x)) xs = Ok ys"
  shows "list_all2 (\<lambda>x y. f x = Some y) xs ys"
  using assms by (induction xs arbitrary: ys) (auto simp: ebind_eq_Ok_conv)

lemma reality_Ok:
  assumes "validate_reality env c = Ok u" and "reality_server_config_of env c = Ok r"
  shows "length (rc_private_key r) = 32 \<and> rc_short_ids r \<noteq> [] \<and>
    list_all (\<lambda>sid. sid \<noteq> [] \<and> length sid \<le> 8) (rc_short_ids r) \<and> rc_server_names r \<noteq> []"
proof -
  let ?re = "tr_reality (cf_transport c)"
  from assms(1) have ids: "re_short_ids ?re \<noteq> []" "check_short_ids env 0 (re_short_ids ?re) = Ok ()"
      and names: "re_server_names ?re \<noteq> []"
    by (auto simp: validate_reality_def checked_simps)
  from assms(2) have key: "length (rc_private_key r) = 32" and rn: "rc_server_names r = re_server_names ?re"
      and map: "emap (\<lambda>sid. ok_or (fe_hex env sid) (lit ''invalid short_id hex: '' @ sid)) (re_short_ids ?re) = Ok (rc_short_ids r)"
    by (auto simp: reality_server_config_of_def decode_base64_32_def checked_simps split: if_split_asm)
  have rel: "list_all2 (\<lambda>x y. fe_hex env x = Some y) (re_short_ids ?re) (rc_short_ids r)"
    by (rule emap_ok_or [OF map])
  then have "rc_short_ids r \<noteq> []" using ids(1) by auto
  moreover have "list_all (\<lambda>sid. sid \<noteq> [] \<and> length sid \<le> 8) (rc_short_ids r)"
    using rel check_short_ids_Ok [OF ids(2)] by (auto simp: list_all2_conv_all_nth list_all_length)
  ultimately show ?thesis using key names rn by simp
qed

text \<open>
  A name that is an address passes the check of the certificates, but the table of the TLS transport
  cannot be built with it: the check accepts a configuration the server does not start with.
\<close>

lemma ip_server_name_passes_check:
  "check_names i [lit ''1.2.3.4''] {} = Ok {lit ''1.2.3.4''}"
  "normalize_server_name (lit ''1.2.3.4'') = Err (IpServerName (lit ''1.2.3.4''))"
proof -
  have trim: "trim (lit ''1.2.3.4'') = lit ''1.2.3.4''" "to_ascii_lowercase (lit ''1.2.3.4'') = lit ''1.2.3.4''"
    by (simp_all add: lit_def trim_def ws_ascii_def ws_two_def ws_three_def to_ascii_lowercase_def ascii_lower_def)
  have ip: "lit ''1.2.3.4'' = fmt_ipv4 (Ipv4 1 2 3 4)" by (simp add: lit_def fmt_dec.simps)
  have "parse_ip (lit ''1.2.3.4'') = Some (V4 (Ipv4 1 2 3 4))" unfolding ip by (rule parse_ip_fmt_ipv4)
  then show "normalize_server_name (lit ''1.2.3.4'') = Err (IpServerName (lit ''1.2.3.4''))"
    using trim by (simp add: normalize_server_name_def) (simp add: lit_def)
  show "check_names i [lit ''1.2.3.4''] {} = Ok {lit ''1.2.3.4''}"
    using trim by (simp add: Let_def) (simp add: lit_def)
qed

text \<open>A configuration for SOCKS5 without authentication, with both control ports.\<close>

definition sample_config_env :: config_env where
  "sample_config_env =
     \<lparr>fe_is_file = (\<lambda>_. False), fe_open = (\<lambda>_. Err OtherIo), fe_impersonate = (\<lambda>_. Err []), fe_base64 = (\<lambda>_. None),
      fe_hex = (\<lambda>_. None),
      fe_wg = \<lparr>wl_private_key = (\<lambda>_. Err []), wl_public_key = (\<lambda>_. Err []), wl_preshared_key = (\<lambda>_. Err []),
        wl_public_of = (\<lambda>k. k), wl_ip_net = (\<lambda>_. None), wl_build = (\<lambda>_. Ok ()), wl_validate = (\<lambda>_. Ok ()),
        wl_render = (\<lambda>_. [])\<rparr>\<rparr>"

definition sample_config :: config where
  "sample_config =
     \<lparr>cf_server = with_listen [fmt_sock (SockV4 (Ipv4 0 0 0 0) 1080)],
      cf_protocol = \<lparr>pc_vless = \<lparr>vl_enabled = False, vl_users = []\<rparr>,
        pc_socks5 = \<lparr>s5_enabled = True, s5_auth = NoAuth, s5_users = [], s5_bind = False, s5_udp_associate = False\<rparr>\<rparr>,
      cf_transport = transport_default,
      cf_api = api_default\<lparr>apc_enabled := True, apc_listen := fmt_sock (SockV4 (Ipv4 127 0 0 1) 10085),
        apc_token := Some (lit ''token'')\<rparr>,
      cf_metrics = \<lparr>mc_enabled = True, mc_listen = fmt_sock (SockV4 (Ipv4 127 0 0 1) 9090)\<rparr>,
      cf_outbound = \<lparr>oc_tls = outbound_tls_default, oc_allow_private = False\<rparr>\<rparr>"

lemma sample_config_valid: "validate sample_config_env sample_config = Ok ()"
proof -
  have "trim (lit ''token'') \<noteq> []"
    by (simp add: lit_def trim_def ws_ascii_def ws_two_def ws_three_def)
  then have api: "validate_api sample_config_env sample_config = Ok ()"
    by (simp add: validate_api_def sample_config_def parse_fmt_sock_v4 ok_or_def is_loopback_def bail_if_def api_default_def
        Let_def del: fmt_sock.simps)
  have metrics: "validate_metrics sample_config = Ok ()"
    by (simp add: validate_metrics_def sample_config_def parse_fmt_sock_v4 ok_or_def is_loopback_def bail_if_def
        del: fmt_sock.simps)
  have server: "validate_server (cf_server sample_config) = Ok ()"
    by (simp add: validate_server_def sample_config_def with_listen_def server_default_def timeouts_default_def
        auth_rate_limit_default_def validate_listen_def parse_fmt_sock_v4 ok_or_def bail_if_def del: fmt_sock.simps)
  show ?thesis
    using api metrics server
    by (simp add: validate_def) (simp add: sample_config_def validate_protocols_def validate_xhttp_def validate_awg_def
        validate_hysteria2_def validate_tuic_def validate_outbound_tls_def transport_default_def tls_default_def
        reality_default_def xhttp_file_default_def awg_file_default_def hysteria2_file_default_def tuic_file_default_def
        outbound_tls_default_def bail_if_def api_default_def)
qed

section \<open>Properties\<close>

text \<open>C29: a configuration that passed the check can be served: every function that turns it into the
  values the server is built from succeeds, none of the \<open>expect\<close> and \<open>unwrap\<close> calls in them panics,
  and the values are well-formed: at least one listening address and no address twice, an
  ordered padding range, a key of 32 bytes and short identifiers of one to eight bytes, at most one
  of TLS and REALITY, and no limit that would refuse everything.\<close>
theorem validated_config_is_usable:
  assumes "validate env c = Ok ()"
  defines "t \<equiv> cf_transport c"
  shows "(\<exists>addrs. socket_addrs (srv_listen (cf_server c)) = Ok addrs \<and> addrs \<noteq> [] \<and> distinct addrs) \<and>
    (ot_enabled (oc_tls (cf_outbound c)) \<longrightarrow> (\<exists>k. outbound_tls_client_config c = Ok k)) \<and>
    (xf_enabled (tr_xhttp t) \<longrightarrow> (\<exists>x. xhttp_config_of c = Ok x \<and> pr_min (xc_padding x) \<le> pr_max (xc_padding x))) \<and>
    (af_enabled (tr_awg t) \<longrightarrow> (\<exists>a. awg_server_config c = Ok a)) \<and>
    (hf_enabled (tr_hysteria2 t) \<longrightarrow> (\<exists>h. hysteria2_server_config c = Ok h)) \<and>
    (tf_enabled (tr_tuic t) \<longrightarrow> (\<exists>u. tuic_server_config c = Ok u)) \<and>
    (tl_enabled (tr_tls t) \<longrightarrow> (\<exists>s. tls_server_config_of c = Ok s) \<and> \<not> re_enabled (tr_reality t)) \<and>
    (re_enabled (tr_reality t) \<longrightarrow> (\<exists>r. reality_server_config_of env c = Ok r \<and> length (rc_private_key r) = 32 \<and>
       rc_short_ids r \<noteq> [] \<and> list_all (\<lambda>sid. sid \<noteq> [] \<and> length sid \<le> 8) (rc_short_ids r))) \<and>
    max_connections c \<noteq> Some 0 \<and>
    (\<forall>l. limiter_from_config (srv_auth_rate_limit (cf_server c)) = Some l \<longrightarrow>
       0 < li_max_failures l \<and> 0 < li_window l \<and> 0 < li_ban_base l)"
  (is "?addrs \<and> ?otls \<and> ?xhttp \<and> ?awg \<and> ?hy2 \<and> ?tuic \<and> ?tls \<and> ?reality \<and> ?max \<and> ?limiter")
proof -
  note parts = validate_parts [OF assms(1), folded t_def]
  have "validate_listen (srv_listen (cf_server c)) = Ok ()"
    using parts(1) by (auto simp: validate_server_def checked_simps)
  then have ?addrs by (rule validate_listen_Ok)
  moreover have ?otls
    using parts(8) by (auto simp: validate_outbound_tls_def outbound_tls_client_config_def checked_simps)
  moreover have ?xhttp using validate_xhttp_Ok [OF parts(4)] by (simp add: t_def)
  moreover have ?awg using parts(5) by (auto simp: validate_awg_def checked_simps t_def)
  moreover have ?hy2 using parts(6) by (auto simp: validate_hysteria2_def checked_simps t_def)
  moreover have ?tuic using parts(7) by (auto simp: validate_tuic_def checked_simps t_def)
  moreover have ?tls using parts(3,9) by auto
  moreover have ?reality using parts(11,12) reality_Ok by blast
  moreover have ?max by (auto simp: max_connections_def option_filter_def split: option.splits)
  moreover have ?limiter
    using parts(1) by (auto simp: validate_server_def checked_simps limiter_from_config_def from_secs_def
        word_less_nat_alt unat_gt_0 split: if_split_asm option.splits)
  ultimately show ?thesis by blast
qed

theorem validated_config_is_usable_witness:
  "\<exists>addrs. socket_addrs (srv_listen (cf_server sample_config)) = Ok addrs \<and> addrs \<noteq> []"
  using validated_config_is_usable [OF sample_config_valid] by blast

text \<open>C31: the control ports are not reachable from outside: with a configuration that passed the check,
  the management interface, when enabled, listens on a loopback address and asks for a token that is
  not blank, and the metrics server, when enabled, listens on a loopback address.\<close>
theorem validated_services_are_local:
  assumes "validate env c = Ok ()"
  shows "(apc_enabled (cf_api c) \<longrightarrow> (\<exists>addr token. parse_socket_addr (apc_listen (cf_api c)) = Some addr \<and>
      is_loopback addr \<and> apc_token (cf_api c) = Some token \<and> trim token \<noteq> [])) \<and>
    (mc_enabled (cf_metrics c) \<longrightarrow> (\<exists>addr. parse_socket_addr (mc_listen (cf_metrics c)) = Some addr \<and> is_loopback addr))"
  using validate_parts(13,14) [OF assms]
  by (auto simp: validate_api_def validate_metrics_def checked_simps)

theorem validated_services_are_local_witness:
  "\<exists>addr. parse_socket_addr (apc_listen (cf_api sample_config)) = Some addr \<and> is_loopback addr"
  using validated_services_are_local [OF sample_config_valid] by (auto simp: sample_config_def)

end
