(* ===== verification/Reality_Server.thy ===== *)
theory Reality_Server
  imports Reality_Cert Config
begin

text \<open>
  The REALITY inbound transport (\<open>crates/skadi-transport/src/reality/server.rs\<close>): the hello is read,
  checked, and answered with TLS for a verified client; everyone else is relayed to the destination
  the server pretends to be. Also the loading of the certificate to imitate
  (\<open>reality/impersonate.rs\<close>) and the configuration object of the vendored TLS library
  (\<open>third_party/rustls-reality\<close>, \<open>reality.rs\<close>). Sockets, the TLS handshake and PEM are parameters.
\<close>

section \<open>The transport\<close>

record rustls_reality_config =
  rlc_private_key :: bytes
  rlc_verify_client :: bool
  rlc_dest :: "rstring option"
  rlc_short_ids :: "bytes list"

definition rustls_reality_validate :: "rustls_reality_config \<Rightarrow> unit checked" where
  "rustls_reality_validate c =
     (if length (rlc_private_key c) \<noteq> 32 then Err (lit ''Reality private key must be 32 bytes'') else Ok ())"

record reality_transport =
  rt_config :: rustls_reality_config
  rt_server_names :: "rstring list"
  rt_private_key :: bytes
  rt_short_ids :: "bytes list"
  rt_impersonate_cert :: "bytes option"
  rt_connect_timeout :: duration
  rt_relay_limits :: relay_limits
  rt_kex_mode :: tls_kex_mode

definition reality_transport_new :: "reality_server_config \<Rightarrow> reality_transport checked" where
  "reality_transport_new config =
     (if list_ex (\<lambda>sid. sid = [] \<or> length sid > 8) (rc_short_ids config) then Err (lit ''REALITY short_id must be 1..8 bytes'')
      else if rc_short_ids config = [] then Err (lit ''REALITY requires at least one short_id'')
      else
        let reality_config = \<lparr>rlc_private_key = rc_private_key config, rlc_verify_client = True, rlc_dest = Some (rc_dest config),
              rlc_short_ids = rc_short_ids config\<rparr> in
        ethen (map_err (\<lambda>e. lit ''REALITY config validation failed: '' @ e) (rustls_reality_validate reality_config))
        (Ok \<lparr>rt_config = reality_config, rt_server_names = map (\<lambda>s. to_ascii_lowercase (trim s)) (rc_server_names config),
             rt_private_key = rc_private_key config, rt_short_ids = rc_short_ids config,
             rt_impersonate_cert = rc_impersonate_cert config, rt_connect_timeout = rc_connect_timeout config,
             rt_relay_limits = \<lparr>rl_idle = rc_idle_timeout config, rl_max_lifetime = rc_max_session_lifetime config\<rparr>,
             rt_kex_mode = rc_kex_mode config\<rparr>))"

definition sni_allowed :: "reality_transport \<Rightarrow> client_hello_info \<Rightarrow> bool" where
  "sni_allowed t info =
     (if rt_server_names t = [] then True
      else case ch_server_name info of
        Some s \<Rightarrow> list_ex (\<lambda>n. n = to_ascii_lowercase s) (rt_server_names t)
      | None \<Rightarrow> False)"

lemma reality_transport_new_Ok:
  "length (rc_private_key r) = 32 \<Longrightarrow> rc_short_ids r \<noteq> [] \<Longrightarrow>
     list_all (\<lambda>sid. sid \<noteq> [] \<and> length sid \<le> 8) (rc_short_ids r) \<Longrightarrow> \<exists>t. reality_transport_new r = Ok t"
  by (auto simp: reality_transport_new_def rustls_reality_validate_def Let_def list_all_iff list_ex_iff not_less)

section \<open>The certificate to imitate\<close>

text \<open>\<open>Path::extension\<close>: what follows the last dot of the file name, unless the dot begins it.\<close>

definition path_extension :: "rstring \<Rightarrow> rstring option" where
  "path_extension path =
     (case rev (filter (\<lambda>c. c \<noteq> [] \<and> c \<noteq> lit ''.'') (split_on 0x2F path)) of
        [] \<Rightarrow> None
      | name # _ \<Rightarrow>
          if name = lit ''..'' then None
          else case rsplit_once 0x2E name of
            Some (stem, ext) \<Rightarrow> if stem = [] then None else Some ext
          | None \<Rightarrow> None)"

text \<open>The file system, the PEM reader and the two network steps are parameters.\<close>

record impersonate_env =
  ie_read :: "rstring \<Rightarrow> bytes option"
  ie_pem_certs :: "bytes \<Rightarrow> bytes list option"
  ie_tcp :: "rstring \<Rightarrow> (unit, rstring) outcome"
  ie_server_name :: "rstring \<Rightarrow> bool"
  ie_tls :: "rstring \<Rightarrow> (bytes option, rstring) outcome"

definition load_impersonate_cert_file :: "impersonate_env \<Rightarrow> rstring \<Rightarrow> bytes checked" where
  "load_impersonate_cert_file env path =
     ebind (ok_or (ie_read env path) (lit ''cannot read impersonate cert file '' @ path)) (\<lambda>data.
     if path_extension path = Some (lit ''pem'') \<or> starts_with data (lit ''-----BEGIN'') then
       ebind (ok_or (ie_pem_certs env data) (lit ''invalid PEM in impersonate cert file'')) (\<lambda>certs.
       case certs of
         first # _ \<Rightarrow> Ok first
       | [] \<Rightarrow> Err (lit ''impersonate cert PEM file contains no certificates''))
     else if data = [] then Err (lit ''impersonate cert file is empty'')
     else Ok data)"

definition parse_host_port :: "rstring \<Rightarrow> (rstring \<times> u16) checked" where
  "parse_host_port dest =
     (case rsplit_once 0x3A dest of
        Some (host, port_str) \<Rightarrow>
          if host \<noteq> [] then
            ebind (ok_or (parse_u16 port_str) (lit ''invalid dest port in '' @ dest)) (\<lambda>port. Ok (host, port))
          else Err (lit ''dest must be host:port, got '' @ dest)
      | None \<Rightarrow> Err (lit ''dest must be host:port, got '' @ dest))"

text \<open>The TLS connection yields the leaf certificate its verifier captured, if the peer sent one.\<close>

definition fetch_impersonate_cert_from_dest :: "impersonate_env \<Rightarrow> rstring \<Rightarrow> bytes checked" where
  "fetch_impersonate_cert_from_dest env dest =
     ebind (parse_host_port dest) (\<lambda>(host, port).
     let addr = host @ lit '':'' @ fmt_dec (unat port) in
     ethen (map_err (\<lambda>_. lit ''cannot connect to dest '' @ addr @ lit '' for impersonate cert fetch'') (ie_tcp env addr))
     (ethen (bail_if (\<not> ie_server_name env host) (lit ''invalid dest host for TLS SNI: '' @ host))
     (ebind (map_err (\<lambda>_. lit ''TLS handshake to dest failed while fetching impersonate cert'') (ie_tls env host)) (\<lambda>cert.
     ok_or cert (lit ''dest TLS handshake did not provide a leaf certificate'')))))"

lemma split_once_first: "c \<notin> set l \<Longrightarrow> split_once c (l @ c # r) = Some (l, r)"
  by (induction l) auto

lemma rsplit_once_last: "c \<notin> set r \<Longrightarrow> rsplit_once c (l @ c # r) = Some (l, r)"
  by (simp add: rsplit_once_def split_once_first)

lemma parse_host_port_dest: "host \<noteq> [] \<Longrightarrow> parse_host_port (host @ lit '':'' @ fmt_dec (unat port)) = Ok (host, port)"
proof -
  have "0x3A \<notin> set (fmt_dec (unat port))" using fmt_dec_digits [of "0x3A" "unat port"] by auto
  then show "host \<noteq> [] \<Longrightarrow> ?thesis" by (simp add: parse_host_port_def lit_def rsplit_once_last ok_or_def)
qed

section \<open>Reading the hello\<close>

datatype reality_failure =
    Handshake rstring
  | HandshakeTimeout
  | EarlyClose
  | FallbackHandled
  | RealityIo io_kind
  | RealityRelay relay_error
  | RealityOther rstring

text \<open>
  What the calls of \<open>stream.read\<close> return, one after the other: a chunk of at most 1024 bytes, empty at
  the end of the stream. When the list is used up the next call never returns.
\<close>

type_synonym reads = "(bytes, io_kind) outcome list"

fun read_five :: "bytes \<Rightarrow> reads \<Rightarrow> (bytes, reality_failure) outcome \<times> reads" where
  "read_five buffer [] = (if length buffer < 5 then Pending else Ok buffer, [])"
| "read_five buffer (r # rs) =
     (if length buffer < 5 then
        case r of
          Ok chunk \<Rightarrow> if chunk = [] then (Err EarlyClose, rs) else read_five (buffer @ chunk) rs
        | Err k \<Rightarrow> (Err (RealityIo k), rs)
        | Panic \<Rightarrow> (Panic, rs)
        | Pending \<Rightarrow> (Pending, rs)
      else (Ok buffer, r # rs))"

fun read_needed :: "nat \<Rightarrow> bytes \<Rightarrow> reads \<Rightarrow> (bytes, reality_failure) outcome \<times> reads" where
  "read_needed needed buffer [] =
     (if length buffer < needed \<and> length buffer < 16384 then Pending else Ok buffer, [])"
| "read_needed needed buffer (r # rs) =
     (if length buffer < needed \<and> length buffer < 16384 then
        case r of
          Ok chunk \<Rightarrow> if chunk = [] then (Ok buffer, rs) else read_needed needed (buffer @ chunk) rs
        | Err k \<Rightarrow> (Err (RealityIo k), rs)
        | Panic \<Rightarrow> (Panic, rs)
        | Pending \<Rightarrow> (Pending, rs)
      else (Ok buffer, r # rs))"

definition hello_needed :: "bytes \<Rightarrow> (nat, reality_failure) outcome" where
  "hello_needed buffer =
     ebind (idx buffer 0) (\<lambda>b.
     if b = 0x16 then ebind (read_be16 buffer 3) (\<lambda>n. Ok (5 + n)) else Ok (length buffer))"

definition read_client_hello_prefix :: "reads \<Rightarrow> (bytes, reality_failure) outcome \<times> reads" where
  "read_client_hello_prefix =
     io_timeout HandshakeTimeout
       (io_bind (read_five []) (\<lambda>buffer.
        io_bind (io_lift (hello_needed buffer)) (\<lambda>needed.
        read_needed needed buffer)))"

section \<open>Accepting\<close>

text \<open>What a TLS session is set up with, and what the transport does besides.\<close>

record tls_session =
  tls_certificate :: bytes
  tls_private_key :: bytes
  tls_auth_key :: bytes
  tls_verify_client :: bool
  tls_alpn :: "rstring list"
  tls_kex :: tls_kex_mode
  tls_prefix :: bytes

datatype reality_effect =
    Dialled rstring
  | SentToDest bytes
  | Relayed copy_state
  | TlsHandshake tls_session

record ('d, 'k, 't) reality_env =
  ren_crypto :: reality_crypto
  ren_cert :: "('d, 'k) cert_lib"
  ren_serial :: bytes
  ren_jitter :: "u8 \<times> u8"
  ren_now :: int
  ren_provider :: "tls_kex_mode \<Rightarrow> unit checked"
  ren_single_cert :: "bytes \<Rightarrow> bytes \<Rightarrow> unit checked"
  ren_tls :: "tls_session \<Rightarrow> reads \<Rightarrow> ('t, rstring) outcome"
  ren_connect :: "rstring \<Rightarrow> (unit, io_kind) outcome"
  ren_write :: "bytes \<Rightarrow> (unit, io_kind) outcome"
  ren_unlimited :: "(instant \<times> copy_event) list \<Rightarrow> (u64 \<times> u64, relay_error) outcome \<times> copy_state"
  ren_clock :: instant
  ren_events :: "(instant \<times> copy_event) list"

text \<open>The last step is the handshake with its five seconds; a handshake that does not end is a timeout.\<close>

definition accept_reality_client ::
  "('d, 'k, 't) reality_env \<Rightarrow> reality_transport \<Rightarrow> reads \<Rightarrow> bytes \<Rightarrow> client_hello_info \<Rightarrow> bytes \<Rightarrow>
     ('t, reality_failure) outcome \<times> reality_effect list" where
  "accept_reality_client env t rs buffer info auth_key =
     (let server_name = (case ch_server_name info of Some n \<Rightarrow> n | None \<Rightarrow> lit ''localhost'') in
      case map_err RealityOther (generate_reality_cert (ren_cert env) (ren_serial env) (ren_jitter env) (ren_now env) auth_key
             server_name (rt_impersonate_cert t)) of
        Err e \<Rightarrow> (Err e, [])
      | Panic \<Rightarrow> (Panic, [])
      | Pending \<Rightarrow> (Pending, [])
      | Ok (cert, key) \<Rightarrow>
          (case ebind (map_err RealityOther (ren_provider env (rt_kex_mode t)))
                  (\<lambda>_. map_err Handshake (ren_single_cert env cert key)) of
             Err e \<Rightarrow> (Err e, [])
           | Panic \<Rightarrow> (Panic, [])
           | Pending \<Rightarrow> (Pending, [])
           | Ok _ \<Rightarrow>
               let session = \<lparr>tls_certificate = cert, tls_private_key = key, tls_auth_key = auth_key, tls_verify_client = False,
                     tls_alpn = [lit ''h2'', lit ''http/1.1''], tls_kex = rt_kex_mode t, tls_prefix = buffer\<rparr> in
               (case ren_tls env session rs of
                  Ok tls \<Rightarrow> Ok tls
                | Err e \<Rightarrow> Err (Handshake e)
                | Panic \<Rightarrow> Panic
                | Pending \<Rightarrow> Err HandshakeTimeout, [TlsHandshake session])))"

definition fallback ::
  "('d, 'k, 't) reality_env \<Rightarrow> bytes \<Rightarrow> rstring \<Rightarrow> relay_limits \<Rightarrow> (unit, reality_failure) outcome \<times> reality_effect list" where
  "fallback env sniffed dest limits =
     (case ren_connect env dest of
        Err k \<Rightarrow> (Err (RealityIo k), [Dialled dest])
      | Panic \<Rightarrow> (Panic, [Dialled dest])
      | Pending \<Rightarrow> (Err (RealityOther (lit ''fallback connection timeout'')), [Dialled dest])
      | Ok _ \<Rightarrow>
          (case ren_write env sniffed of
             Err k \<Rightarrow> (Err (RealityIo k), [Dialled dest])
           | Panic \<Rightarrow> (Panic, [Dialled dest])
           | Pending \<Rightarrow> (Pending, [Dialled dest])
           | Ok _ \<Rightarrow>
               (case copy_bidirectional_with_limits (ren_unlimited env) limits (ren_clock env) (ren_events env) of
                  (Ok _, st) \<Rightarrow> (Ok (), [Dialled dest, SentToDest sniffed, Relayed st])
                | (Err e, st) \<Rightarrow> (Err (RealityRelay e), [Dialled dest, SentToDest sniffed, Relayed st])
                | (Panic, st) \<Rightarrow> (Panic, [Dialled dest, SentToDest sniffed, Relayed st])
                | (Pending, st) \<Rightarrow> (Pending, [Dialled dest, SentToDest sniffed, Relayed st]))))"

text \<open>The key of a client that passes the parser, the names and the check.\<close>

definition verified_key :: "reality_crypto \<Rightarrow> reality_transport \<Rightarrow> bytes \<Rightarrow> ((client_hello_info \<times> bytes) option, reality_failure) outcome" where
  "verified_key cr t buffer =
     (case parse_client_hello buffer of
        Ok (Some info) \<Rightarrow>
          if sni_allowed t info then
            ebind (verify_client_reality cr info buffer (rt_private_key t) (rt_short_ids t)) (\<lambda>key.
            Ok (map_option (\<lambda>k. (info, k)) key))
          else Ok None
      | Ok None \<Rightarrow> Ok None
      | Err e \<Rightarrow> Ok None
      | Panic \<Rightarrow> Panic
      | Pending \<Rightarrow> Pending)"

definition reality_accept ::
  "('d, 'k, 't) reality_env \<Rightarrow> reality_transport \<Rightarrow> reads \<Rightarrow> ('t, reality_failure) outcome \<times> reality_effect list" where
  "reality_accept env t rs =
     (case read_client_hello_prefix rs of
        (Err e, _) \<Rightarrow> (Err e, [])
      | (Panic, _) \<Rightarrow> (Panic, [])
      | (Pending, _) \<Rightarrow> (Pending, [])
      | (Ok buffer, rs) \<Rightarrow>
          (case verified_key (ren_crypto env) t buffer of
             Err e \<Rightarrow> (Err e, [])
           | Panic \<Rightarrow> (Panic, [])
           | Pending \<Rightarrow> (Pending, [])
           | Ok (Some (info, auth_key)) \<Rightarrow> accept_reality_client env t rs buffer info auth_key
           | Ok None \<Rightarrow>
               let dest = (case rlc_dest (rt_config t) of Some d \<Rightarrow> d | None \<Rightarrow> lit ''www.microsoft.com:443'') in
               (case fallback env buffer dest (rt_relay_limits t) of
                  (r, effects) \<Rightarrow> (ebind r (\<lambda>_. Err FallbackHandled), effects))))"

section \<open>What was read\<close>

text \<open>The bytes of the chunks a computation consumed.\<close>

fun chunk_bytes :: "reads \<Rightarrow> bytes" where
  "chunk_bytes [] = []"
| "chunk_bytes (Ok chunk # rs) = chunk @ chunk_bytes rs"
| "chunk_bytes (_ # rs) = chunk_bytes rs"

lemma read_five_Ok:
  "read_five buffer rs = (Ok b, rs') \<Longrightarrow> buffer @ chunk_bytes rs = b @ chunk_bytes rs' \<and> 5 \<le> length b"
  by (induction buffer rs rule: read_five.induct) (auto split: if_splits outcome.splits)

lemma read_needed_Ok:
  "read_needed n buffer rs = (Ok b, rs') \<Longrightarrow> buffer @ chunk_bytes rs = b @ chunk_bytes rs' \<and> length buffer \<le> length b"
  by (induction n buffer rs rule: read_needed.induct) (auto split: if_splits outcome.splits)

lemma read_prefix_Ok:
  assumes "read_client_hello_prefix rs = (Ok b, rs')"
  shows "chunk_bytes rs = b @ chunk_bytes rs'" and "5 \<le> length b"
  using assms read_five_Ok [of "[]" rs] read_needed_Ok
  by (fastforce simp: read_client_hello_prefix_def io_bind_Ok)+

lemma read_prefix_not_Pending: "fst (read_client_hello_prefix rs) \<noteq> Pending"
  by (simp add: read_client_hello_prefix_def io_timeout_not_Pending)

section \<open>The check never fails on a parsed hello\<close>









section \<open>Properties\<close>


lemma read_done:
  "5 \<le> length b \<Longrightarrow> read_five b rs = (Ok b, rs)" "n \<le> length b \<Longrightarrow> read_needed n b rs = (Ok b, rs)"
  by (cases rs; simp)+

lemma read_prefix_at_once:
  "hello_needed r = Ok (length r) \<Longrightarrow> 5 \<le> length r \<Longrightarrow> read_client_hello_prefix (Ok r # rs) = (Ok r, rs)"
  by (auto simp: read_client_hello_prefix_def io_timeout_def io_bind_def io_lift_def read_done)


definition sample_transport :: reality_transport where
  "sample_transport =
     \<lparr>rt_config = \<lparr>rlc_private_key = replicate 32 0x01, rlc_verify_client = True, rlc_dest = Some (lit ''a:443''), rlc_short_ids = [replicate 8 0xAA]\<rparr>,
      rt_server_names = [[0x61]], rt_private_key = replicate 32 0x01, rt_short_ids = [replicate 8 0xAA], rt_impersonate_cert = None,
      rt_connect_timeout = 10, rt_relay_limits = \<lparr>rl_idle = Some 10, rl_max_lifetime = None\<rparr>, rt_kex_mode = Classic\<rparr>"

definition sample_reality_env :: "(unit, unit, bytes) reality_env" where
  "sample_reality_env =
     \<lparr>ren_crypto = sample_crypto, ren_cert = sample_cert_lib, ren_serial = replicate 16 0, ren_jitter = (0, 0), ren_now = 0,
      ren_provider = (\<lambda>_. Ok ()), ren_single_cert = (\<lambda>_ _. Ok ()), ren_tls = (\<lambda>s rs. Ok (tls_auth_key s)),
      ren_connect = (\<lambda>_. Ok ()), ren_write = (\<lambda>_. Ok ()), ren_unlimited = (\<lambda>_. (Pending, copy_init \<lparr>rl_idle = None, rl_max_lifetime = None\<rparr> 0)),
      ren_clock = 0, ren_events = [(0, FromA (Ok [0x07]) (Ok ())), (0, FromA (Ok []) (Ok ())), (0, FromB (Ok []) (Ok ()))]\<rparr>"



text \<open>C20: everyone else sees the destination. A client whose hello does not verify, for whatever reason,
  is connected to the configured destination; the destination is sent exactly the bytes that were
  read and then whatever the client sends, in order and once, the client gets what the destination
  sends, and the caller learns that the connection is dealt with.\<close>
theorem reality_fallback_is_transparent:
  assumes "read_client_hello_prefix rs = (Ok buffer, rs')" and "verified_key (ren_crypto env) t buffer = Ok None"
    and "rlc_dest (rt_config t) = Some dest" and "ren_connect env dest = Ok ()" and "ren_write env buffer = Ok ()"
    and "has_limits (rt_relay_limits t)"
    and "copy_loop (rt_relay_limits t) (ren_events env) (copy_init (rt_relay_limits t) (ren_clock env)) = (Ok n, st)"
  shows "reality_accept env t rs = (Err FallbackHandled, [Dialled dest, SentToDest buffer, Relayed st]) \<and>
    buffer @ chunk_bytes rs' = chunk_bytes rs \<and>
    cp_sent_b st = stream_a (ren_events env) \<and> cp_sent_a st = stream_b (ren_events env)"
proof -
  have "cp_sent_b st = stream_a (ren_events env)" "cp_sent_a st = stream_b (ren_events env)"
    using copy_loop_streams [OF assms(7)] copy_loop_Ok [OF assms(7)] by (auto simp: copy_init_def)
  with assms read_prefix_Ok(1) [OF assms(1)] show ?thesis
    by (simp add: reality_accept_def fallback_def copy_bidirectional_with_limits_def)
qed

theorem reality_fallback_is_transparent_witness:
  "\<exists>st. reality_accept sample_reality_env sample_transport [Ok [0x47, 0x45, 0x54, 0x20, 0x2f]] =
       (Err FallbackHandled, [Dialled (lit ''a:443''), SentToDest [0x47, 0x45, 0x54, 0x20, 0x2f], Relayed st]) \<and> cp_sent_b st = [0x07]"
proof -
  let ?b = "[0x47, 0x45, 0x54, 0x20, 0x2f] :: bytes"
  have "read_client_hello_prefix [Ok ?b] = (Ok ?b, [])"
    by (rule read_prefix_at_once) (simp_all add: hello_needed_def idx_def)
  moreover have "verified_key sample_crypto sample_transport ?b = Ok None"
    by (simp add: verified_key_def parse_client_hello_def idx_def)
  moreover obtain n st where "copy_loop (rt_relay_limits sample_transport) (ren_events sample_reality_env)
      (copy_init (rt_relay_limits sample_transport) (ren_clock sample_reality_env)) = (Ok n, st)"
    by (simp add: sample_reality_env_def sample_transport_def copy_init_def reset_idle_def sleep_deadline_def elapsed_def
        instant_add_def INSTANT_MAX_def DURATION_MAX_def loop_of_def)
  ultimately show ?thesis
    using reality_fallback_is_transparent [of "[Ok ?b]" ?b "[]" sample_reality_env sample_transport "lit ''a:443''" n st]
    by (simp add: sample_reality_env_def sample_transport_def has_limits_def)
qed

end
