(* ===== verification/Startup.thy ===== *)
theory Startup
  imports Reality_Server Accept_Loop
begin

text \<open>
  Starting the server (\<open>run_server\<close> and \<open>run_server_with_store\<close> of
  \<open>crates/skadi-server/src/lib.rs\<close>): the configuration becomes listeners, an outbound transport, a
  limiter, a gate, an inbound transport and the tasks that are spawned. Sockets, the TLS
  libraries and the recorder of the counters are parameters.
\<close>

datatype ('c, 'k) inbound_kind = KindPlain | KindTls "('c, 'k) tls_transport" | KindReality reality_transport

record ('l, 'o, 'c, 'k) startup_env =
  ste_config :: config_env
  ste_bind :: "socket_addr \<Rightarrow> ('l, io_kind) outcome"
  ste_outbound_tls :: "duration \<Rightarrow> tls_client_config \<Rightarrow> bool \<Rightarrow> 'o checked"
  ste_outbound_plain :: "duration \<Rightarrow> bool \<Rightarrow> 'o"
  ste_impersonate :: impersonate_env
  ste_tls :: "('c, 'k) tls_lib"
  ste_recorder :: "unit checked"

text \<open>The tasks that run, and what they share.\<close>

record ('l, 'o, 'c, 'k) services =
  su_outbound_tcp :: 'o
  su_limiter :: "limiter option"
  su_limits :: relay_limits
  su_gate :: gate
  su_inbound :: "('c, 'k) inbound_kind"
  su_protocols :: enabled_protocols
  su_xhttp :: "xhttp_config option"
  su_api :: bool
  su_metrics :: bool
  su_awg :: "(awg_server \<times> awg_nat) option"
  su_hysteria2 :: "hysteria2_server option"
  su_tuic :: "tuic_server option"
  su_accept_loops :: "'l list"

fun listen_error_text :: "listen_error \<Rightarrow> rstring" where
  "listen_error_text (InvalidListenAddress a) = lit ''invalid listen address: '' @ a"
| "listen_error_text (BindFailed a k) = lit ''failed to bind '' @ a"

text \<open>Lines 110--137: the inbound transport. A certificate that cannot be fetched is only logged.\<close>

definition start_inbound :: "('l, 'o, 'c, 'k) startup_env \<Rightarrow> config \<Rightarrow> ('c, 'k) inbound_kind checked" where
  "start_inbound env c =
     (if re_enabled (tr_reality (cf_transport c)) then
        ebind (reality_server_config_of (ste_config env) c) (\<lambda>cfg.
        ebind (if rc_impersonate_cert cfg = None \<and> re_fetch_impersonate_cert (tr_reality (cf_transport c)) then
              (case fetch_impersonate_cert_from_dest (ste_impersonate env) (rc_dest cfg) of
                 Ok cert \<Rightarrow> Ok (cfg\<lparr>rc_impersonate_cert := Some cert\<rparr>)
               | Err e \<Rightarrow> Ok cfg
               | Panic \<Rightarrow> Panic
               | Pending \<Rightarrow> Pending)
            else Ok cfg) (\<lambda>cfg.
        ebind (reality_transport_new cfg) (\<lambda>r. Ok (KindReality r))))
      else if tl_enabled (tr_tls (cf_transport c)) then
        ebind (tls_server_config_of c) (\<lambda>cfg. ebind (map_err tls_error_text (tls_transport_new (ste_tls env) cfg)) (\<lambda>t. Ok (KindTls t)))
      else Ok KindPlain)"

definition start_optional :: "bool \<Rightarrow> 'a checked \<Rightarrow> 'a option checked" where
  "start_optional enabled m = (if enabled then ebind m (\<lambda>x. Ok (Some x)) else Ok None)"

text \<open>
  \<open>run_server_with_store\<close> up to the point where it waits for its tasks. The listeners are bound
  before anything else and dropped when there is no protocol to serve.
\<close>

definition run_server_with_store ::
  "('l, 'o, 'c, 'k) startup_env \<Rightarrow> config \<Rightarrow> ('l, 'o, 'c, 'k) services checked" where
  "run_server_with_store env c =
     (let t = cf_transport c in
      ebind (map_err listen_error_text (bind_listeners (ste_bind env) (srv_listen (cf_server c)))) (\<lambda>listeners.
      ebind (outbound_tcp_transport (ste_outbound_tls env) (ste_outbound_plain env) c) (\<lambda>outbound_tcp.
      let limiter = limiter_from_config (srv_auth_rate_limit (cf_server c));
          limits = \<lparr>rl_idle = idle_timeout c, rl_max_lifetime = max_session_lifetime c\<rparr>;
          conn_gate = gate_new (max_connections c) in
      ebind (start_inbound env c) (\<lambda>inbound.
      ebind (start_optional (xf_enabled (tr_xhttp t)) (xhttp_config_of c)) (\<lambda>xhttp.
      ebind (if mc_enabled (cf_metrics c) then ste_recorder env else Ok ()) (\<lambda>_.
      ebind (start_optional (af_enabled (tr_awg t)) (awg_server_config c)) (\<lambda>awg.
      ebind (start_optional (hf_enabled (tr_hysteria2 t)) (hysteria2_server_config c)) (\<lambda>hysteria2.
      ebind (start_optional (tf_enabled (tr_tuic t)) (tuic_server_config c)) (\<lambda>tuic.
      let protocols = config_enabled_protocols c;
          proxy_enabled = ep_socks5 protocols \<or> ep_vless protocols in
      Ok \<lparr>su_outbound_tcp = outbound_tcp, su_limiter = limiter, su_limits = limits, su_gate = conn_gate, su_inbound = inbound,
          su_protocols = protocols, su_xhttp = xhttp, su_api = apc_enabled (cf_api c), su_metrics = mc_enabled (cf_metrics c),
          su_awg = map_option (\<lambda>a. (a, awg_nat_config c)) awg, su_hysteria2 = hysteria2, su_tuic = tuic,
          su_accept_loops = (if proxy_enabled then listeners else [])\<rparr>)))))))))"

definition run_server :: "('l, 'o, 'c, 'k) startup_env \<Rightarrow> config \<Rightarrow> (store_state \<times> ('l, 'o, 'c, 'k) services) checked" where
  "run_server env c =
     (let store = store_from_protocol (cf_protocol c) in
      ebind (run_server_with_store env c) (\<lambda>su. Ok (store, su)))"

section \<open>Starting a checked configuration\<close>













section \<open>Properties\<close>




end
