(* ===== verification/Xhttp_Session.thy ===== *)
theory Xhttp_Session
  imports Stream_IO Xhttp_Config "HOL-Library.AList"
begin

text \<open>
  Sessions of the XHTTP server (\<open>crates/skadi-transport/src/xhttp/session.rs\<close>) and the two halves of
  its duplex stream (\<open>ChannelWriter\<close> and \<open>UploadReader\<close> of \<open>xhttp/common.rs\<close>), with the packet writer
  of the client (\<open>PacketUpWriter\<close> of \<open>xhttp/client.rs\<close>). A bounded channel is its queue, its capacity,
  and whether its receiver or all of its senders are gone.
\<close>

section \<open>Bounded channels\<close>

record chan =
  ch_queue :: "bytes list"
  ch_capacity :: nat
  ch_receiver :: bool
  ch_senders :: bool

definition mpsc_channel :: "nat \<Rightarrow> chan" where
  "mpsc_channel n = \<lparr>ch_queue = [], ch_capacity = n, ch_receiver = True, ch_senders = True\<rparr>"

datatype try_send_error = Full | SendClosed

definition try_send :: "bytes \<Rightarrow> chan \<Rightarrow> (unit, try_send_error) outcome \<times> chan" where
  "try_send x ch =
     (if \<not> ch_receiver ch then (Err SendClosed, ch)
      else if ch_capacity ch \<le> length (ch_queue ch) then (Err Full, ch)
      else (Ok (), ch\<lparr>ch_queue := ch_queue ch @ [x]\<rparr>))"

text \<open>\<open>send(x).await\<close>: waits for room.\<close>

definition chan_send :: "bytes \<Rightarrow> chan \<Rightarrow> (unit, try_send_error) outcome \<times> chan" where
  "chan_send x ch = (case try_send x ch of (Err Full, ch) \<Rightarrow> (Pending, ch) | r \<Rightarrow> r)"

definition poll_recv :: "chan \<Rightarrow> (bytes option, unit) outcome \<times> chan" where
  "poll_recv ch =
     (case ch_queue ch of
        x # xs \<Rightarrow> (Ok (Some x), ch\<lparr>ch_queue := xs\<rparr>)
      | [] \<Rightarrow> (if ch_senders ch then Pending else Ok None, ch))"

section \<open>Packets in sequence\<close>

record packet_state =
  ps_next_seq :: u64
  ps_pending :: "(u64 \<times> bytes) list"

definition packet_state_new :: packet_state where
  "packet_state_new = \<lparr>ps_next_seq = 0, ps_pending = []\<rparr>"

text \<open>The loop of \<open>push\<close>. The result of \<open>try_send\<close> is dropped.\<close>

function release_packets :: "packet_state \<Rightarrow> chan \<Rightarrow> packet_state \<times> chan" where
  "release_packets p ch =
     (case map_of (ps_pending p) (ps_next_seq p) of
        Some chunk \<Rightarrow>
          release_packets (p\<lparr>ps_pending := AList.delete (ps_next_seq p) (ps_pending p), ps_next_seq := ps_next_seq p + 1\<rparr>)
            (snd (try_send chunk ch))
      | None \<Rightarrow> (p, ch))"
  by pat_completeness auto
termination
  by (relation "measure (\<lambda>(p, ch). length (ps_pending p))")
    (auto simp: AList.delete_eq intro!: length_filter_less dest: map_of_SomeD)

declare release_packets.simps [simp del]

definition packet_push :: "u64 \<Rightarrow> bytes \<Rightarrow> packet_state \<Rightarrow> chan \<Rightarrow> packet_state \<times> chan" where
  "packet_push seq payload p ch =
     (if seq < ps_next_seq p then (p, ch)
      else release_packets (p\<lparr>ps_pending := AList.update seq payload (ps_pending p)\<rparr>) ch)"

section \<open>Sessions\<close>

definition UPLOAD_QUEUE_SIZE :: nat where "UPLOAD_QUEUE_SIZE = 256"

definition DEFAULT_MAX_POST_BYTES :: nat where "DEFAULT_MAX_POST_BYTES = 1000000"

text \<open>\<open>xs_rx_present\<close>: the receiver has not been taken yet. The queue of \<open>upload_tx\<close> and \<open>upload_rx\<close> is one.\<close>

record xhttp_session =
  xs_upload :: chan
  xs_rx_present :: bool
  xs_packets :: packet_state

definition xhttp_session_new :: xhttp_session where
  "xhttp_session_new = \<lparr>xs_upload = mpsc_channel UPLOAD_QUEUE_SIZE, xs_rx_present = True, xs_packets = packet_state_new\<rparr>"

definition take_upload_rx :: "xhttp_session \<Rightarrow> bool \<times> xhttp_session" where
  "take_upload_rx x = (xs_rx_present x, x\<lparr>xs_rx_present := False\<rparr>)"

definition push_packet :: "u64 \<Rightarrow> bytes \<Rightarrow> xhttp_session \<Rightarrow> xhttp_session" where
  "push_packet seq payload x =
     (case packet_push seq payload (xs_packets x) (xs_upload x) of (p, ch) \<Rightarrow> x\<lparr>xs_packets := p, xs_upload := ch\<rparr>)"

text \<open>
  \<open>attach_post_body\<close> for what the reads of the body return: \<open>Pending\<close> when the queue is full, with the
  reads that are left. Every read is at most 8192 bytes; a read error ends the loop like the end does.
\<close>

fun attach_post_body :: "(bytes, unit) outcome list \<Rightarrow> xhttp_session \<Rightarrow>
    (unit, unit) outcome \<times> (bytes, unit) outcome list \<times> xhttp_session" where
  "attach_post_body [] x = (Ok (), [], x)"
| "attach_post_body (Ok c # rs) x =
     (if c = [] then (Ok (), rs, x)
      else case chan_send c (xs_upload x) of
        (Pending, ch) \<Rightarrow> (Pending, Ok c # rs, x)
      | (r, ch) \<Rightarrow> attach_post_body rs (x\<lparr>xs_upload := ch\<rparr>))"
| "attach_post_body (Err e # rs) x = (Ok (), rs, x)"
| "attach_post_body (Panic # rs) x = (Panic, rs, x)"
| "attach_post_body (Pending # rs) x = (Pending, rs, x)"

text \<open>The registry: which session an id names; sessions live on while someone holds them.\<close>

record session_manager =
  sm_sessions :: "rstring \<Rightarrow> nat option"
  sm_heap :: "nat \<Rightarrow> xhttp_session"
  sm_next :: nat

definition manager_new :: session_manager where
  "manager_new = \<lparr>sm_sessions = (\<lambda>_. None), sm_heap = (\<lambda>_. xhttp_session_new), sm_next = 0\<rparr>"

definition get_or_create :: "rstring \<Rightarrow> session_manager \<Rightarrow> nat \<times> session_manager" where
  "get_or_create sid m =
     (case sm_sessions m sid of
        Some a \<Rightarrow> (a, m)
      | None \<Rightarrow> (sm_next m,
          m\<lparr>sm_sessions := (sm_sessions m)(sid \<mapsto> sm_next m), sm_heap := (sm_heap m)(sm_next m := xhttp_session_new),
            sm_next := Suc (sm_next m)\<rparr>))"

definition manager_remove :: "rstring \<Rightarrow> session_manager \<Rightarrow> session_manager" where
  "manager_remove sid m = m\<lparr>sm_sessions := (sm_sessions m)(sid := None)\<rparr>"

definition with_session :: "nat \<Rightarrow> (xhttp_session \<Rightarrow> xhttp_session) \<Rightarrow> session_manager \<Rightarrow> session_manager" where
  "with_session a f m = m\<lparr>sm_heap := (sm_heap m)(a := f (sm_heap m a))\<rparr>"

section \<open>The downlink writer\<close>

type_synonym channel_writer = bytes

definition writer_poll_flush :: "(channel_writer \<times> chan, unit, io_kind) io" where
  "writer_poll_flush st =
     (case st of (pending, ch) \<Rightarrow>
        if pending = [] then (Ok (), st)
        else case try_send pending ch of
          (Ok _, ch) \<Rightarrow> (Ok (), ([], ch))
        | (Err Full, ch) \<Rightarrow> (Pending, (pending, ch))
        | (_, ch) \<Rightarrow> (Err BrokenPipe, (pending, ch)))"

definition writer_poll_write :: "bytes \<Rightarrow> (channel_writer \<times> chan, nat, io_kind) io" where
  "writer_poll_write buf st =
     (if buf = [] then (Ok 0, st)
      else io_bind (if fst st \<noteq> [] then writer_poll_flush else io_lift (Ok ()))
        (\<lambda>_ st. case st of (pending, ch) \<Rightarrow>
           (case try_send buf ch of
              (Ok _, ch) \<Rightarrow> (Ok (length buf), (pending, ch))
            | (Err Full, ch) \<Rightarrow> (Pending, (pending @ buf, ch))
            | (_, ch) \<Rightarrow> (Err BrokenPipe, (pending, ch)))) st)"

definition writer_poll_shutdown :: "(channel_writer \<times> chan, unit, io_kind) io" where
  "writer_poll_shutdown = writer_poll_flush"

section \<open>The uplink reader\<close>

type_synonym upload_reader = bytes

definition upload_poll_read :: "nat \<Rightarrow> (upload_reader \<times> chan, bytes, io_kind) io" where
  "upload_poll_read cap st =
     (case st of (buf, ch) \<Rightarrow>
        if buf \<noteq> [] then (Ok (take cap buf), (drop cap buf, ch))
        else case poll_recv ch of
          (Ok (Some chunk), ch) \<Rightarrow> (Ok (take cap chunk), (drop cap chunk, ch))
        | (Ok None, ch) \<Rightarrow> (Ok [], (buf, ch))
        | (_, ch) \<Rightarrow> (Pending, (buf, ch)))"

section \<open>The packet writer of the client\<close>

type_synonym packet_up_writer = "bytes option"

definition packet_poll_write :: "bytes \<Rightarrow> (packet_up_writer \<times> chan, nat, io_kind) io" where
  "packet_poll_write buf st =
     (case st of (pending, ch) \<Rightarrow>
        if buf = [] then (Ok 0, st)
        else
          let chunk = (case pending of None \<Rightarrow> buf | Some c \<Rightarrow> c) in
          (case try_send chunk ch of
             (Ok _, ch) \<Rightarrow> (Ok (length chunk), (None, ch))
           | (Err Full, ch) \<Rightarrow> (Pending, (Some chunk, ch))
           | (_, ch) \<Rightarrow> (Err BrokenPipe, (Some chunk, ch))))"

definition packet_poll_flush :: "(packet_up_writer \<times> chan, unit, io_kind) io" where
  "packet_poll_flush st = (Ok (), st)"

definition packet_poll_shutdown :: "(packet_up_writer \<times> chan, unit, io_kind) io" where
  "packet_poll_shutdown st = (Ok (), st)"

section \<open>Packets come out in sequence\<close>























text \<open>
  With a full queue the next packet is removed from \<open>pending\<close>, counted and dropped: \<open>try_send\<close> fails and
  nobody looks at its result. Sending it again does not help, because its number is then in the past.
\<close>

lemma full_queue_drops_packet:
  assumes "ch_receiver ch" "length (ch_queue ch) = ch_capacity ch" "ps_pending p = []" "unat (ps_next_seq p) + 1 < 2 ^ 64"
  shows "packet_push (ps_next_seq p) payload p ch = (p\<lparr>ps_next_seq := ps_next_seq p + 1\<rparr>, ch) \<and>
    packet_push (ps_next_seq p) again (p\<lparr>ps_next_seq := ps_next_seq p + 1\<rparr>) ch = (p\<lparr>ps_next_seq := ps_next_seq p + 1\<rparr>, ch)"
proof -
  have "unat (ps_next_seq p + 1) = Suc (unat (ps_next_seq p))" using assms(4) by (simp add: unat_word_ariths)
  then have "ps_next_seq p < ps_next_seq p + 1" by (simp add: word_less_nat_alt)
  then show ?thesis using assms by (simp add: packet_push_def release_packets.simps try_send_def)
qed

section \<open>The reader and the writers\<close>

text \<open>What an \<open>UploadReader\<close> has still to deliver.\<close>

definition upload_rest :: "upload_reader \<times> chan \<Rightarrow> bytes" where
  "upload_rest st = (case st of (buf, ch) \<Rightarrow> buf @ concat (ch_queue ch))"

lemma upload_read_in_order:
  assumes "0 < cap" "[] \<notin> set (ch_queue ch)" "upload_poll_read cap (buf, ch) = (Ok out, (buf', ch'))"
  shows "upload_rest (buf, ch) = out @ upload_rest (buf', ch') \<and> length out \<le> cap \<and> set (ch_queue ch') \<subseteq> set (ch_queue ch) \<and>
    (out = [] \<longrightarrow> upload_rest (buf, ch) = [] \<and> \<not> ch_senders ch)"
proof (cases "buf = []")
  case True
  then show ?thesis using assms
    by (cases "ch_queue ch") (auto simp: upload_poll_read_def poll_recv_def upload_rest_def split: if_splits)
next
  case False
  then show ?thesis using assms by (auto simp: upload_poll_read_def upload_rest_def)
qed

text \<open>A packet with an empty body reads as the end of the uplink, whatever follows it.\<close>

lemma empty_packet_ends_uplink:
  "ch_queue ch = [] # rest \<Longrightarrow> upload_poll_read cap ([], ch) = (Ok [], ([], ch\<lparr>ch_queue := rest\<rparr>))"
  by (simp add: upload_poll_read_def poll_recv_def)

text \<open>
  A task that writes \<open>data\<close> polls, and polls with the same buffer again when it is woken; meanwhile the
  receiver takes \<open>k\<close> chunks.
\<close>

definition recv_chunks :: "nat \<Rightarrow> chan \<Rightarrow> chan" where
  "recv_chunks k ch = ch\<lparr>ch_queue := drop k (ch_queue ch)\<rparr>"

lemma packet_writer_once:
  assumes "data \<noteq> []" "ch_receiver ch" "length (ch_queue ch) = ch_capacity ch" "0 < k" "0 < ch_capacity ch"
  shows "packet_poll_write data (None, ch) = (Pending, (Some data, ch)) \<and>
    packet_poll_write data (Some data, recv_chunks k ch) =
      (Ok (length data), (None, ch\<lparr>ch_queue := drop k (ch_queue ch) @ [data]\<rparr>))"
  using assms by (auto simp: packet_poll_write_def try_send_def recv_chunks_def Let_def)

text \<open>C27: The downlink writer of the XHTTP server repeats data. When the response queue (64 chunks) is full, a write is kept in \<open>pending\<close> and the caller is told to try again; after the receiver has taken two chunks, the repeated write with the same data first flushes what was kept and then sends the data once more, and reports it written once. The client receives the data twice. (The writer of the client's packet-up mode, in the same situation, sends its data once.)\<close>

theorem channel_writer_repeats_data:
  assumes "data \<noteq> []" "ch_receiver ch" "length (ch_queue ch) = ch_capacity ch" "1 < k" "1 < ch_capacity ch"
  shows "writer_poll_write data ([], ch) = (Pending, (data, ch)) \<and>
    writer_poll_write data (data, recv_chunks k ch) =
      (Ok (length data), ([], ch\<lparr>ch_queue := drop k (ch_queue ch) @ [data, data]\<rparr>))"
proof -
  have first: "writer_poll_write data ([], ch) = (Pending, (data, ch))"
    using assms(1-3) by (simp add: writer_poll_write_def io_lift_def io_bind_def try_send_def)
  have flush: "writer_poll_flush (data, recv_chunks k ch) = (Ok (), ([], ch\<lparr>ch_queue := drop k (ch_queue ch) @ [data]\<rparr>))"
    using assms by (simp add: writer_poll_flush_def try_send_def recv_chunks_def)
  have "length (ch_queue ch) - k + 1 < ch_capacity ch" using assms(3-5) by linarith
  then have "writer_poll_write data (data, recv_chunks k ch) =
      (Ok (length data), ([], ch\<lparr>ch_queue := drop k (ch_queue ch) @ [data, data]\<rparr>))"
    using assms(1,2) flush by (simp add: writer_poll_write_def try_send_def)
  with first show ?thesis ..
qed

theorem channel_writer_repeats_data_witness:
  "writer_poll_write [1, 2] ([1, 2], recv_chunks 2 ((mpsc_channel 64)\<lparr>ch_queue := replicate 64 [0]\<rparr>)) =
     (Ok 2, ([], (mpsc_channel 64)\<lparr>ch_queue := replicate 62 [0] @ [[1, 2], [1, 2]]\<rparr>))"
  using channel_writer_repeats_data [of "[1, 2]" "(mpsc_channel 64)\<lparr>ch_queue := replicate 64 [0]\<rparr>" 2]
  by (simp add: mpsc_channel_def)

end
