(* ===== verification/Xhttp_Accept.thy ===== *)
theory Xhttp_Accept
  imports Xhttp_Session
begin

text \<open>
  The XHTTP server side: request metadata (\<open>crates/skadi-transport/src/xhttp/common.rs\<close>) and the
  handlers that turn requests into duplex streams (\<open>xhttp/accept.rs\<close>). HTTP itself is hyper's; a
  request is what hyper hands to the service, a response what the service returns.
\<close>

section \<open>Requests and responses\<close>

datatype http_method = GET | POST | OPTIONS | OtherMethod

text \<open>
  \<open>rq_host\<close> is the text of the Host header, empty when there is none or it is no text; a Referer that is
  no text is empty. The body is the frames it arrives in.
\<close>

type_synonym http_body = "(bytes, unit) outcome list"

record http_request =
  rq_method :: http_method
  rq_path :: rstring
  rq_host :: rstring
  rq_padding :: "bytes option"
  rq_referer :: "rstring option"
  rq_body :: http_body

datatype response_body = EmptyBody | MpscBody chan

record xhttp_response =
  rs_status :: nat
  rs_headers :: "(rstring \<times> rstring) list"
  rs_body :: response_body

definition trim_matches_char :: "u8 \<Rightarrow> rstring \<Rightarrow> rstring" where
  "trim_matches_char c s = trim_end_char c (trim_start_char c s)"

definition extract_meta :: "rstring \<Rightarrow> rstring \<Rightarrow> rstring \<times> rstring" where
  "extract_meta request_path base_path =
     (let suffix = (case strip_prefix request_path base_path of Some s \<Rightarrow> s | None \<Rightarrow> request_path);
          trimmed = trim_matches_char 0x2F suffix in
      if trimmed = [] then ([], [])
      else case split_on 0x2F trimmed of
        [] \<Rightarrow> ([], [])
      | [session] \<Rightarrow> (session, [])
      | session # seq # _ \<Rightarrow> (session, seq))"

definition padding_valid :: "http_request \<Rightarrow> bool" where
  "padding_valid req =
     (case rq_padding req of
        Some pad \<Rightarrow> 100 \<le> length pad \<and> length pad \<le> 1000
      | None \<Rightarrow>
          (case rq_referer req of
             Some s \<Rightarrow>
               (case str_find s (lit ''x_padding='') of
                  Some i \<Rightarrow>
                    let len = length (hd (split_on 0x26 (drop (i + length (lit ''x_padding='')) s))) in
                    100 \<le> len \<and> len \<le> 1000
                | None \<Rightarrow> True)
           | None \<Rightarrow> True))"

definition options_response :: xhttp_response where
  "options_response =
     \<lparr>rs_status = 200, rs_headers = [(lit ''access-control-allow-origin'', lit ''*'')], rs_body = EmptyBody\<rparr>"

definition error_response :: "nat \<Rightarrow> xhttp_response" where
  "error_response status = \<lparr>rs_status = status, rs_headers = [], rs_body = EmptyBody\<rparr>"

section \<open>Upgrades\<close>

text \<open>The reader of an upgraded stream: the body of the request, or the uplink queue of a session.\<close>

datatype xhttp_reader = BodyReader http_body | SessionReader nat

datatype xhttp_result = XUpgraded xhttp_reader chan | XPostHandled

datatype xhttp_error = Disconnected

text \<open>\<open>as_upgrade\<close> is what was sent over the one-shot channel; \<open>as_posts\<close> the spawned POST tasks.\<close>

record accept_state =
  as_manager :: session_manager
  as_upgrade :: "xhttp_result option"
  as_posts :: "(nat \<times> rstring \<times> http_body) list"

definition send_upgrade :: "xhttp_result \<Rightarrow> accept_state \<Rightarrow> accept_state" where
  "send_upgrade r st = (case as_upgrade st of None \<Rightarrow> st\<lparr>as_upgrade := Some r\<rparr> | Some _ \<Rightarrow> st)"

definition streaming_response :: "u32 \<Rightarrow> chan \<Rightarrow> padding_range \<Rightarrow> bool \<Rightarrow> xhttp_response" where
  "streaming_response random body_rx padding no_sse =
     (let pad_len = sample_len random padding in
      \<lparr>rs_status = 200,
       rs_headers =
         [(lit ''access-control-allow-origin'', lit ''*''), (lit ''x-accel-buffering'', lit ''no''),
          (lit ''cache-control'', lit ''no-store'')] @
         (if \<not> no_sse then [(lit ''content-type'', lit ''text/event-stream'')] else []) @
         (if pad_len > 0 then [(lit ''x-padding'', replicate pad_len 0x58)] else []),
       rs_body = MpscBody body_rx\<rparr>)"

section \<open>Handlers\<close>

definition handle_stream_one ::
  "u32 \<Rightarrow> http_request \<Rightarrow> xhttp_mode \<Rightarrow> padding_range \<Rightarrow> bool \<Rightarrow> accept_state \<Rightarrow> xhttp_response \<times> accept_state" where
  "handle_stream_one random req mode padding no_sse st =
     (if \<not> allows_stream_one mode then (error_response 400, st)
      else
        let body = mpsc_channel 64 in
        (streaming_response random body padding no_sse, send_upgrade (XUpgraded (BodyReader (rq_body req)) body) st))"

fun read_body_limited :: "nat \<Rightarrow> bytes \<Rightarrow> http_body \<Rightarrow> (bytes, nat) outcome" where
  "read_body_limited max_bytes out [] = Ok out"
| "read_body_limited max_bytes out (Ok chunk # rs) =
     (if length out + length chunk > max_bytes then Err 413 else read_body_limited max_bytes (out @ chunk) rs)"
| "read_body_limited max_bytes out (Err e # rs) = Err 400"
| "read_body_limited max_bytes out (Panic # rs) = Panic"
| "read_body_limited max_bytes out (Pending # rs) = read_body_limited max_bytes out rs"

definition handle_packet_up ::
  "http_request \<Rightarrow> xhttp_mode \<Rightarrow> rstring \<Rightarrow> rstring \<Rightarrow> accept_state \<Rightarrow> (xhttp_response, unit) outcome \<times> accept_state" where
  "handle_packet_up req mode session_id seq_str st =
     (if \<not> allows_packet_up mode then (Ok (error_response 400), st)
      else if rq_method req \<noteq> POST then (Ok (error_response 405), st)
      else case parse_u64 seq_str of
        None \<Rightarrow> (Ok (error_response 400), st)
      | Some seq \<Rightarrow>
          (case read_body_limited DEFAULT_MAX_POST_BYTES [] (rq_body req) of
             Ok payload \<Rightarrow>
               (case get_or_create session_id (as_manager st) of (a, m) \<Rightarrow>
                  (Ok \<lparr>rs_status = 200, rs_headers = [(lit ''cache-control'', lit ''no-store'')], rs_body = EmptyBody\<rparr>,
                   send_upgrade XPostHandled (st\<lparr>as_manager := with_session a (push_packet seq payload) m\<rparr>)))
           | Err status \<Rightarrow> (Ok (error_response status), st)
           | Panic \<Rightarrow> (Panic, st)
           | Pending \<Rightarrow> (Pending, st)))"

definition handle_stream_up ::
  "u32 \<Rightarrow> http_request \<Rightarrow> xhttp_mode \<Rightarrow> padding_range \<Rightarrow> bool \<Rightarrow> rstring \<Rightarrow> accept_state \<Rightarrow> xhttp_response \<times> accept_state" where
  "handle_stream_up random req mode padding no_sse session_id st =
     (case get_or_create session_id (as_manager st) of (a, m) \<Rightarrow>
        let st = st\<lparr>as_manager := m\<rparr> in
        (case rq_method req of
           GET \<Rightarrow>
             if \<not> allows_stream_up mode \<and> \<not> allows_packet_up mode then (error_response 400, st)
             else if \<not> fst (take_upload_rx (sm_heap m a)) then (error_response 409, st)
             else
               let body = mpsc_channel 64;
                   st = st\<lparr>as_manager := with_session a (\<lambda>x. snd (take_upload_rx x)) m\<rparr> in
               (streaming_response random body padding no_sse, send_upgrade (XUpgraded (SessionReader a) body) st)
         | POST \<Rightarrow>
             if \<not> allows_stream_up mode then (error_response 400, st)
             else
               (\<lparr>rs_status = 200,
                 rs_headers = [(lit ''x-accel-buffering'', lit ''no''), (lit ''cache-control'', lit ''no-store'')],
                 rs_body = EmptyBody\<rparr>,
                send_upgrade XPostHandled (st\<lparr>as_posts := as_posts st @ [(a, session_id, rq_body req)]\<rparr>))
         | _ \<Rightarrow> (error_response 405, st)))"

text \<open>The task a stream-up POST leaves behind, run until it finishes or waits for room or data.\<close>

definition run_post :: "nat \<times> rstring \<times> http_body \<Rightarrow> session_manager \<Rightarrow> (nat \<times> rstring \<times> http_body) option \<times> session_manager" where
  "run_post t m =
     (case t of (a, sid, body) \<Rightarrow>
        case attach_post_body body (sm_heap m a) of
          (Ok _, _, x) \<Rightarrow> (None, manager_remove sid (with_session a (\<lambda>_. x) m))
        | (_, rest, x) \<Rightarrow> (Some (a, sid, rest), with_session a (\<lambda>_. x) m))"

definition host_allowed :: "rstring option \<Rightarrow> rstring \<Rightarrow> bool" where
  "host_allowed host request_host =
     (case host of
        Some expected \<Rightarrow>
          if expected \<noteq> [] then
            eq_ignore_ascii_case request_host expected \<or>
            eq_ignore_ascii_case (hd (split_on 0x3A request_host)) expected
          else True
      | None \<Rightarrow> True)"

definition handle_request ::
  "u32 \<Rightarrow> http_request \<Rightarrow> rstring \<Rightarrow> rstring option \<Rightarrow> xhttp_mode \<Rightarrow> padding_range \<Rightarrow> bool \<Rightarrow> accept_state \<Rightarrow>
     (xhttp_response, unit) outcome \<times> accept_state" where
  "handle_request random req path host mode padding no_sse st =
     (if rq_method req = OPTIONS then (Ok options_response, st)
      else if \<not> starts_with (rq_path req) path then (Ok (error_response 404), st)
      else if \<not> host_allowed host (rq_host req) then (Ok (error_response 404), st)
      else if \<not> padding_valid req then (Ok (error_response 400), st)
      else case extract_meta (rq_path req) path of (session_id, seq) \<Rightarrow>
        if session_id = [] then apfst Ok (handle_stream_one random req mode padding no_sse st)
        else if seq \<noteq> [] then handle_packet_up req mode session_id seq st
        else apfst Ok (handle_stream_up random req mode padding no_sse session_id st))"

text \<open>The requests of a connection one after the other, with the random numbers of their paddings.\<close>

fun serve_requests :: "xhttp_config \<Rightarrow> (u32 \<times> http_request) list \<Rightarrow> accept_state \<Rightarrow> accept_state" where
  "serve_requests cfg [] st = st"
| "serve_requests cfg ((random, req) # rs) st =
     serve_requests cfg rs
       (snd (handle_request random req (normalized_path cfg) (xc_host cfg) (xc_mode cfg) (xc_padding cfg) (xc_no_sse_header cfg) st))"

definition accept_xhttp ::
  "xhttp_config \<Rightarrow> (u32 \<times> http_request) list \<Rightarrow> session_manager \<Rightarrow>
     (xhttp_result, xhttp_error) outcome \<times> accept_state" where
  "accept_xhttp cfg reqs m =
     (let st = serve_requests cfg reqs \<lparr>as_manager = m, as_upgrade = None, as_posts = []\<rparr> in
      (case as_upgrade st of Some r \<Rightarrow> Ok r | None \<Rightarrow> Err Disconnected, st))"

definition accept_stream_one ::
  "xhttp_config \<Rightarrow> (u32 \<times> http_request) list \<Rightarrow> (xhttp_reader \<times> chan, xhttp_error) outcome" where
  "accept_stream_one cfg reqs =
     ebind (fst (accept_xhttp cfg reqs manager_new)) (\<lambda>r.
       case r of XUpgraded reader writer \<Rightarrow> Ok (reader, writer) | XPostHandled \<Rightarrow> Err Disconnected)"

lemma host_allowed_matches: "host_allowed (xc_host cfg) h = host_matches cfg h"
  by (simp add: host_allowed_def host_matches_def split: option.split)

section \<open>Refused requests\<close>

lemma get_or_create_cases:
  obtains (Old) a where "sm_sessions m sid = Some a" "get_or_create sid m = (a, m)"
  | (New) "sm_sessions m sid = None" "get_or_create sid m = (sm_next m,
      m\<lparr>sm_sessions := (sm_sessions m)(sid \<mapsto> sm_next m), sm_heap := (sm_heap m)(sm_next m := xhttp_session_new),
        sm_next := Suc (sm_next m)\<rparr>)"
  by (cases "sm_sessions m sid") (auto simp: get_or_create_def)

lemma streaming_response_status [simp]: "rs_status (streaming_response random body padding no_sse) = 200"
  by (simp add: streaming_response_def Let_def)

lemma error_response_status [simp]: "rs_status (error_response n) = n"
  by (simp add: error_response_def)

lemma read_body_limited_Ok:
  "read_body_limited n out body = Ok payload \<Longrightarrow> \<exists>rest. payload = out @ rest \<and> (length out \<le> n \<longrightarrow> length payload \<le> n)"
  by (induction n out body rule: read_body_limited.induct) (auto split: if_splits)

lemma read_body_limited_Err: "read_body_limited n out body = Err e \<Longrightarrow> e \<in> {400, 413}"
  by (induction n out body rule: read_body_limited.induct) (auto split: if_splits)

lemma apfst_Ok [simp]: "apfst Ok x = (Ok r, s) \<longleftrightarrow> x = (r, s)"
  by (cases x) auto

definition registered :: "rstring \<Rightarrow> accept_state \<Rightarrow> accept_state" where
  "registered sid st = st\<lparr>as_manager := snd (get_or_create sid (as_manager st))\<rparr>"

lemma handle_stream_up_refused:
  "handle_stream_up random req mode padding no_sse sid st = (resp, st') \<Longrightarrow> rs_status resp \<noteq> 200 \<Longrightarrow> st' = registered sid st"
  by (cases "get_or_create sid (as_manager st)")
    (auto simp: handle_stream_up_def registered_def Let_def split: http_method.splits if_splits)

lemma handle_packet_up_refused:
  "handle_packet_up req mode sid seq st = (Ok resp, st') \<Longrightarrow> rs_status resp \<noteq> 200 \<Longrightarrow> st' = st"
  by (auto simp: handle_packet_up_def split: if_splits option.splits outcome.splits prod.splits)

lemma handle_stream_one_refused:
  "handle_stream_one random req mode padding no_sse st = (resp, st') \<Longrightarrow> rs_status resp \<noteq> 200 \<Longrightarrow> st' = st"
  by (auto simp: handle_stream_one_def Let_def split: if_splits)

text \<open>C26: A request that the XHTTP server refuses (wrong path, host, padding, method or mode, a sequence number that is no number, a body that is too long or breaks off, or a second GET) starts no session, upgrades nothing and leaves no task behind; the state is the one before. The only exception is a request with a session id and no sequence number: the session is looked up before the checks of its handler, so it may have been registered.\<close>

theorem refused_request_changes_nothing:
  assumes "handle_request random req path host mode padding no_sse st = (Ok resp, st')" "rs_status resp \<noteq> 200"
  shows "st' = st \<or>
    (\<exists>sid. extract_meta (rq_path req) path = (sid, []) \<and> sid \<noteq> [] \<and> st' = registered sid st)"
proof -
  obtain sid seq where meta: "extract_meta (rq_path req) path = (sid, seq)" by (cases "extract_meta (rq_path req) path")
  show ?thesis
    using assms meta handle_stream_up_refused [of random req mode padding no_sse sid st] handle_packet_up_refused [of req mode sid seq st]
      handle_stream_one_refused [of random req mode padding no_sse st]
    unfolding handle_request_def by (auto split: if_splits)
qed

definition sample_get :: http_request where
  "sample_get = \<lparr>rq_method = GET, rq_path = lit ''/x/abc'', rq_host = [], rq_padding = Some [0x58], rq_referer = None, rq_body = []\<rparr>"

definition empty_accept :: accept_state where
  "empty_accept = \<lparr>as_manager = manager_new, as_upgrade = None, as_posts = []\<rparr>"

theorem refused_request_changes_nothing_witness:
  "fst (handle_request 0 sample_get (lit ''/x'') None Auto padding_default False empty_accept) = Ok (error_response 400) \<and>
   (snd (handle_request 0 sample_get (lit ''/x'') None Auto padding_default False empty_accept) = empty_accept \<or>
    (\<exists>sid. extract_meta (rq_path sample_get) (lit ''/x'') = (sid, []) \<and> sid \<noteq> [] \<and>
      snd (handle_request 0 sample_get (lit ''/x'') None Auto padding_default False empty_accept) = registered sid empty_accept))"
proof -
  have run: "handle_request 0 sample_get (lit ''/x'') None Auto padding_default False empty_accept = (Ok (error_response 400), empty_accept)"
    by (simp add: handle_request_def sample_get_def host_allowed_def padding_valid_def lit_def)
  show ?thesis using refused_request_changes_nothing [OF run] by (simp add: run)
qed

text \<open>In packet-up mode a stream-up POST is refused, and the session it named stays registered.\<close>

lemma refused_post_registers_session:
  "rq_method req = POST \<Longrightarrow> sm_sessions (as_manager st) sid = None \<Longrightarrow>
     \<exists>st'. handle_stream_up random req PacketUp padding no_sse sid st = (error_response 400, st') \<and>
       sm_sessions (as_manager st') sid = Some (sm_next (as_manager st))"
  by (simp add: handle_stream_up_def get_or_create_def allows_stream_up_def)

section \<open>One reader per session\<close>

definition managed :: "session_manager \<Rightarrow> bool" where
  "managed m \<longleftrightarrow> (\<forall>sid a. sm_sessions m sid = Some a \<longrightarrow> a < sm_next m)"

text \<open>Nothing gives a taken receiver back.\<close>

definition later :: "session_manager \<Rightarrow> session_manager \<Rightarrow> bool" where
  "later m m' \<longleftrightarrow> sm_next m \<le> sm_next m' \<and>
     (\<forall>a < sm_next m. xs_rx_present (sm_heap m' a) \<longrightarrow> xs_rx_present (sm_heap m a))"

definition taken :: "nat \<Rightarrow> session_manager \<Rightarrow> bool" where
  "taken a m \<longleftrightarrow> a < sm_next m \<and> \<not> xs_rx_present (sm_heap m a)"

lemma later_refl [simp]: "later m m" by (simp add: later_def)

lemma later_trans: "later m m' \<Longrightarrow> later m' m'' \<Longrightarrow> later m m''"
  by (auto simp: later_def)

lemma taken_later: "taken a m \<Longrightarrow> later m m' \<Longrightarrow> taken a m'"
  by (auto simp: taken_def later_def)

lemma get_or_create_later:
  assumes "managed m" "get_or_create sid m = (a, m')"
  shows "managed m' \<and> later m m' \<and> a < sm_next m' \<and> (taken a m' \<longleftrightarrow> taken a m)"
  by (cases rule: get_or_create_cases [of m sid])
    (use assms in \<open>auto simp: managed_def later_def taken_def xhttp_session_new_def less_Suc_eq\<close>)

lemma with_session_later:
  "managed m \<Longrightarrow> (\<And>x. xs_rx_present (f x) \<Longrightarrow> xs_rx_present x) \<Longrightarrow> managed (with_session a f m) \<and> later m (with_session a f m)"
  by (auto simp: managed_def later_def with_session_def)

lemma push_packet_rx [simp]: "xs_rx_present (push_packet seq payload x) = xs_rx_present x"
  by (simp add: push_packet_def split: prod.split)

lemma attach_post_body_rx: "attach_post_body rs x = (r, rest, x') \<Longrightarrow> xs_rx_present x' = xs_rx_present x"
  by (induction rs x rule: attach_post_body.induct) (auto split: if_splits prod.splits outcome.splits)

text \<open>A handler's step, and what it may send over the one-shot channel.\<close>

definition handled :: "accept_state \<Rightarrow> accept_state \<Rightarrow> bool" where
  "handled st st' \<longleftrightarrow> managed (as_manager st') \<and> later (as_manager st) (as_manager st') \<and>
     (as_upgrade st' = as_upgrade st \<or>
      (\<forall>a w. as_upgrade st' = Some (XUpgraded (SessionReader a) w) \<longrightarrow>
         taken a (as_manager st') \<and> \<not> taken a (as_manager st)))"

lemma as_manager_send_upgrade [simp]: "as_manager (send_upgrade r st) = as_manager st"
  by (simp add: send_upgrade_def split: option.split)

lemma as_upgrade_send_upgrade: "as_upgrade (send_upgrade r st) = (case as_upgrade st of None \<Rightarrow> Some r | x \<Rightarrow> x)"
  by (simp add: send_upgrade_def split: option.split)

lemma fst_take_upload_rx: "fst (take_upload_rx x) = xs_rx_present x"
  by (simp add: take_upload_rx_def)

lemma handle_stream_up_handled:
  assumes "managed (as_manager st)"
  shows "handled st (snd (handle_stream_up random req mode padding no_sse sid st))"
proof -
  obtain a m where g: "get_or_create sid (as_manager st) = (a, m)" by (cases "get_or_create sid (as_manager st)")
  note facts = get_or_create_later [OF assms g]
  define m' where "m' = with_session a (\<lambda>x. snd (take_upload_rx x)) m"
  have m': "managed m'" "later m m'"
    unfolding m'_def using with_session_later [of m "\<lambda>x. snd (take_upload_rx x)" a] facts by (auto simp: take_upload_rx_def)
  have "xs_rx_present (sm_heap m a) \<Longrightarrow> taken a m' \<and> \<not> taken a (as_manager st)"
    using facts by (auto simp: taken_def m'_def with_session_def take_upload_rx_def)
  then show ?thesis
    using facts m' later_trans [of "as_manager st" m m']
    unfolding handle_stream_up_def g handled_def prod.case Let_def m'_def [symmetric]
    by (auto simp: as_upgrade_send_upgrade fst_take_upload_rx split: http_method.splits if_splits option.splits)
qed

lemma handle_packet_up_handled:
  assumes "managed (as_manager st)"
  shows "handled st (snd (handle_packet_up req mode sid seq st))"
proof -
  obtain a m where g: "get_or_create sid (as_manager st) = (a, m)" by (cases "get_or_create sid (as_manager st)")
  note facts = get_or_create_later [OF assms g]
  have "managed (with_session a (push_packet n payload) m) \<and> later (as_manager st) (with_session a (push_packet n payload) m)" for n payload
    using with_session_later [of m "push_packet n payload" a] facts later_trans by auto
  then show ?thesis
    using assms unfolding handle_packet_up_def g handled_def
    by (auto simp: as_upgrade_send_upgrade split: option.splits outcome.splits)
qed

lemma handle_request_handled:
  assumes "managed (as_manager st)"
  shows "handled st (snd (handle_request random req path host mode padding no_sse st))"
proof -
  have same: "handled st st" using assms by (simp add: handled_def)
  have one: "handled st (snd (handle_stream_one random req mode padding no_sse st))"
    using assms by (auto simp: handle_stream_one_def handled_def Let_def as_upgrade_send_upgrade split: option.split)
  show ?thesis
    using same one handle_packet_up_handled [OF assms] handle_stream_up_handled [OF assms]
    unfolding handle_request_def by (simp add: options_response_def split: prod.split)
qed

lemma handled_trans:
  assumes "handled st st1" "handled st1 st2"
  shows "handled st st2"
proof -
  have later: "later (as_manager st) (as_manager st2)" "managed (as_manager st2)"
    using assms later_trans unfolding handled_def by blast+
  have "taken a (as_manager st2) \<and> \<not> taken a (as_manager st)"
    if up: "as_upgrade st2 \<noteq> as_upgrade st" "as_upgrade st2 = Some (XUpgraded (SessionReader a) w)" for a w
  proof (cases "as_upgrade st2 = as_upgrade st1")
    case True
    with up assms(1) have "taken a (as_manager st1)" "\<not> taken a (as_manager st)" by (auto simp: handled_def)
    then show ?thesis using assms(2) taken_later unfolding handled_def by blast
  next
    case False
    with up assms(2) have "taken a (as_manager st2)" "\<not> taken a (as_manager st1)" by (auto simp: handled_def)
    then show ?thesis using assms(1) taken_later unfolding handled_def by blast
  qed
  with later show ?thesis unfolding handled_def by blast
qed

lemma serve_requests_handled:
  "managed (as_manager st) \<Longrightarrow> handled st (serve_requests cfg reqs st)"
proof (induction cfg reqs st rule: serve_requests.induct)
  case (2 cfg random req rs st)
  define st1 where "st1 = snd (handle_request random req (normalized_path cfg) (xc_host cfg) (xc_mode cfg) (xc_padding cfg)
      (xc_no_sse_header cfg) st)"
  have h1: "handled st st1" using handle_request_handled 2(2) by (simp add: st1_def)
  then have h2: "handled st1 (serve_requests cfg rs st1)" using 2(1) by (simp add: handled_def st1_def)
  have "handled st (serve_requests cfg rs st1)"
    using handled_trans [OF h1 h2] .
  then show ?case by (simp add: st1_def)
qed (simp add: handled_def)

text \<open>
  The server over time: connections come and go, the tasks of stream-up POSTs run, and readers take from
  the queues of their sessions. \<open>xv_readers\<close> lists the sessions whose uplink was given to a connection.
\<close>

record xhttp_server =
  xv_manager :: session_manager
  xv_posts :: "(nat \<times> rstring \<times> http_body) list"
  xv_readers :: "nat list"

definition xhttp_server_new :: xhttp_server where
  "xhttp_server_new = \<lparr>xv_manager = manager_new, xv_posts = [], xv_readers = []\<rparr>"

definition result_reader :: "(xhttp_result, xhttp_error) outcome \<Rightarrow> nat list" where
  "result_reader r = (case r of Ok (XUpgraded (SessionReader a) w) \<Rightarrow> [a] | _ \<Rightarrow> [])"

definition session_receive :: "xhttp_session \<Rightarrow> xhttp_session" where
  "session_receive x = x\<lparr>xs_upload := snd (poll_recv (xs_upload x))\<rparr>"

inductive xhttp_step :: "xhttp_config \<Rightarrow> xhttp_server \<Rightarrow> xhttp_server \<Rightarrow> bool" for cfg where
  connection:
    "accept_xhttp cfg reqs (xv_manager s) = (r, st) \<Longrightarrow>
       xhttp_step cfg s \<lparr>xv_manager = as_manager st, xv_posts = xv_posts s @ as_posts st, xv_readers = xv_readers s @ result_reader r\<rparr>"
| post:
    "xv_posts s = ts @ t # us \<Longrightarrow> run_post t (xv_manager s) = (t', m) \<Longrightarrow>
       xhttp_step cfg s (s\<lparr>xv_manager := m, xv_posts := ts @ (case t' of None \<Rightarrow> [] | Some t \<Rightarrow> [t]) @ us\<rparr>)"
| receive:
    "a \<in> set (xv_readers s) \<Longrightarrow> xhttp_step cfg s (s\<lparr>xv_manager := with_session a session_receive (xv_manager s)\<rparr>)"

inductive_cases xhttp_stepE: "xhttp_step cfg s s'"

definition xhttp_inv :: "xhttp_server \<Rightarrow> bool" where
  "xhttp_inv s \<longleftrightarrow> managed (xv_manager s) \<and> distinct (xv_readers s) \<and> (\<forall>a \<in> set (xv_readers s). taken a (xv_manager s))"

lemma accept_xhttp_reader:
  assumes "managed m" "accept_xhttp cfg reqs m = (r, st)"
  shows "managed (as_manager st) \<and> later m (as_manager st) \<and>
    (\<forall>a \<in> set (result_reader r). taken a (as_manager st) \<and> \<not> taken a m) \<and> distinct (result_reader r)"
proof -
  have h: "handled \<lparr>as_manager = m, as_upgrade = None, as_posts = []\<rparr> st"
    using serve_requests_handled [of "\<lparr>as_manager = m, as_upgrade = None, as_posts = []\<rparr>"] assms by (auto simp: accept_xhttp_def Let_def)
  have r: "r = (case as_upgrade st of Some x \<Rightarrow> Ok x | None \<Rightarrow> Err Disconnected)" using assms by (auto simp: accept_xhttp_def Let_def)
  show ?thesis
    using h unfolding handled_def r
    by (cases "as_upgrade st") (auto simp: result_reader_def split: xhttp_result.splits xhttp_reader.splits)
qed

lemma run_post_later:
  assumes "managed m" "run_post t m = (t', m')"
  shows "managed m' \<and> later m m'"
proof -
  obtain a sid body where t: "t = (a, sid, body)" by (cases t)
  obtain r rest x where run: "attach_post_body body (sm_heap m a) = (r, rest, x)" by (cases "attach_post_body body (sm_heap m a)")
  have "m' = manager_remove sid (with_session a (\<lambda>_. x) m) \<or> m' = with_session a (\<lambda>_. x) m"
    using assms(2) t run by (auto simp: run_post_def split: outcome.splits)
  then show ?thesis
    using assms(1) attach_post_body_rx [OF run] by (auto simp: managed_def later_def manager_remove_def with_session_def split: if_splits)
qed

lemma xhttp_step_inv: "xhttp_step cfg s s' \<Longrightarrow> xhttp_inv s \<Longrightarrow> xhttp_inv s'"
proof (induction rule: xhttp_step.induct)
  case (connection reqs s r st)
  then show ?case using accept_xhttp_reader [of "xv_manager s" cfg reqs r st] by (auto simp: xhttp_inv_def intro: taken_later)
next
  case (post s ts t us t' m)
  then show ?case using run_post_later [of "xv_manager s" t t' m] by (auto simp: xhttp_inv_def intro: taken_later)
next
  case (receive a s)
  then show ?case
    using with_session_later [of "xv_manager s" session_receive a]
    by (auto simp: xhttp_inv_def session_receive_def intro: taken_later)
qed

lemma xhttp_reachable_inv: "(xhttp_step cfg)\<^sup>*\<^sup>* xhttp_server_new s \<Longrightarrow> xhttp_inv s"
proof (induction rule: rtranclp_induct)
  case base
  then show ?case by (simp add: xhttp_inv_def xhttp_server_new_def manager_new_def managed_def)
qed (rule xhttp_step_inv)

text \<open>C25: The uplink of an XHTTP session is given to at most one connection. Whatever requests the connections send, in whatever order, while the tasks of earlier POSTs deliver into the queues and readers take from them, no session's queue ever gets a second reader: the data a client sends in a session cannot be split between two connections.\<close>

theorem session_has_one_reader:
  "(xhttp_step cfg)\<^sup>*\<^sup>* xhttp_server_new s \<Longrightarrow> distinct (xv_readers s)"
  using xhttp_reachable_inv by (auto simp: xhttp_inv_def)

definition open_get :: http_request where
  "open_get = \<lparr>rq_method = GET, rq_path = lit ''/x/abc'', rq_host = [], rq_padding = None, rq_referer = None, rq_body = []\<rparr>"

definition open_config :: xhttp_config where
  "open_config = \<lparr>xc_path = lit ''/x'', xc_host = None, xc_mode = Auto, xc_padding = padding_default, xc_no_sse_header = False\<rparr>"

theorem session_has_one_reader_witness:
  "\<exists>s. (xhttp_step open_config)\<^sup>*\<^sup>* xhttp_server_new s \<and> xv_readers s = [0] \<and> distinct (xv_readers s)"
proof -
  obtain r st where run: "accept_xhttp open_config [(0, open_get)] manager_new = (r, st)" by (cases "accept_xhttp open_config [(0, open_get)] manager_new")
  have r: "result_reader r = [0]"
  proof -
    have "normalized_path open_config = lit ''/x''" by (simp add: normalized_path_def open_config_def lit_def)
    moreover have "extract_meta (lit ''/x/abc'') (lit ''/x'') = (lit ''abc'', [])"
      by (simp add: extract_meta_def lit_def strip_prefix_def trim_matches_char_def trim_start_char_def trim_end_char_def)
    moreover have "handle_request 0 open_get (lit ''/x'') None Auto padding_default False empty_accept =
        apfst Ok (handle_stream_up 0 open_get Auto padding_default False (lit ''abc'') empty_accept)"
      using calculation(2) by (simp add: handle_request_def open_get_def host_allowed_def padding_valid_def) (simp add: lit_def)
    ultimately show ?thesis
      using run by (auto simp: accept_xhttp_def Let_def open_config_def empty_accept_def handle_stream_up_def open_get_def get_or_create_def
          manager_new_def allows_stream_up_def take_upload_rx_def xhttp_session_new_def send_upgrade_def with_session_def result_reader_def)
  qed
  have "(xhttp_step open_config)\<^sup>*\<^sup>* xhttp_server_new
      \<lparr>xv_manager = as_manager st, xv_posts = xv_posts xhttp_server_new @ as_posts st,
        xv_readers = xv_readers xhttp_server_new @ result_reader r\<rparr>"
    by (rule r_into_rtranclp, rule xhttp_step.connection [where reqs = "[(0, open_get)]"]) (simp add: xhttp_server_new_def run)
  then show ?thesis using session_has_one_reader r by (intro exI conjI) (auto simp: xhttp_server_new_def)
qed

end
