(* ===== verification/Xhttp_Chunked.thy ===== *)
theory Xhttp_Chunked
  imports Stream_IO Net_Text
begin

text \<open>
  The chunked transfer coding of the XHTTP client (\<open>crates/skadi-transport/src/xhttp/client.rs\<close>):
  \<open>ChunkedEncoder\<close> and \<open>ChunkedDecoder\<close> at the level of single polls. The stream below is a script
  of what its polls answer: how many bytes a write takes, which bytes a read finds, or that it is not
  ready. \<open>Pending\<close> is \<open>Poll::Pending\<close>.
\<close>

datatype xio_error = XIo io_kind | WriteZero

definition crlf :: bytes where "crlf = [0x0D, 0x0A]"

section \<open>The stream below\<close>

record sink =
  sk_written :: bytes
  sk_writes :: "(nat, io_kind) outcome list"
  sk_finishes :: "(unit, io_kind) outcome list"

definition sink_poll_write :: "bytes \<Rightarrow> (sink, nat, xio_error) io" where
  "sink_poll_write data s =
     (case sk_writes s of
        [] \<Rightarrow> (Pending, s)
      | Ok n # rs \<Rightarrow>
          let k = min n (length data) in (Ok k, s\<lparr>sk_written := sk_written s @ take k data, sk_writes := rs\<rparr>)
      | Err e # rs \<Rightarrow> (Err (XIo e), s\<lparr>sk_writes := rs\<rparr>)
      | Panic # rs \<Rightarrow> (Panic, s\<lparr>sk_writes := rs\<rparr>)
      | Pending # rs \<Rightarrow> (Pending, s\<lparr>sk_writes := rs\<rparr>))"

text \<open>\<open>poll_flush\<close> and \<open>poll_shutdown\<close> of the stream below.\<close>

definition sink_poll_finish :: "(sink, unit, xio_error) io" where
  "sink_poll_finish s =
     (case sk_finishes s of
        [] \<Rightarrow> (Pending, s)
      | r # rs \<Rightarrow> (map_err XIo r, s\<lparr>sk_finishes := rs\<rparr>))"

text \<open>A read of at most \<open>cap\<close> bytes; what does not fit stays. The empty chunk is the end of the stream.\<close>

type_synonym source = "(bytes, io_kind) outcome list"

definition source_poll_read :: "nat \<Rightarrow> (source, bytes, xio_error) io" where
  "source_poll_read cap src =
     (case src of
        [] \<Rightarrow> (Pending, [])
      | Ok c # rs \<Rightarrow> if length c \<le> cap then (Ok c, rs) else (Ok (take cap c), Ok (drop cap c) # rs)
      | Err e # rs \<Rightarrow> (Err (XIo e), rs)
      | Panic # rs \<Rightarrow> (Panic, rs)
      | Pending # rs \<Rightarrow> (Pending, rs))"

section \<open>Hexadecimal numbers\<close>

text \<open>\<open>usize::from_str_radix(_, 16)\<close>.\<close>

definition parse_hex_usize :: "rstring \<Rightarrow> nat option" where
  "parse_hex_usize s =
     (let digits = (if s \<noteq> [] \<and> hd s = 0x2B then tl s else s) in
      case read_number 16 (2 ^ 64) None True digits of
        Some (n, []) \<Rightarrow> Some n
      | _ \<Rightarrow> None)"

section \<open>Encoder\<close>

record chunked_encoder =
  ce_pending :: bytes
  ce_report :: nat
  ce_closing :: bool
  ce_closed :: bool

definition encoder_new :: chunked_encoder where
  "encoder_new = \<lparr>ce_pending = [], ce_report = 0, ce_closing = False, ce_closed = False\<rparr>"

text \<open>The loop of \<open>poll_write_pending\<close>: the result, what is left of \<open>pending\<close>, and the stream.\<close>

function write_pending :: "bytes \<Rightarrow> sink \<Rightarrow> (unit, xio_error) outcome \<times> bytes \<times> sink" where
  "write_pending pending s =
     (if pending = [] then (Ok (), [], s)
      else case sink_poll_write pending s of
        (Ok n, s) \<Rightarrow> if n = 0 then (Err WriteZero, pending, s) else write_pending (drop n pending) s
      | (Err e, s) \<Rightarrow> (Err e, pending, s)
      | (Panic, s) \<Rightarrow> (Panic, pending, s)
      | (Pending, s) \<Rightarrow> (Pending, pending, s))"
  by pat_completeness auto
termination
  by (relation "measure (\<lambda>(pending, s). length pending)") auto

declare write_pending.simps [simp del]

definition poll_write_pending :: "(chunked_encoder \<times> sink, unit, xio_error) io" where
  "poll_write_pending st =
     (case st of (enc, s) \<Rightarrow>
        case write_pending (ce_pending enc) s of (r, pending, s) \<Rightarrow> (r, (enc\<lparr>ce_pending := pending\<rparr>, s)))"

definition chunk_frame :: "bytes \<Rightarrow> bytes" where
  "chunk_frame buf = fmt_hex (length buf) @ crlf @ buf @ crlf"

definition encoder_poll_write :: "bytes \<Rightarrow> (chunked_encoder \<times> sink, nat, xio_error) io" where
  "encoder_poll_write buf st =
     (case st of (enc, s) \<Rightarrow>
        if ce_closed enc \<or> ce_closing enc then (Err (XIo BrokenPipe), st)
        else if buf = [] then (Ok 0, st)
        else
          let enc = (if ce_pending enc = [] then enc\<lparr>ce_pending := chunk_frame buf, ce_report := length buf\<rparr> else enc) in
          (case poll_write_pending (enc, s) of
             (Ok _, (enc, s)) \<Rightarrow> (Ok (ce_report enc), (enc\<lparr>ce_report := 0\<rparr>, s))
           | (Err e, st) \<Rightarrow> (Err e, st)
           | (Panic, st) \<Rightarrow> (Panic, st)
           | (Pending, st) \<Rightarrow> (Pending, st)))"

definition encoder_finish :: "(chunked_encoder \<times> sink, unit, xio_error) io" where
  "encoder_finish st = (case st of (enc, s) \<Rightarrow> case sink_poll_finish s of (r, s) \<Rightarrow> (r, (enc, s)))"

definition encoder_poll_flush :: "(chunked_encoder \<times> sink, unit, xio_error) io" where
  "encoder_poll_flush = io_bind poll_write_pending (\<lambda>_. encoder_finish)"

definition last_chunk :: bytes where "last_chunk = [0x30] @ crlf @ crlf"

definition start_closing :: "(chunked_encoder \<times> sink, unit, xio_error) io" where
  "start_closing st =
     (case st of (enc, s) \<Rightarrow> (Ok (), (enc\<lparr>ce_pending := last_chunk, ce_report := 0, ce_closing := True\<rparr>, s)))"

definition mark_closed :: "(chunked_encoder \<times> sink, unit, xio_error) io" where
  "mark_closed st = (case st of (enc, s) \<Rightarrow> (Ok (), (enc\<lparr>ce_closed := True\<rparr>, s)))"

definition encoder_poll_shutdown :: "(chunked_encoder \<times> sink, unit, xio_error) io" where
  "encoder_poll_shutdown st =
     (if ce_closed (fst st) then encoder_finish st
      else
        io_bind (if \<not> ce_closing (fst st) then io_bind poll_write_pending (\<lambda>_. start_closing) else io_lift (Ok ())) (\<lambda>_.
        io_bind poll_write_pending (\<lambda>_.
        io_bind mark_closed (\<lambda>_. encoder_finish))) st)"

section \<open>Decoder\<close>

datatype chunk_state = SizeLine | Data | DataCrlf

record chunked_decoder =
  cd_leftover :: bytes
  cd_remaining :: nat
  cd_state :: chunk_state
  cd_eof :: bool

definition decoder_new :: "bytes \<Rightarrow> chunked_decoder" where
  "decoder_new leftover = \<lparr>cd_leftover = leftover, cd_remaining = 0, cd_state = SizeLine, cd_eof = False\<rparr>"

text \<open>The size of a chunk from its line: the text before a semicolon, without surrounding space.\<close>

definition chunk_size :: "bytes \<Rightarrow> (nat, xio_error) outcome" where
  "chunk_size line =
     (if \<not> utf8_valid line then Err (XIo InvalidData)
      else case parse_hex_usize (trim (hd (split_on 0x3B line))) of
        Some n \<Rightarrow> Ok n
      | None \<Rightarrow> Err (XIo InvalidData))"

text \<open>The loop of \<open>poll_read\<close> for a buffer with \<open>cap\<close> free bytes; the bytes it puts there are the result.\<close>

fun src_size :: "source \<Rightarrow> nat" where
  "src_size [] = 0"
| "src_size (Ok c # rs) = Suc (length c + src_size rs)"
| "src_size (_ # rs) = Suc (src_size rs)"

lemma source_read_smaller:
  "source_poll_read cap src = (Ok c, src') \<Longrightarrow> c \<noteq> [] \<Longrightarrow> src_size src' < src_size src"
  by (auto simp: source_poll_read_def split: list.splits outcome.splits if_splits)

lemma str_find_prefix: "str_find s p = Some n \<Longrightarrow> \<exists>r. drop n s = p @ r \<and> n + length p \<le> length s"
proof (induction s arbitrary: n)
  case (Cons c s)
  then show ?case by (auto simp: starts_with_iff split: if_splits dest: arg_cong [of _ _ length])
qed (auto split: if_splits)

fun state_rank :: "chunk_state \<Rightarrow> nat" where
  "state_rank DataCrlf = 0"
| "state_rank Data = 1"
| "state_rank SizeLine = 2"

function decode_loop :: "nat \<Rightarrow> chunked_decoder \<Rightarrow> source \<Rightarrow> (bytes, xio_error) outcome \<times> chunked_decoder \<times> source" where
  "decode_loop cap d src =
     (case cd_state d of
        SizeLine \<Rightarrow>
          (case str_find (cd_leftover d) crlf of
             Some i \<Rightarrow>
               let line = take i (cd_leftover d); d = d\<lparr>cd_leftover := drop (i + 2) (cd_leftover d)\<rparr> in
               (case chunk_size line of
                  Ok len \<Rightarrow>
                    if len = 0 then (Ok [], d\<lparr>cd_eof := True\<rparr>, src)
                    else decode_loop cap (d\<lparr>cd_remaining := len, cd_state := Data\<rparr>) src
                | Err e \<Rightarrow> (Err e, d, src)
                | Panic \<Rightarrow> (Panic, d, src)
                | Pending \<Rightarrow> (Pending, d, src))
           | None \<Rightarrow>
               (case source_poll_read 128 src of
                  (Ok c, src) \<Rightarrow>
                    if c = [] then (Ok [], d\<lparr>cd_eof := True\<rparr>, src)
                    else decode_loop cap (d\<lparr>cd_leftover := cd_leftover d @ c\<rparr>) src
                | (Err e, src) \<Rightarrow> (Err e, d, src)
                | (Panic, src) \<Rightarrow> (Panic, d, src)
                | (Pending, src) \<Rightarrow> (Pending, d, src)))
      | Data \<Rightarrow>
          if cd_remaining d = 0 then decode_loop cap (d\<lparr>cd_state := DataCrlf\<rparr>) src
          else
            let n = min (min (cd_remaining d) cap) (length (cd_leftover d)); want = min (cd_remaining d) cap in
            if cd_leftover d \<noteq> [] \<and> n > 0 then
              (Ok (take n (cd_leftover d)),
               d\<lparr>cd_leftover := drop n (cd_leftover d), cd_remaining := cd_remaining d - n\<rparr>, src)
            else if want = 0 then (Ok [], d, src)
            else
              (case source_poll_read want src of
                 (Ok c, src) \<Rightarrow>
                   if c = [] then (Err (XIo UnexpectedEof), d, src)
                   else (Ok c, d\<lparr>cd_remaining := cd_remaining d - length c\<rparr>, src)
               | (Err e, src) \<Rightarrow> (Err e, d, src)
               | (Panic, src) \<Rightarrow> (Panic, d, src)
               | (Pending, src) \<Rightarrow> (Pending, d, src))
      | DataCrlf \<Rightarrow>
          if length (cd_leftover d) < 2 then
            (case source_poll_read 2 src of
               (Ok c, src) \<Rightarrow>
                 if c = [] then (Err (XIo UnexpectedEof), d, src)
                 else decode_loop cap (d\<lparr>cd_leftover := cd_leftover d @ c\<rparr>) src
             | (Err e, src) \<Rightarrow> (Err e, d, src)
             | (Panic, src) \<Rightarrow> (Panic, d, src)
             | (Pending, src) \<Rightarrow> (Pending, d, src))
          else if take 2 (cd_leftover d) \<noteq> crlf then (Err (XIo InvalidData), d, src)
          else decode_loop cap (d\<lparr>cd_leftover := drop 2 (cd_leftover d), cd_state := SizeLine\<rparr>) src)"
  by pat_completeness auto
termination
proof (relation "inv_image (less_than <*lex*> less_than <*lex*> less_than)
    (\<lambda>(cap, d, src). (src_size src, length (cd_leftover d), state_rank (cd_state d)))", goal_cases)
  case 1
  then show ?case by (intro wf_inv_image wf_lex_prod wf_less_than)
qed (auto simp: crlf_def dest!: sym [of _ "source_poll_read _ _"] dest: source_read_smaller str_find_prefix)

declare decode_loop.simps [simp del]

definition decoder_poll_read :: "nat \<Rightarrow> (chunked_decoder \<times> source, bytes, xio_error) io" where
  "decoder_poll_read cap st =
     (case st of (d, src) \<Rightarrow>
        if cd_eof d then (Ok [], st)
        else case decode_loop cap d src of (r, d, src) \<Rightarrow> (r, (d, src)))"

section \<open>The size line\<close>

definition plain :: "rstring \<Rightarrow> bool" where
  "plain s \<longleftrightarrow> list_all (\<lambda>b. b < 0x80 \<and> \<not> ws_ascii b) s"

lemma plain_simps [simp]: "plain []" "plain (b # s) \<longleftrightarrow> b < 0x80 \<and> \<not> ws_ascii b \<and> plain s" "plain (s @ t) \<longleftrightarrow> plain s \<and> plain t"
  "plain (rev s) \<longleftrightarrow> plain s"
  by (simp_all add: plain_def)

lemma ascii_not_wide: "a < 0x80 \<Longrightarrow> \<not> ws_two a b \<and> \<not> ws_two b a \<and> \<not> ws_three a b c \<and> \<not> ws_three c b a"
  by (auto simp: ws_two_def ws_three_def word_less_nat_alt word_le_nat_alt)

lemma trim_start_plain: "plain s \<Longrightarrow> trim_start s = s"
  by (cases s) (simp, simp only: trim_start.simps(1), simp add: ascii_not_wide del: trim_start.simps(1) split: list.split)

lemma trim_end_plain: "plain s \<Longrightarrow> trim_end_rev s = s"
  by (cases s) (simp, simp only: trim_end_rev.simps(1), simp add: ascii_not_wide del: trim_end_rev.simps(1) split: list.split)

lemma trim_plain: "plain s \<Longrightarrow> trim s = s"
  by (simp add: trim_def trim_start_plain trim_end_plain)

lemma less_16_cases: "n < 16 \<Longrightarrow> n \<in> {0, 1, 2, 3, 4, 5, 6, 7, 8, 9, 10, 11, 12, 13, 14, 15 :: nat}"
  by (simp add: numeral_eq_Suc less_Suc_eq)

lemma hex_digit_facts:
  "n < 16 \<Longrightarrow> to_digit 16 (hex_digit n) = Some n \<and> hex_digit n < 0x80 \<and> \<not> ws_ascii (hex_digit n) \<and>
     hex_digit n \<noteq> 0x3B \<and> hex_digit n \<noteq> 0x2B \<and> hex_digit n \<noteq> 0x0D"
  by (drule less_16_cases, elim insertE emptyE) (simp_all add: hex_digit_def to_digit_def ws_ascii_def)

fun hex_digits :: "nat \<Rightarrow> nat list" where
  "hex_digits n = (if n < 16 then [n] else hex_digits (n div 16) @ [n mod 16])"

declare hex_digits.simps [simp del]

lemma fmt_hex_digits: "fmt_hex n = map hex_digit (hex_digits n) \<and> list_all (\<lambda>d. d < 16) (hex_digits n) \<and> hex_digits n \<noteq> [] \<and>
    foldl (\<lambda>a d. a * 16 + d) 0 (hex_digits n) = n"
proof (induction n rule: hex_digits.induct)
  case (1 n)
  show ?case
  proof (cases "n < 16")
    case True
    then show ?thesis by (simp add: hex_digits.simps [of n] fmt_hex.simps [of n])
  next
    case False
    with 1 show ?thesis by (simp add: hex_digits.simps [of n] fmt_hex.simps [of n])
  qed
qed

lemma foldl_hex_mono: "a \<le> foldl (\<lambda>a d. a * 16 + d) a (ds :: nat list)"
proof (induction ds arbitrary: a)
  case (Cons d ds)
  have "a \<le> a * 16 + d" by simp
  also have "\<dots> \<le> foldl (\<lambda>a d. a * 16 + d) (a * 16 + d) ds" by (rule Cons)
  finally show ?case by simp
qed simp

lemma read_hex_digits:
  "list_all (\<lambda>d. d < 16) ds \<Longrightarrow> foldl (\<lambda>a d. a * 16 + d) acc ds < bound \<Longrightarrow>
     read_digits 16 bound None acc count (map hex_digit ds) = Some (foldl (\<lambda>a d. a * 16 + d) acc ds, count + length ds, [])"
proof (induction ds arbitrary: acc count)
  case (Cons d ds)
  have "acc * 16 + d < bound" using foldl_hex_mono [of "acc * 16 + d" ds] Cons.prems(2) by simp
  with Cons show ?case by (simp add: hex_digit_facts)
qed simp

lemma plain_fmt_hex: "plain (fmt_hex n) \<and> 0x3B \<notin> set (fmt_hex n) \<and> 0x0D \<notin> set (fmt_hex n) \<and> 0x2B \<notin> set (fmt_hex n) \<and> fmt_hex n \<noteq> []"
proof -
  have "b < 0x80 \<and> \<not> ws_ascii b \<and> b \<noteq> 0x3B \<and> b \<noteq> 0x0D \<and> b \<noteq> 0x2B" if "b \<in> set (fmt_hex n)" for b
    using that fmt_hex_digits [of n] hex_digit_facts by (auto simp: list_all_iff)
  then show ?thesis using fmt_hex_digits [of n] by (auto simp: plain_def list_all_iff)
qed

lemma parse_hex_fmt_hex: "n < 2 ^ 64 \<Longrightarrow> parse_hex_usize (fmt_hex n) = Some n"
proof -
  assume "n < 2 ^ 64"
  with fmt_hex_digits [of n] have "read_digits 16 (2 ^ 64) None 0 0 (fmt_hex n) = Some (n, length (hex_digits n), [])"
    using read_hex_digits [of "hex_digits n" 0 "2 ^ 64" 0] by simp
  moreover have "hd (fmt_hex n) \<noteq> 0x2B" "length (hex_digits n) \<noteq> 0"
    using plain_fmt_hex [of n] fmt_hex_digits [of n] hd_in_set [of "fmt_hex n"] by auto
  ultimately show ?thesis by (simp add: parse_hex_usize_def read_number_def)
qed

lemma split_on_none: "c \<notin> set s \<Longrightarrow> split_on c s = [s]"
  by (induction s) auto

lemma chunk_size_fmt_hex: "n < 2 ^ 64 \<Longrightarrow> chunk_size (fmt_hex n) = Ok n"
proof -
  assume n: "n < 2 ^ 64"
  have "utf8_valid (fmt_hex n)"
    using plain_fmt_hex [of n] by (intro ascii_utf8_valid) (auto simp: plain_def is_ascii_def list_all_iff)
  then show ?thesis
    using plain_fmt_hex [of n] parse_hex_fmt_hex [OF n] by (simp add: chunk_size_def split_on_none trim_plain)
qed

section \<open>The decoder reads what the encoder framed\<close>

text \<open>A body: its chunks in their frames, and the last chunk.\<close>

definition chunked_body :: "bytes list \<Rightarrow> bytes" where
  "chunked_body chunks = concat (map chunk_frame chunks) @ last_chunk"

definition body_chunks :: "bytes list \<Rightarrow> bool" where
  "body_chunks chunks \<longleftrightarrow> list_all (\<lambda>c. c \<noteq> [] \<and> length c < 2 ^ 64) chunks"

lemma chunked_body_Nil: "chunked_body [] = fmt_hex 0 @ crlf @ crlf"
  by (simp add: chunked_body_def last_chunk_def fmt_hex.simps hex_digit_def)

lemma chunked_body_Cons: "chunked_body (c # cs) = fmt_hex (length c) @ crlf @ c @ crlf @ chunked_body cs"
  by (simp add: chunked_body_def chunk_frame_def)

text \<open>A stream that is not at its end and has no error: bytes in pieces, and polls that find none.\<close>

fun feeding :: "source \<Rightarrow> bool" where
  "feeding [] \<longleftrightarrow> True"
| "feeding (Ok c # rs) \<longleftrightarrow> c \<noteq> [] \<and> feeding rs"
| "feeding (Pending # rs) \<longleftrightarrow> feeding rs"
| "feeding (_ # rs) \<longleftrightarrow> False"

fun source_bytes :: "source \<Rightarrow> bytes" where
  "source_bytes [] = []"
| "source_bytes (Ok c # rs) = c @ source_bytes rs"
| "source_bytes (_ # rs) = source_bytes rs"

lemma feeding_poll:
  assumes "feeding src" "0 < cap"
  obtains (Data) c src' where "source_poll_read cap src = (Ok c, src')" "c \<noteq> []" "length c \<le> cap" "feeding src'"
      "source_bytes src = c @ source_bytes src'" "length c + src_size src' \<le> src_size src"
  | (Wait) src' where "source_poll_read cap src = (Pending, src')" "feeding src'" "source_bytes src' = source_bytes src"
      "src = [] \<or> src_size src' < src_size src"
proof (cases src)
  case Nil
  then show ?thesis using Wait by (simp add: source_poll_read_def)
next
  case (Cons r rs)
  show ?thesis
  proof (cases r)
    case (Ok c)
    show ?thesis
      by (cases "length c \<le> cap") (use assms Cons Ok Data in \<open>auto simp: source_poll_read_def\<close>)
  qed (use assms Cons Wait in \<open>auto simp: source_poll_read_def\<close>)
qed

lemma str_find_line: "0x0D \<notin> set h \<Longrightarrow> str_find s crlf = Some i \<Longrightarrow> s @ t = h @ crlf @ w \<Longrightarrow> i = length h"
proof (induction h arbitrary: s i)
  case Nil
  show ?case
  proof (cases s)
    case (Cons a s')
    show ?thesis using Nil Cons by (cases s') (auto simp: crlf_def starts_with_iff split: if_splits)
  qed (use Nil in \<open>auto simp: crlf_def\<close>)
next
  case (Cons a h)
  then show ?case by (cases s) (auto simp: crlf_def starts_with_iff split: if_splits)
qed

lemma str_find_present: "0x0D \<notin> set h \<Longrightarrow> str_find (h @ crlf @ w) crlf = Some (length h)"
  by (induction h) (auto simp: crlf_def starts_with_iff)

fun expected :: "chunk_state \<Rightarrow> bytes \<Rightarrow> bytes list \<Rightarrow> bytes" where
  "expected SizeLine part chunks = chunked_body chunks"
| "expected Data part chunks = part @ crlf @ chunked_body chunks"
| "expected DataCrlf part chunks = crlf @ chunked_body chunks"

text \<open>The decoder and its stream hold the rest of a body: \<open>part\<close> of the current chunk, and further chunks.\<close>

definition decoding :: "chunked_decoder \<Rightarrow> source \<Rightarrow> bytes \<Rightarrow> bytes list \<Rightarrow> bytes \<Rightarrow> bool" where
  "decoding d src part chunks rest \<longleftrightarrow>
     \<not> cd_eof d \<and> feeding src \<and> body_chunks chunks \<and>
     cd_leftover d @ source_bytes src = expected (cd_state d) part chunks @ rest \<and>
     (if cd_state d = Data then cd_remaining d = length part else part = [])"

definition decoder_work :: "chunked_decoder \<Rightarrow> source \<Rightarrow> nat" where
  "decoder_work d src = src_size src + length (cd_leftover d)"

text \<open>What one poll may do: deliver the next bytes or wait, both with work done, or end when all is delivered.\<close>

definition delivers :: "nat \<Rightarrow> nat \<Rightarrow> bytes \<Rightarrow> bytes \<Rightarrow> (bytes, xio_error) outcome \<times> chunked_decoder \<times> source \<Rightarrow> bool" where
  "delivers cap work data rest res \<longleftrightarrow>
     (case res of (r, d, src) \<Rightarrow>
        (\<exists>out part chunks.
           decoding d src part chunks rest \<and> decoder_work d src < work \<and> data = out @ part @ concat chunks \<and>
           (r = Pending \<and> out = [] \<or> r = Ok out \<and> out \<noteq> [] \<and> length out \<le> cap)) \<or>
        r = Ok [] \<and> cd_eof d \<and> data = [])"

lemma delivers_mono: "delivers cap w data rest res \<Longrightarrow> w \<le> w' \<Longrightarrow> delivers cap w' data rest res"
proof -
  assume del: "delivers cap w data rest res" and w: "w \<le> w'"
  obtain r d src where res: "res = (r, d, src)" by (cases res)
  have "decoder_work d src < w \<Longrightarrow> decoder_work d src < w'" using w by simp
  with del show ?thesis unfolding res delivers_def prod.case by blast
qed

lemma delivers_Pending:
  "decoding d src part chunks rest \<Longrightarrow> decoder_work d src < w \<Longrightarrow> data = part @ concat chunks \<Longrightarrow>
     delivers cap w data rest (Pending, d, src)"
  unfolding delivers_def by auto

lemma delivers_Ok:
  "decoding d src part chunks rest \<Longrightarrow> decoder_work d src < w \<Longrightarrow> data = out @ part @ concat chunks \<Longrightarrow> out \<noteq> [] \<Longrightarrow>
     length out \<le> cap \<Longrightarrow> delivers cap w data rest (Ok out, d, src)"
  unfolding delivers_def by auto

lemma size_line_ready:
  assumes "decoding d src [] chunks rest" "cd_state d = SizeLine" "str_find (cd_leftover d) crlf = Some i"
  shows "take i (cd_leftover d) = fmt_hex (case chunks of [] \<Rightarrow> 0 | c # _ \<Rightarrow> length c)"
    and "drop (i + 2) (cd_leftover d) @ source_bytes src = (case chunks of [] \<Rightarrow> crlf | c # cs \<Rightarrow> c @ crlf @ chunked_body cs) @ rest"
    and "i + 2 \<le> length (cd_leftover d)"
proof -
  let ?h = "fmt_hex (case chunks of [] \<Rightarrow> 0 | c # _ \<Rightarrow> length c)"
  let ?w = "(case chunks of [] \<Rightarrow> crlf | c # cs \<Rightarrow> c @ crlf @ chunked_body cs) @ rest"
  have eq: "cd_leftover d @ source_bytes src = ?h @ crlf @ ?w"
    using assms by (cases chunks) (simp_all add: decoding_def chunked_body_Nil chunked_body_Cons)
  have i: "i = length ?h" using str_find_line [OF _ assms(3) eq] plain_fmt_hex by blast
  obtain r where "drop i (cd_leftover d) = crlf @ r" and len: "i + 2 \<le> length (cd_leftover d)"
    using str_find_prefix [OF assms(3)] by (auto simp: crlf_def)
  show "i + 2 \<le> length (cd_leftover d)" by (fact len)
  show "take i (cd_leftover d) = ?h" using arg_cong [OF eq, of "take i"] i len by simp
  show "drop (i + 2) (cd_leftover d) @ source_bytes src = ?w"
    using arg_cong [OF eq, of "drop (i + 2)"] i len by (simp add: crlf_def)
qed

lemma size_line_missing:
  assumes "decoding d src [] chunks rest" "cd_state d = SizeLine" "str_find (cd_leftover d) crlf = None"
  shows "src \<noteq> []"
proof
  assume "src = []"
  then have "cd_leftover d = fmt_hex (case chunks of [] \<Rightarrow> 0 | c # _ \<Rightarrow> length c) @ crlf @
      (case chunks of [] \<Rightarrow> crlf | c # cs \<Rightarrow> c @ crlf @ chunked_body cs) @ rest"
    using assms by (cases chunks) (simp_all add: decoding_def chunked_body_Nil chunked_body_Cons)
  with assms(3) show False using str_find_present plain_fmt_hex by (metis option.distinct(1))
qed

lemma decode_size_line:
  assumes dec: "decoding d src part chunks rest" and st: "cd_state d = SizeLine" and cap: "0 < cap"
    and found: "\<And>d' src' part' chunks'. decoding d' src' part' chunks' rest \<Longrightarrow>
      decoder_work d' src' \<le> decoder_work d src \<Longrightarrow> part' @ concat chunks' = part @ concat chunks \<Longrightarrow>
      decoder_work d' src' < decoder_work d src \<or> src_size src' < src_size src \<Longrightarrow>
      delivers cap (decoder_work d' src') (part @ concat chunks) rest (decode_loop cap d' src')"
  shows "delivers cap (decoder_work d src) (part @ concat chunks) rest (decode_loop cap d src)"
proof -
  have part: "part = []" using dec st by (simp add: decoding_def)
  show ?thesis
  proof (cases "str_find (cd_leftover d) crlf")
    case (Some i)
    note line = size_line_ready [OF dec [unfolded part] st Some]
    show ?thesis
    proof (cases chunks)
      case Nil
      with line(1) have "chunk_size (take i (cd_leftover d)) = Ok 0" by (simp add: chunk_size_fmt_hex)
      then show ?thesis
        using Nil part by (subst decode_loop.simps) (simp add: st Some Let_def delivers_def)
    next
      case (Cons c cs)
      let ?d = "d\<lparr>cd_leftover := drop (i + 2) (cd_leftover d), cd_remaining := length c, cd_state := Data\<rparr>"
      have c: "c \<noteq> []" "length c < 2 ^ 64" using dec Cons by (auto simp: decoding_def body_chunks_def)
      with line(1) Cons have "chunk_size (take i (cd_leftover d)) = Ok (length c)" by (simp add: chunk_size_fmt_hex)
      then have step: "decode_loop cap d src = decode_loop cap ?d src"
        using c by (subst decode_loop.simps) (simp add: st Some Let_def)
      have "decoding ?d src c cs rest"
        using dec Cons line(2) by (simp add: decoding_def body_chunks_def del: drop_append)
      then have "delivers cap (decoder_work ?d src) (part @ concat chunks) rest (decode_loop cap ?d src)"
        using Cons part line(3) by (intro found [of ?d src c cs]) (simp_all add: decoder_work_def)
      then show ?thesis unfolding step by (rule delivers_mono) (simp add: decoder_work_def)
    qed
  next
    case None
    have feeding: "feeding src" using dec by (simp add: decoding_def)
    show ?thesis
    proof (cases rule: feeding_poll [OF feeding, of 128])
      case (2 c src')
      let ?d = "d\<lparr>cd_leftover := cd_leftover d @ c\<rparr>"
      have step: "decode_loop cap d src = decode_loop cap ?d src'"
        using 2 by (subst decode_loop.simps) (simp add: st None)
      have dec': "decoding ?d src' part chunks rest" using dec 2 by (simp add: decoding_def)
      have work: "decoder_work ?d src' \<le> decoder_work d src" using 2 by (simp add: decoder_work_def)
      have smaller: "src_size src' < src_size src" by (rule source_read_smaller [OF 2(1,2)])
      have "delivers cap (decoder_work ?d src') (part @ concat chunks) rest (decode_loop cap ?d src')"
        by (rule found [OF dec' work]) (simp_all add: smaller)
      then show ?thesis unfolding step by (rule delivers_mono) (rule work)
    next
      case (3 src')
      have "src \<noteq> []" using size_line_missing dec part st None by blast
      with 3 dec st None show ?thesis
        by (subst decode_loop.simps) (auto simp: decoding_def decoder_work_def intro!: delivers_Pending [of _ _ part chunks])
    qed simp
  qed
qed

lemma decode_data:
  assumes dec: "decoding d src part chunks rest" and st: "cd_state d = Data" and cap: "0 < cap" and part: "part \<noteq> []"
  shows "delivers cap (decoder_work d src) (part @ concat chunks) rest (decode_loop cap d src)"
proof -
  have rem: "cd_remaining d = length part" and feeding: "feeding src"
    and eq: "cd_leftover d @ source_bytes src = part @ crlf @ chunked_body chunks @ rest"
    using dec st by (auto simp: decoding_def)
  show ?thesis
  proof (cases "cd_leftover d = []")
    case True
    have want: "0 < min (length part) cap" using cap part by simp
    show ?thesis
    proof (cases rule: feeding_poll [OF feeding want])
      case (1 c src')
      let ?d = "d\<lparr>cd_remaining := length part - length c\<rparr>"
      have step: "decode_loop cap d src = (Ok c, ?d, src')"
        using 1 True part cap by (subst decode_loop.simps) (simp add: st rem Let_def)
      have c: "c = take (length c) part" "source_bytes src' = drop (length c) part @ crlf @ chunked_body chunks @ rest"
        using eq True 1 by (auto simp: append_eq_append_conv_if)
      have "decoding ?d src' (drop (length c) part) chunks rest" using dec st 1 c True by (simp add: decoding_def)
      moreover have "decoder_work ?d src' < decoder_work d src" using 1 by (cases c) (auto simp: decoder_work_def)
      moreover have "part = c @ drop (length c) part" using c(1) by (metis append_take_drop_id)
      ultimately show ?thesis unfolding step using 1 by (intro delivers_Ok) auto
    next
      case (2 src')
      have "src \<noteq> []" using eq True part by auto
      with 2 have "decoder_work d src' < decoder_work d src" by (simp add: decoder_work_def)
      moreover have "decode_loop cap d src = (Pending, d, src')"
        using 2 True part cap by (subst decode_loop.simps) (simp add: st rem Let_def)
      moreover have "decoding d src' part chunks rest" using dec 2 by (simp add: decoding_def)
      ultimately show ?thesis by (simp add: delivers_Pending)
    qed
  next
    case False
    let ?n = "min (min (length part) cap) (length (cd_leftover d))"
    let ?d = "d\<lparr>cd_leftover := drop ?n (cd_leftover d), cd_remaining := length part - ?n\<rparr>"
    have n: "0 < ?n" using False part cap by simp
    have step: "decode_loop cap d src = (Ok (take ?n (cd_leftover d)), ?d, src)"
      using False n part by (subst decode_loop.simps) (simp add: st rem Let_def)
    have take: "take ?n (cd_leftover d) = take ?n part" using arg_cong [OF eq, of "take ?n"] by simp
    have drop: "drop ?n (cd_leftover d) @ source_bytes src = drop ?n part @ crlf @ chunked_body chunks @ rest"
      using arg_cong [OF eq, of "drop ?n"] by simp
    have "decoding ?d src (drop ?n part) chunks rest" using dec st drop by (simp add: decoding_def)
    moreover have "decoder_work ?d src < decoder_work d src" using n by (simp add: decoder_work_def)
    ultimately show ?thesis unfolding step using n take by (intro delivers_Ok) auto
  qed
qed

lemma decode_data_crlf:
  assumes dec: "decoding d src part chunks rest" and st: "cd_state d = DataCrlf"
    and cont: "\<And>d' src'. decoding d' src' part chunks rest \<Longrightarrow> decoder_work d' src' \<le> decoder_work d src \<Longrightarrow>
      decoder_work d' src' < decoder_work d src \<or> src_size src' < src_size src \<Longrightarrow>
      delivers cap (decoder_work d' src') (part @ concat chunks) rest (decode_loop cap d' src')"
  shows "delivers cap (decoder_work d src) (part @ concat chunks) rest (decode_loop cap d src)"
proof (cases "length (cd_leftover d) < 2")
  case True
  have feeding: "feeding src" using dec by (simp add: decoding_def)
  show ?thesis
  proof (cases rule: feeding_poll [OF feeding, of 2])
    case (2 c src')
    let ?d = "d\<lparr>cd_leftover := cd_leftover d @ c\<rparr>"
    have step: "decode_loop cap d src = decode_loop cap ?d src'"
      using 2 True by (subst decode_loop.simps) (simp add: st)
    have work: "decoder_work ?d src' \<le> decoder_work d src" using 2 by (simp add: decoder_work_def)
    have "delivers cap (decoder_work ?d src') (part @ concat chunks) rest (decode_loop cap ?d src')"
      using dec 2 source_read_smaller [OF 2(1,2)] by (intro cont work) (simp_all add: decoding_def)
    then show ?thesis unfolding step by (rule delivers_mono) (rule work)
  next
    case (3 src')
    have "src \<noteq> []" using dec st True by (auto simp: decoding_def crlf_def)
    with 3 dec st True show ?thesis
      by (subst decode_loop.simps) (auto simp: decoding_def decoder_work_def intro!: delivers_Pending [of _ _ part chunks])
  qed simp
next
  case False
  let ?d = "d\<lparr>cd_leftover := drop 2 (cd_leftover d), cd_state := SizeLine\<rparr>"
  have eq: "cd_leftover d @ source_bytes src = crlf @ chunked_body chunks @ rest" using dec st by (simp add: decoding_def)
  have take: "take 2 (cd_leftover d) = crlf" using arg_cong [OF eq, of "take 2"] False by (simp add: crlf_def)
  have drop: "drop 2 (cd_leftover d) @ source_bytes src = chunked_body chunks @ rest"
    using arg_cong [OF eq, of "drop 2"] False by (simp add: crlf_def)
  have step: "decode_loop cap d src = decode_loop cap ?d src" using False take by (subst decode_loop.simps) (simp add: st)
  have "delivers cap (decoder_work ?d src) (part @ concat chunks) rest (decode_loop cap ?d src)"
    using dec st drop False by (intro cont) (simp_all add: decoding_def decoder_work_def)
  then show ?thesis unfolding step by (rule delivers_mono) (simp add: decoder_work_def)
qed

lemma decode_loop_delivers:
  "decoding d src part chunks rest \<Longrightarrow> 0 < cap \<Longrightarrow>
     delivers cap (decoder_work d src) (part @ concat chunks) rest (decode_loop cap d src)"
proof (induction "(d, src)" arbitrary: d src part chunks
    rule: wf_induct [OF wf_inv_image [OF wf_lex_prod [OF wf_less_than wf_lex_prod [OF wf_less_than wf_less_than]],
      of "\<lambda>(d, src). (decoder_work d src, src_size src, state_rank (cd_state d))"]])
  case 1
  have IH: "delivers cap (decoder_work d' src') (part' @ concat chunks') rest (decode_loop cap d' src')"
    if "decoding d' src' part' chunks' rest" "decoder_work d' src' \<le> decoder_work d src"
      "decoder_work d' src' < decoder_work d src \<or> src_size src' < src_size src \<or>
       src' = src \<and> state_rank (cd_state d') < state_rank (cd_state d)" for d' src' part' chunks'
    using 1 that by (auto simp: le_less)
  show ?case
  proof (cases "cd_state d")
    case SizeLine
    then show ?thesis
      by (rule decode_size_line [OF 1(2) _ 1(3)]) (metis IH)
  next
    case Data
    show ?thesis
    proof (cases "part = []")
      case True
      let ?d = "d\<lparr>cd_state := DataCrlf\<rparr>"
      have "cd_remaining d = 0" using 1 Data True by (simp add: decoding_def)
      then have step: "decode_loop cap d src = decode_loop cap ?d src" by (subst decode_loop.simps) (simp add: Data)
      have "delivers cap (decoder_work ?d src) (part @ concat chunks) rest (decode_loop cap ?d src)"
        using 1 Data True by (intro IH) (simp_all add: decoding_def decoder_work_def)
      then show ?thesis unfolding step by (rule delivers_mono) (simp add: decoder_work_def)
    qed (use 1 Data in \<open>intro decode_data\<close>)
  next
    case DataCrlf
    then show ?thesis by (rule decode_data_crlf [OF 1(2)]) (metis IH)
  qed
qed

text \<open>A reader that polls until the end, at most \<open>fuel\<close> times, and keeps what it gets.\<close>

fun read_to_end :: "nat \<Rightarrow> nat \<Rightarrow> chunked_decoder \<times> source \<Rightarrow> (bytes, xio_error) outcome" where
  "read_to_end 0 cap st = Pending"
| "read_to_end (Suc fuel) cap st =
     (case decoder_poll_read cap st of
        (Ok c, st) \<Rightarrow> if c = [] then Ok [] else ebind (read_to_end fuel cap st) (\<lambda>cs. Ok (c @ cs))
      | (Err e, st) \<Rightarrow> Err e
      | (Panic, st) \<Rightarrow> Panic
      | (Pending, st) \<Rightarrow> read_to_end fuel cap st)"

lemma read_to_end_decoding:
  "decoding d src part chunks rest \<Longrightarrow> 0 < cap \<Longrightarrow> decoder_work d src < fuel \<Longrightarrow>
     read_to_end fuel cap (d, src) = Ok (part @ concat chunks)"
proof (induction fuel arbitrary: d src part chunks)
  case (Suc fuel)
  obtain r d' src' where res: "decode_loop cap d src = (r, d', src')" by (cases "decode_loop cap d src") auto
  have eof: "\<not> cd_eof d" using Suc.prems(1) by (simp add: decoding_def)
  have "delivers cap (decoder_work d src) (part @ concat chunks) rest (r, d', src')"
    using decode_loop_delivers [OF Suc.prems(1,2)] res by simp
  then consider (More) out part' chunks' where "decoding d' src' part' chunks' rest" "decoder_work d' src' < decoder_work d src"
      "part @ concat chunks = out @ part' @ concat chunks'" "r = Pending \<and> out = [] \<or> r = Ok out \<and> out \<noteq> []"
    | (End) "r = Ok []" "part @ concat chunks = []"
    unfolding delivers_def by auto
  then show ?case
  proof cases
    case More
    with Suc.IH [OF More(1) Suc.prems(2)] Suc.prems(3) have "read_to_end fuel cap (d', src') = Ok (part' @ concat chunks')" by simp
    with More show ?thesis by (auto simp: decoder_poll_read_def eof res)
  next
    case End
    then show ?thesis by (simp add: decoder_poll_read_def eof res)
  qed
qed simp

section \<open>The encoder writes every frame once\<close>

text \<open>A stream that takes at least a byte whenever it is ready.\<close>

definition accepting :: "sink \<Rightarrow> bool" where
  "accepting s \<longleftrightarrow> list_all (\<lambda>r. case r of Ok n \<Rightarrow> 0 < n | Pending \<Rightarrow> True | _ \<Rightarrow> False) (sk_writes s)"

definition ready_polls :: "sink \<Rightarrow> nat" where
  "ready_polls s = length (filter (\<lambda>r. r \<noteq> Pending) (sk_writes s))"

lemma write_pending_accepting:
  "accepting s \<Longrightarrow> length pending \<le> ready_polls s \<Longrightarrow> write_pending pending s = (r, pending', s') \<Longrightarrow>
     accepting s' \<and> sk_finishes s' = sk_finishes s \<and> sk_written s' @ pending' = sk_written s @ pending \<and>
     ready_polls s - length pending \<le> ready_polls s' - length pending' \<and> length pending' \<le> ready_polls s' \<and>
     length (sk_writes s') \<le> length (sk_writes s) \<and>
     (r = Ok () \<and> pending' = [] \<or> r = Pending \<and> pending' \<noteq> [] \<and> length (sk_writes s') < length (sk_writes s))"
proof (induction pending s rule: write_pending.induct)
  case (1 pending s)
  show ?case
  proof (cases "pending = []")
    case True
    then show ?thesis using 1 by (simp add: write_pending.simps)
  next
    case False
    then obtain x xs where w: "sk_writes s = x # xs" using 1(3) by (cases "sk_writes s") (auto simp: ready_polls_def)
    show ?thesis
    proof (cases x)
      case (Ok n)
      define k where "k = min n (length pending)"
      define s1 where "s1 = s\<lparr>sk_written := sk_written s @ take k pending, sk_writes := xs\<rparr>"
      have poll: "sink_poll_write pending s = (Ok k, s1)" using w Ok by (simp add: sink_poll_write_def Let_def k_def s1_def)
      have n: "0 < n" "accepting s1" using 1(2) w Ok by (auto simp: accepting_def s1_def)
      have k: "k \<noteq> 0" "k \<le> length pending" using n False by (auto simp: k_def)
      have rest: "write_pending (drop k pending) s1 = (r, pending', s')"
        using 1(4) poll False k by (simp add: write_pending.simps [of pending s])
      have ready: "ready_polls s = Suc (ready_polls s1)" "length (sk_writes s) = Suc (length (sk_writes s1))"
        "sk_written s1 @ drop k pending = sk_written s @ pending" "sk_finishes s1 = sk_finishes s"
        using w Ok by (simp_all add: ready_polls_def s1_def)
      have len: "length (drop k pending) \<le> ready_polls s1" using 1(3) ready k by simp
      show ?thesis using 1(1) [OF False poll [symmetric] refl k(1) n(2) len rest] ready k by auto
    qed (use 1(2-4) w False in \<open>auto simp: accepting_def ready_polls_def sink_poll_write_def write_pending.simps [of pending]\<close>)
  qed
qed

text \<open>\<open>write_all\<close>: the task polls again when it is woken after \<open>Pending\<close>.\<close>

fun encoder_write_all :: "nat \<Rightarrow> bytes \<Rightarrow> chunked_encoder \<times> sink \<Rightarrow> (unit, xio_error) outcome \<times> chunked_encoder \<times> sink" where
  "encoder_write_all 0 data st = (Pending, st)"
| "encoder_write_all (Suc fuel) data st =
     (if data = [] then (Ok (), st)
      else case encoder_poll_write data st of
        (Ok n, st) \<Rightarrow> if n = 0 then (Err WriteZero, st) else encoder_write_all fuel (drop n data) st
      | (Err e, st) \<Rightarrow> (Err e, st)
      | (Panic, st) \<Rightarrow> (Panic, st)
      | (Pending, st) \<Rightarrow> encoder_write_all fuel data st)"

fun encoder_close :: "nat \<Rightarrow> chunked_encoder \<times> sink \<Rightarrow> (unit, xio_error) outcome \<times> chunked_encoder \<times> sink" where
  "encoder_close 0 st = (Pending, st)"
| "encoder_close (Suc fuel) st =
     (case encoder_poll_shutdown st of
        (Pending, st) \<Rightarrow> encoder_close fuel st
      | (r, st) \<Rightarrow> (r, st))"

text \<open>Writes each buffer whole, then shuts the body down.\<close>

fun encode_body :: "nat \<Rightarrow> bytes list \<Rightarrow> chunked_encoder \<times> sink \<Rightarrow> (unit, xio_error) outcome \<times> chunked_encoder \<times> sink" where
  "encode_body fuel [] st = encoder_close fuel st"
| "encode_body fuel (b # bs) st =
     (case encoder_write_all fuel b st of
        (Ok _, st) \<Rightarrow> encode_body fuel bs st
      | (r, st) \<Rightarrow> (r, st))"

definition idle :: "chunked_encoder \<Rightarrow> bool" where
  "idle enc \<longleftrightarrow> ce_pending enc = [] \<and> \<not> ce_closing enc \<and> \<not> ce_closed enc"

definition partial_write :: "bytes \<Rightarrow> chunked_encoder \<Rightarrow> bytes \<Rightarrow> bool" where
  "partial_write data enc todo \<longleftrightarrow> \<not> ce_closing enc \<and> \<not> ce_closed enc \<and>
     (if ce_pending enc = [] then todo = chunk_frame data else todo = ce_pending enc \<and> ce_report enc = length data)"

lemma encoder_poll_write_step:
  assumes "data \<noteq> []" "partial_write data enc todo" "accepting s" "length todo \<le> ready_polls s"
  obtains (Done) enc' s' where "encoder_poll_write data (enc, s) = (Ok (length data), (enc', s'))" "idle enc'"
      "accepting s'" "sk_finishes s' = sk_finishes s" "sk_written s' = sk_written s @ todo"
      "ready_polls s - length todo \<le> ready_polls s'" "length (sk_writes s') \<le> length (sk_writes s)"
  | (Wait) enc' s' todo' where "encoder_poll_write data (enc, s) = (Pending, (enc', s'))" "partial_write data enc' todo'"
      "accepting s'" "sk_finishes s' = sk_finishes s" "sk_written s' @ todo' = sk_written s @ todo"
      "ready_polls s - length todo \<le> ready_polls s' - length todo'" "length todo' \<le> ready_polls s'"
      "length (sk_writes s') < length (sk_writes s)"
proof -
  define e0 where "e0 = (if ce_pending enc = [] then enc\<lparr>ce_pending := chunk_frame data, ce_report := length data\<rparr> else enc)"
  have e: "ce_pending e0 = todo" "ce_report e0 = length data" "\<not> ce_closing e0" "\<not> ce_closed e0"
    and open_enc: "\<not> ce_closing enc" "\<not> ce_closed enc"
    using assms(2) by (auto simp: partial_write_def e0_def split: if_splits)
  obtain r pending' s' where w: "write_pending todo s = (r, pending', s')" by (cases "write_pending todo s") auto
  note facts = write_pending_accepting [OF assms(3,4) w]
  have poll: "poll_write_pending (e0, s) = (r, (e0\<lparr>ce_pending := pending'\<rparr>, s'))"
    using w e(1) by (simp add: poll_write_pending_def)
  show ?thesis
  proof (cases "r = Ok ()")
    case True
    with poll have "encoder_poll_write data (enc, s) = (Ok (length data), (e0\<lparr>ce_pending := pending', ce_report := 0\<rparr>, s'))"
      unfolding encoder_poll_write_def Let_def using assms(1) open_enc e(2) by (simp flip: e0_def)
    then show ?thesis by (rule Done) (use facts True e in \<open>auto simp: idle_def\<close>)
  next
    case False
    with facts poll have "encoder_poll_write data (enc, s) = (Pending, (e0\<lparr>ce_pending := pending'\<rparr>, s'))"
      unfolding encoder_poll_write_def Let_def using assms(1) open_enc by (simp flip: e0_def)
    then show ?thesis by (rule Wait [of _ _ pending']) (use facts False e in \<open>auto simp: partial_write_def\<close>)
  qed
qed

lemma encoder_write_all_partial:
  "partial_write data enc todo \<Longrightarrow> data \<noteq> [] \<Longrightarrow> accepting s \<Longrightarrow> length todo \<le> ready_polls s \<Longrightarrow>
     length (sk_writes s) + 2 \<le> fuel \<Longrightarrow>
     \<exists>enc' s'. encoder_write_all fuel data (enc, s) = (Ok (), (enc', s')) \<and> idle enc' \<and> accepting s' \<and>
       sk_finishes s' = sk_finishes s \<and> sk_written s' = sk_written s @ todo \<and>
       ready_polls s - length todo \<le> ready_polls s' \<and> length (sk_writes s') \<le> length (sk_writes s)"
proof (induction fuel arbitrary: enc s todo)
  case (Suc fuel)
  show ?case
  proof (cases rule: encoder_poll_write_step [OF Suc.prems(2,1,3,4)])
    case (1 enc' s')
    moreover have "encoder_write_all fuel [] (enc', s') = (Ok (), (enc', s'))"
      using Suc.prems(5) by (cases fuel) auto
    ultimately show ?thesis using Suc.prems(2) by simp
  next
    case (2 enc' s' todo')
    have "length (sk_writes s') + 2 \<le> fuel" using 2(8) Suc.prems(5) by simp
    from Suc.IH [OF 2(2) Suc.prems(2) 2(3) 2(7) this] show ?thesis using Suc.prems(2) 2 by fastforce
  qed
qed simp

lemma idle_partial: "idle enc \<Longrightarrow> partial_write data enc (chunk_frame data)"
  by (simp add: idle_def partial_write_def)

fun finishing :: "(unit, io_kind) outcome list \<Rightarrow> bool" where
  "finishing (Ok _ # _) \<longleftrightarrow> True"
| "finishing (Pending # rs) \<longleftrightarrow> finishing rs"
| "finishing _ \<longleftrightarrow> False"

definition shutting :: "chunked_encoder \<Rightarrow> bytes \<Rightarrow> bool" where
  "shutting enc todo \<longleftrightarrow>
     (if ce_closed enc then todo = []
      else if ce_closing enc then ce_pending enc = todo
      else ce_pending enc = [] \<and> todo = last_chunk)"

lemma encoder_finish_finishing:
  assumes "finishing (sk_finishes s)"
  obtains (Done) s' where "encoder_finish (enc, s) = (Ok (), (enc, s'))" "sk_written s' = sk_written s"
  | (Wait) s' where "encoder_finish (enc, s) = (Pending, (enc, s'))" "sk_written s' = sk_written s" "finishing (sk_finishes s')"
      "sk_writes s' = sk_writes s" "length (sk_finishes s') < length (sk_finishes s)"
proof (cases "sk_finishes s")
  case Nil
  then show ?thesis using assms by simp
next
  case (Cons r rs)
  show ?thesis
    by (cases r) (use assms Cons Done Wait in \<open>simp_all add: encoder_finish_def sink_poll_finish_def\<close>)
qed

lemma encoder_poll_shutdown_closing:
  assumes "shutting enc todo" "\<not> ce_closed enc" "write_pending todo s = (r, pending, s')"
  obtains enc' where "shutting enc' pending" "ce_closing enc'"
    "encoder_poll_shutdown (enc, s) =
       (case r of Ok _ \<Rightarrow> encoder_finish (enc'\<lparr>ce_closed := True\<rparr>, s') | Err e \<Rightarrow> (Err e, (enc', s'))
        | Panic \<Rightarrow> (Panic, (enc', s')) | Pending \<Rightarrow> (Pending, (enc', s')))"
proof -
  define e0 where "e0 = (if ce_closing enc then enc else enc\<lparr>ce_pending := last_chunk, ce_report := 0, ce_closing := True\<rparr>)"
  have e0: "ce_pending e0 = todo" "ce_closing e0" "\<not> ce_closed e0" using assms by (auto simp: shutting_def e0_def split: if_splits)
  have start: "(if \<not> ce_closing enc then io_bind poll_write_pending (\<lambda>_. start_closing) else io_lift (Ok ())) (enc, s) = (Ok (), (e0, s))"
    using assms by (auto simp: shutting_def e0_def io_bind_def io_lift_def poll_write_pending_def start_closing_def write_pending.simps)
  have poll: "poll_write_pending (e0, s) = (r, (e0\<lparr>ce_pending := pending\<rparr>, s'))"
    using assms(3) e0(1) by (simp add: poll_write_pending_def)
  have "encoder_poll_shutdown (enc, s) =
      (case r of Ok _ \<Rightarrow> encoder_finish (e0\<lparr>ce_pending := pending, ce_closed := True\<rparr>, s')
       | Err e \<Rightarrow> (Err e, (e0\<lparr>ce_pending := pending\<rparr>, s')) | Panic \<Rightarrow> (Panic, (e0\<lparr>ce_pending := pending\<rparr>, s'))
       | Pending \<Rightarrow> (Pending, (e0\<lparr>ce_pending := pending\<rparr>, s')))"
    using assms(2) start poll
    by (cases r) (simp_all add: encoder_poll_shutdown_def io_bind_def mark_closed_def split del: if_split)
  then show ?thesis using e0 by (intro that [of "e0\<lparr>ce_pending := pending\<rparr>"]) (simp_all add: shutting_def)
qed

lemma encoder_close_shutting:
  "shutting enc todo \<Longrightarrow> accepting s \<Longrightarrow> length todo \<le> ready_polls s \<Longrightarrow> finishing (sk_finishes s) \<Longrightarrow>
     length (sk_writes s) + length (sk_finishes s) < fuel \<Longrightarrow>
     \<exists>enc' s'. encoder_close fuel (enc, s) = (Ok (), (enc', s')) \<and> sk_written s' = sk_written s @ todo"
proof (induction fuel arbitrary: enc s todo)
  case (Suc fuel)
  obtain r pending s1 where w: "write_pending todo s = (r, pending, s1)" by (cases "write_pending todo s") auto
  note facts = write_pending_accepting [OF Suc.prems(2,3) w]
  have finish: ?case if poll: "encoder_poll_shutdown (enc, s) = encoder_finish (e1, s1)" and closed: "ce_closed e1"
    and empty: "pending = []" for e1
  proof -
    have fin: "finishing (sk_finishes s1)" using facts Suc.prems(4) by simp
    show ?thesis
    proof (cases rule: encoder_finish_finishing [OF fin, of e1])
      case (1 s')
      then show ?thesis using poll facts empty by auto
    next
      case (2 s')
      have acc: "accepting s'" "shutting e1 []" using facts 2 closed by (simp_all add: accepting_def shutting_def)
      have "length (sk_writes s') + length (sk_finishes s') < fuel" using facts 2 Suc.prems(5) by simp
      from Suc.IH [OF acc(2,1) _ 2(3) this] show ?thesis using poll 2 facts empty by auto
    qed
  qed
  show ?case
  proof (cases "ce_closed enc")
    case True
    then have "todo = []" using Suc.prems(1) by (simp add: shutting_def)
    with w have "s1 = s" "pending = []" by (auto simp: write_pending.simps)
    then show ?thesis using finish [of enc] True by (simp add: encoder_poll_shutdown_def)
  next
    case False
    obtain enc' where e: "shutting enc' pending" "ce_closing enc'"
      "encoder_poll_shutdown (enc, s) =
       (case r of Ok _ \<Rightarrow> encoder_finish (enc'\<lparr>ce_closed := True\<rparr>, s1) | Err e \<Rightarrow> (Err e, (enc', s1))
        | Panic \<Rightarrow> (Panic, (enc', s1)) | Pending \<Rightarrow> (Pending, (enc', s1)))"
      by (rule encoder_poll_shutdown_closing [OF Suc.prems(1) False w])
    show ?thesis
    proof (cases "r = Ok ()")
      case True
      then show ?thesis using finish [of "enc'\<lparr>ce_closed := True\<rparr>"] e facts by simp
    next
      case wait: False
      then have r: "r = Pending" and less: "length (sk_writes s1) + length (sk_finishes s1) < fuel" using facts Suc.prems(5) by auto
      have "\<exists>enc'' s'. encoder_close fuel (enc', s1) = (Ok (), (enc'', s')) \<and> sk_written s' = sk_written s1 @ pending"
        using facts Suc.prems(4) by (intro Suc.IH e(1) less) simp_all
      then show ?thesis using e(3) r facts by simp
    qed
  qed
qed simp

lemma encode_body_written:
  "idle enc \<Longrightarrow> accepting s \<Longrightarrow> list_all (\<lambda>c. c \<noteq> []) chunks \<Longrightarrow> length (chunked_body chunks) \<le> ready_polls s \<Longrightarrow>
     finishing (sk_finishes s) \<Longrightarrow> length (sk_writes s) + length (sk_finishes s) + 2 \<le> fuel \<Longrightarrow>
     \<exists>enc' s'. encode_body fuel chunks (enc, s) = (Ok (), (enc', s')) \<and> sk_written s' = sk_written s @ chunked_body chunks"
proof (induction chunks arbitrary: enc s)
  case Nil
  then show ?case
    using encoder_close_shutting [of enc last_chunk s fuel] by (simp add: idle_def shutting_def chunked_body_def)
next
  case (Cons c cs)
  have body: "chunked_body (c # cs) = chunk_frame c @ chunked_body cs" by (simp add: chunked_body_def)
  have "c \<noteq> []" "length (chunk_frame c) \<le> ready_polls s" "length (sk_writes s) + 2 \<le> fuel" using Cons.prems body by simp_all
  then obtain enc' s' where w: "encoder_write_all fuel c (enc, s) = (Ok (), (enc', s'))" "idle enc'" "accepting s'"
      "sk_finishes s' = sk_finishes s" "sk_written s' = sk_written s @ chunk_frame c"
      "ready_polls s - length (chunk_frame c) \<le> ready_polls s'" "length (sk_writes s') \<le> length (sk_writes s)"
    using encoder_write_all_partial [OF idle_partial [OF Cons.prems(1)], of c s fuel] Cons.prems(2) by blast
  have "length (chunked_body cs) \<le> ready_polls s'" using Cons.prems(4) w(6) body by simp
  from Cons.IH [OF w(2,3) _ this] show ?case using Cons.prems w body by auto
qed

section \<open>Round trip\<close>

text \<open>C22: What a client sends through the XHTTP chunked encoder, the chunked decoder gives back, byte for byte. The stream below the encoder may take any number of bytes at each poll and make it wait, and the stream below the decoder may deliver the body in any pieces, with any bytes already read with the headers, and make it wait; the reader's buffer may have any size. Both sides finish: nothing is written twice after a wait, and the end is reported exactly once all data has been delivered.\<close>

theorem chunked_roundtrip:
  assumes "body_chunks chunks" "0 < cap"
    and "accepting s" "sk_written s = []" "length (chunked_body chunks) \<le> ready_polls s" "finishing (sk_finishes s)"
    and "length (sk_writes s) + length (sk_finishes s) + 2 \<le> fuel"
    and "encode_body fuel chunks (encoder_new, s) = (r, (enc, s'))"
    and "feeding src" "leftover @ source_bytes src = sk_written s'" "src_size src + length leftover < polls"
  shows "r = Ok () \<and> read_to_end polls cap (decoder_new leftover, src) = Ok (concat chunks)"
proof -
  have "list_all (\<lambda>c. c \<noteq> []) chunks" using assms(1) by (auto simp: body_chunks_def list_all_iff)
  then have enc: "r = Ok ()" "sk_written s' = chunked_body chunks"
    using encode_body_written [of encoder_new s chunks fuel] assms by (auto simp: idle_def encoder_new_def)
  have "decoding (decoder_new leftover) src [] chunks []"
    using assms enc by (simp add: decoding_def decoder_new_def)
  from read_to_end_decoding [OF this assms(2)] enc assms show ?thesis by (simp add: decoder_work_def decoder_new_def)
qed

text \<open>Two chunks over a stream that takes three bytes at a time with waits, read in two pieces.\<close>

definition sample_sink :: sink where
  "sample_sink = \<lparr>sk_written = [], sk_writes = Pending # replicate 19 (Ok 3), sk_finishes = [Pending, Ok ()]\<rparr>"

definition sample_body :: bytes where
  "sample_body = chunked_body [[1, 2], [3]]"

theorem chunked_roundtrip_witness:
  "read_to_end 40 2 (decoder_new (take 4 sample_body), [Pending, Ok (drop 4 sample_body)]) = Ok [1, 2, 3]"
proof -
  have body: "sample_body = [0x32, 0x0D, 0x0A, 1, 2, 0x0D, 0x0A, 0x31, 0x0D, 0x0A, 3, 0x0D, 0x0A, 0x30, 0x0D, 0x0A, 0x0D, 0x0A]"
    by (simp add: sample_body_def chunked_body_def chunk_frame_def last_chunk_def crlf_def fmt_hex.simps hex_digit_def)
  have acc: "accepting sample_sink" "ready_polls sample_sink = 19" "sk_written sample_sink = []"
    "finishing (sk_finishes sample_sink)" "length (sk_writes sample_sink) + length (sk_finishes sample_sink) = 22"
    by (simp_all add: sample_sink_def accepting_def ready_polls_def list_all_iff)
  obtain enc s' where run: "encode_body 24 [[1, 2], [3]] (encoder_new, sample_sink) = (Ok (), (enc, s'))" "sk_written s' = sample_body"
    using encode_body_written [of encoder_new sample_sink "[[1, 2], [3]]" 24] acc body
    by (auto simp: idle_def encoder_new_def sample_body_def)
  have "Ok () = (Ok () :: (unit, xio_error) outcome) \<and>
      read_to_end 40 2 (decoder_new (take 4 sample_body), [Pending, Ok (drop 4 sample_body)]) = Ok (concat [[1, 2], [3]])"
    by (rule chunked_roundtrip [OF _ _ acc(1,3) _ acc(4) _ run(1)])
      (use acc body run(2) in \<open>simp_all add: body_chunks_def sample_body_def [symmetric]\<close>, simp_all add: body)
  then show ?thesis by simp
qed

end
