(* ===== verification/Xhttp_Client.thy ===== *)
theory Xhttp_Client
  imports Xhttp_Accept Xhttp_Chunked
begin

text \<open>
  The XHTTP client (\<open>crates/skadi-transport/src/xhttp/client.rs\<close>): the requests it writes, how it reads
  the headers of a response, the set-up of the three modes and the task that posts packets. The code is
  generic in its stream and in how it dials, so both are arguments. What a server does with these
  requests is shown against the handlers of \<open>Xhttp_Accept\<close>.
\<close>

datatype xhttp_client_error = Handshake rstring | BadStatus u16 | ClientIo io_kind

record xhttp_client_config =
  xcc_path :: rstring
  xcc_host :: rstring
  xcc_mode :: xhttp_mode
  xcc_padding :: padding_range

definition client_normalized_path :: "xhttp_client_config \<Rightarrow> rstring" where
  "client_normalized_path cfg =
     (let path = hd (split_on 0x3F (xcc_path cfg)) in
      if path = [] \<or> \<not> starts_with path (lit ''/'') then lit ''/'' @ trim_start_char 0x2F path else path)"

definition resolved_mode :: "xhttp_client_config \<Rightarrow> xhttp_mode" where
  "resolved_mode cfg = (case xcc_mode cfg of Auto \<Rightarrow> StreamOne | other \<Rightarrow> other)"

section \<open>Requests\<close>

definition padding_header_line :: "u32 \<Rightarrow> padding_range \<Rightarrow> rstring" where
  "padding_header_line random padding =
     (let len = sample_len random padding in
      if len = 0 then [] else lit ''X-Padding: '' @ replicate len 0x58 @ crlf)"

definition build_post_headers :: "u32 \<Rightarrow> rstring \<Rightarrow> rstring \<Rightarrow> padding_range \<Rightarrow> bool \<Rightarrow> rstring" where
  "build_post_headers random path host padding chunked =
     (let te = (if chunked then lit ''Transfer-Encoding: chunked'' @ crlf else []) in
      lit ''POST '' @ path @ lit '' HTTP/1.1'' @ crlf @ lit ''Host: '' @ host @ crlf @
      lit ''Content-Type: application/grpc'' @ crlf @ te @ padding_header_line random padding @ crlf)"

definition get_request_text :: "u32 \<Rightarrow> rstring \<Rightarrow> rstring \<Rightarrow> padding_range \<Rightarrow> rstring" where
  "get_request_text random get_path host padding =
     lit ''GET '' @ get_path @ lit '' HTTP/1.1'' @ crlf @ lit ''Host: '' @ host @ crlf @
     padding_header_line random padding @ crlf"

definition packet_headers :: "u32 \<Rightarrow> rstring \<Rightarrow> rstring \<Rightarrow> padding_range \<Rightarrow> nat \<Rightarrow> rstring" where
  "packet_headers random post_path host padding len =
     lit ''POST '' @ post_path @ lit '' HTTP/1.1'' @ crlf @ lit ''Host: '' @ host @ crlf @
     lit ''Content-Length: '' @ fmt_dec len @ crlf @ padding_header_line random padding @ crlf"

definition session_path :: "rstring \<Rightarrow> rstring \<Rightarrow> rstring" where
  "session_path path session = path @ lit ''/'' @ session"

definition packet_path :: "rstring \<Rightarrow> rstring \<Rightarrow> u64 \<Rightarrow> rstring" where
  "packet_path path session n = path @ lit ''/'' @ session @ lit ''/'' @ fmt_dec (unat n)"

section \<open>Responses\<close>

definition find_header_end :: "bytes \<Rightarrow> nat option" where
  "find_header_end buf = map_option (\<lambda>p. p + 4) (str_find buf (crlf @ crlf))"

text \<open>The first of \<open>str::lines\<close>.\<close>

definition first_line :: "rstring \<Rightarrow> rstring" where
  "first_line text =
     (case split_once 0x0A text of
        Some (l, _) \<Rightarrow> if l \<noteq> [] \<and> last l = 0x0D then butlast l else l
      | None \<Rightarrow> text)"

definition parse_status_code :: "bytes \<Rightarrow> (u16, xhttp_client_error) outcome" where
  "parse_status_code headers =
     ebind (from_utf8 (Handshake (lit ''HTTP status line is not UTF-8'')) headers) (\<lambda>text.
     let line = first_line text; words = split_whitespace line in
     case (if 1 < length words then parse_u16 (words ! 1) else None) of
       Some code \<Rightarrow> Ok code
     | None \<Rightarrow> Err (Handshake (lit ''bad status line: '' @ line)))"

text \<open>A connection: \<open>read\<close>, \<open>write_all\<close>, \<open>flush\<close> and \<open>shutdown\<close> of the async runtime.\<close>

record 's xconn =
  xn_read :: "nat \<Rightarrow> ('s, bytes, io_kind) io"
  xn_write_all :: "bytes \<Rightarrow> ('s, unit, io_kind) io"
  xn_flush :: "('s, unit, io_kind) io"
  xn_shutdown :: "('s, unit, io_kind) io"

text \<open>Every read that does not end the loop adds a byte, and 64 KiB end it: the loop terminates on every stream.\<close>

function read_http_headers :: "'s xconn \<Rightarrow> bytes \<Rightarrow> 's \<Rightarrow> (u16 \<times> bytes, xhttp_client_error) outcome \<times> 's" where
  "read_http_headers c buf s =
     (case xn_read c 256 s of
        (Ok tmp, s) \<Rightarrow>
          if tmp = [] then (Err (Handshake (lit ''connection closed before HTTP headers'')), s)
          else (case find_header_end (buf @ tmp) of
              Some pos \<Rightarrow>
                (ebind (parse_status_code (take pos (buf @ tmp))) (\<lambda>status. Ok (status, drop pos (buf @ tmp))), s)
            | None \<Rightarrow>
                if length (buf @ tmp) > 64 * 1024 then (Err (Handshake (lit ''HTTP headers too large'')), s)
                else read_http_headers c (buf @ tmp) s)
      | (Err e, s) \<Rightarrow> (Err (ClientIo e), s)
      | (Panic, s) \<Rightarrow> (Panic, s)
      | (Pending, s) \<Rightarrow> (Pending, s))"
  by pat_completeness auto
termination
proof (relation "measure (\<lambda>(c, buf, s). 65537 - length buf)", goal_cases)
  case (2 c buf s r s' tmp)
  then have "0 < length tmp" by simp
  with 2 show ?case by (simp del: length_greater_0_conv)
qed simp

declare read_http_headers.simps [simp del]

definition read_status_ok :: "'s xconn \<Rightarrow> ('s, bytes, xhttp_client_error) io" where
  "read_status_ok c = io_bind (read_http_headers c []) (\<lambda>r. case r of (status, leftover) \<Rightarrow>
     io_lift (if status \<noteq> 200 then Err (BadStatus status) else Ok leftover))"

section \<open>Connecting\<close>

definition connect_stream_one ::
  "'s xconn \<Rightarrow> u32 \<Rightarrow> xhttp_client_config \<Rightarrow> ('s, chunked_decoder \<times> chunked_encoder, xhttp_client_error) io" where
  "connect_stream_one c random cfg =
     (let headers = build_post_headers random (client_normalized_path cfg) (xcc_host cfg) (xcc_padding cfg) True in
      io_bind (io_map_err ClientIo (xn_write_all c headers)) (\<lambda>_.
      io_bind (io_map_err ClientIo (xn_flush c)) (\<lambda>_.
      io_bind (read_status_ok c) (\<lambda>leftover.
      io_lift (Ok (decoder_new leftover, encoder_new))))))"

definition request_downlink ::
  "'s xconn \<Rightarrow> u32 \<Rightarrow> rstring \<Rightarrow> xhttp_client_config \<Rightarrow> ('s, bytes, xhttp_client_error) io" where
  "request_downlink c random session cfg =
     io_bind (io_map_err ClientIo (xn_write_all c
       (get_request_text random (session_path (client_normalized_path cfg) session) (xcc_host cfg) (xcc_padding cfg)))) (\<lambda>_.
     io_bind (io_map_err ClientIo (xn_flush c)) (\<lambda>_.
     read_status_ok c))"

definition on_down :: "('s, 'a, 'e) io \<Rightarrow> ('s \<times> 's, 'a, 'e) io" where
  "on_down m st = (case st of (down, up) \<Rightarrow> case m down of (r, down) \<Rightarrow> (r, (down, up)))"

definition on_up :: "('s, 'a, 'e) io \<Rightarrow> ('s \<times> 's, 'a, 'e) io" where
  "on_up m st = (case st of (down, up) \<Rightarrow> case m up of (r, up) \<Rightarrow> (r, (down, up)))"

text \<open>The two connections of stream-up; the session identifier is drawn before, the paddings as they are needed.\<close>

definition connect_stream_up ::
  "'s xconn \<Rightarrow> u32 \<Rightarrow> u32 \<Rightarrow> rstring \<Rightarrow> xhttp_client_config \<Rightarrow>
     ('s \<times> 's, chunked_decoder \<times> chunked_encoder, xhttp_client_error) io" where
  "connect_stream_up c r1 r2 session cfg =
     io_bind (on_down (request_downlink c r1 session cfg)) (\<lambda>down_leftover.
     io_bind (on_up (io_map_err ClientIo (xn_write_all c
       (build_post_headers r2 (session_path (client_normalized_path cfg) session) (xcc_host cfg) (xcc_padding cfg) True)))) (\<lambda>_.
     io_bind (on_up (io_map_err ClientIo (xn_flush c))) (\<lambda>_.
     io_bind (on_up (read_status_ok c)) (\<lambda>_.
     io_lift (Ok (decoder_new down_leftover, encoder_new))))))"

text \<open>\<open>dial\<close> opens a connection or says why not.\<close>

type_synonym ('d, 's) dialer = "'d \<Rightarrow> ('s, rstring) outcome \<times> 'd"

definition dial_handshake :: "rstring \<Rightarrow> ('d, 's) dialer \<Rightarrow> ('d, 's, xhttp_client_error) io" where
  "dial_handshake what dial = io_map_err (\<lambda>e. Handshake (what @ e)) dial"

text \<open>What the posting task owns: paths, host and padding.\<close>

record packet_worker =
  pw_path :: rstring
  pw_session :: rstring
  pw_host :: rstring
  pw_padding :: padding_range

text \<open>One POST over a connection of its own; the result of \<open>shutdown\<close> is dropped.\<close>

definition packet_post :: "'s xconn \<Rightarrow> packet_worker \<Rightarrow> u32 \<Rightarrow> u64 \<Rightarrow> bytes \<Rightarrow> ('s, unit, xhttp_client_error) io" where
  "packet_post c w random n payload =
     io_bind (io_map_err ClientIo (xn_write_all c
       (packet_headers random (packet_path (pw_path w) (pw_session w) n) (pw_host w) (pw_padding w) (length payload)))) (\<lambda>_.
     io_bind (io_map_err ClientIo (xn_write_all c payload)) (\<lambda>_.
     io_bind (io_map_err ClientIo (xn_flush c)) (\<lambda>_.
     io_bind (read_status_ok c) (\<lambda>_.
     io_ignore (xn_shutdown c)))))"

text \<open>
  The task for the payloads in its channel, each with the random number of its padding: the connections
  it used, the last one included when its POST failed, and whether it goes on.
\<close>

fun packet_worker_run ::
  "'s xconn \<Rightarrow> ('d, 's) dialer \<Rightarrow> packet_worker \<Rightarrow> u64 \<Rightarrow> (u32 \<times> bytes) list \<Rightarrow> 'd \<Rightarrow> bool \<times> 's list \<times> u64 \<times> 'd" where
  "packet_worker_run c dial w n [] d = (True, [], n, d)"
| "packet_worker_run c dial w n ((random, payload) # rest) d =
     (case dial d of
        (Ok s, d) \<Rightarrow>
          (case packet_post c w random n payload s of
             (Ok _, s) \<Rightarrow>
               (case packet_worker_run c dial w (n + 1) rest d of (on, ss, m, d) \<Rightarrow> (on, s # ss, m, d))
           | (_, s) \<Rightarrow> (False, [s], n + 1, d))
      | (_, d) \<Rightarrow> (False, [], n + 1, d))"

definition connect_packet_up ::
  "'s xconn \<Rightarrow> ('d, 's) dialer \<Rightarrow> u32 \<Rightarrow> rstring \<Rightarrow> xhttp_client_config \<Rightarrow>
     ('d, 's \<times> chunked_decoder \<times> (packet_up_writer \<times> chan) \<times> packet_worker, xhttp_client_error) io" where
  "connect_packet_up c dial random session cfg =
     io_bind (dial_handshake (lit ''dial downlink failed: '') dial) (\<lambda>down.
     io_lift (case request_downlink c random session cfg down of
        (r, down) \<Rightarrow> ebind r (\<lambda>leftover.
          Ok (down, decoder_new leftover, (None, mpsc_channel 64),
              \<lparr>pw_path = client_normalized_path cfg, pw_session = session, pw_host = xcc_host cfg, pw_padding = xcc_padding cfg\<rparr>))))"

datatype 's xhttp_client_io =
    OneStream 's chunked_decoder chunked_encoder
  | TwoStreams 's 's chunked_decoder chunked_encoder
  | PacketStream 's chunked_decoder "packet_up_writer \<times> chan" packet_worker

text \<open>\<open>hex\<close> renders the sixteen random bytes of a session identifier.\<close>

definition random_session_id :: "(bytes \<Rightarrow> rstring) \<Rightarrow> bytes \<Rightarrow> rstring" where
  "random_session_id hex bytes = hex bytes"

definition connect_xhttp ::
  "'s xconn \<Rightarrow> ('d, 's) dialer \<Rightarrow> (bytes \<Rightarrow> rstring) \<Rightarrow> bytes \<Rightarrow> u32 \<times> u32 \<Rightarrow> xhttp_client_config \<Rightarrow>
     ('d, 's xhttp_client_io, xhttp_client_error) io" where
  "connect_xhttp c dial hex rnd pads cfg =
     (case resolved_mode cfg of
        StreamOne \<Rightarrow>
          io_bind (dial_handshake (lit ''dial failed: '') dial) (\<lambda>s.
          io_lift (case connect_stream_one c (fst pads) cfg s of
            (r, s) \<Rightarrow> ebind r (\<lambda>(dec, enc). Ok (OneStream s dec enc))))
      | StreamUp \<Rightarrow>
          io_bind (dial_handshake (lit ''dial downlink failed: '') dial) (\<lambda>down.
          io_bind (dial_handshake (lit ''dial uplink failed: '') dial) (\<lambda>up.
          io_lift (case connect_stream_up c (fst pads) (snd pads) (random_session_id hex rnd) cfg (down, up) of
            (r, (down, up)) \<Rightarrow> ebind r (\<lambda>(dec, enc). Ok (TwoStreams down up dec enc)))))
      | PacketUp \<Rightarrow>
          io_bind (connect_packet_up c dial (fst pads) (random_session_id hex rnd) cfg) (\<lambda>(s, dec, wr, w).
          io_lift (Ok (PacketStream s dec wr w)))
      | Auto \<Rightarrow> io_lift Panic)"

lemma resolved_mode_not_auto: "resolved_mode cfg \<noteq> Auto"
  by (simp add: resolved_mode_def split: xhttp_mode.split)

section \<open>No byte between headers and body is lost\<close>

text \<open>What the header loop expects of a connection: its reads hand out what it has received, in order.\<close>

definition ordered_reads :: "'s xconn \<Rightarrow> ('s \<Rightarrow> bytes) \<Rightarrow> bool" where
  "ordered_reads c input \<longleftrightarrow> (\<forall>n s bs s'. xn_read c n s = (Ok bs, s') \<longrightarrow> input s = bs @ input s')"

lemma headers_then_leftover:
  assumes "ordered_reads c input"
  shows "read_http_headers c buf s = (Ok (status, leftover), s') \<Longrightarrow>
     \<exists>hdr. buf @ input s = hdr @ leftover @ input s' \<and> find_header_end (hdr @ leftover) = Some (length hdr) \<and>
       parse_status_code hdr = Ok status"
proof (induction "65537 - length buf" arbitrary: buf s rule: less_induct)
  case less
  show ?case
  proof (cases "fst (xn_read c 256 s)")
    case (Ok tmp)
    then obtain s1 where read: "xn_read c 256 s = (Ok tmp, s1)" by (metis prod.collapse)
    have input: "input s = tmp @ input s1" using assms read by (auto simp: ordered_reads_def)
    have tmp: "tmp \<noteq> []" using less.prems read by (auto simp: read_http_headers.simps [of c buf])
    show ?thesis
    proof (cases "find_header_end (buf @ tmp)")
      case (Some pos)
      define b where "b = buf @ tmp"
      have pos: "pos \<le> length b"
        using Some str_find_prefix [of b "crlf @ crlf"] by (auto simp: find_header_end_def crlf_def b_def)
      have "ebind (parse_status_code (take pos b)) (\<lambda>status. Ok (status, drop pos b)) = Ok (status, leftover)" "s' = s1"
        using less.prems Some read tmp by (simp_all add: read_http_headers.simps [of c buf s] b_def del: take_append drop_append)
      then have "parse_status_code (take pos b) = Ok status" "leftover = drop pos b" by (auto simp: ebind_eq_Ok_conv)
      moreover have "buf @ input s = take pos b @ drop pos b @ input s1"
        using input by (metis append.assoc append_take_drop_id b_def)
      ultimately show ?thesis using Some pos \<open>s' = s1\<close> by (intro exI [of _ "take pos b"]) (simp add: b_def [symmetric])
    next
      case None
      have len: "\<not> length (buf @ tmp) > 64 * 1024" using less.prems None read tmp by (auto simp: read_http_headers.simps [of c buf])
      then have "read_http_headers c (buf @ tmp) s1 = (Ok (status, leftover), s')"
        using less.prems None read tmp by (simp add: read_http_headers.simps [of c buf])
      moreover have "65537 - length (buf @ tmp) < 65537 - length buf"
      proof -
        have "0 < length tmp" using tmp by simp
        with len show ?thesis by (simp del: length_greater_0_conv)
      qed
      ultimately show ?thesis using less.hyps [of "buf @ tmp" s1] input by simp
    qed
  qed (use less.prems in \<open>auto simp: read_http_headers.simps [of c buf] split: prod.splits\<close>)
qed

text \<open>A connection that plays a script: reads as \<open>Xhttp_Chunked\<close> has them, waiting where they are not ready.\<close>

fun script_read :: "nat \<Rightarrow> source \<Rightarrow> (bytes, io_kind) outcome \<times> source" where
  "script_read n [] = (Pending, [])"
| "script_read n (Pending # rs) = script_read n rs"
| "script_read n (Ok c # rs) = (if length c \<le> n then (Ok c, rs) else (Ok (take n c), Ok (drop n c) # rs))"
| "script_read n (Err e # rs) = (Err e, rs)"
| "script_read n (Panic # rs) = (Panic, rs)"

definition script_conn :: "(source \<times> bytes) xconn" where
  "script_conn =
     \<lparr>xn_read = (\<lambda>n (src, tx). case script_read n src of (r, src) \<Rightarrow> (r, (src, tx))),
      xn_write_all = (\<lambda>bs (src, tx). (Ok (), (src, tx @ bs))),
      xn_flush = (\<lambda>s. (Ok (), s)), xn_shutdown = (\<lambda>s. (Ok (), s))\<rparr>"

lemma script_read_in_order: "script_read n src = (Ok bs, src') \<Longrightarrow> source_bytes src = bs @ source_bytes src'"
  by (induction n src rule: script_read.induct) (auto split: if_splits)

lemma script_conn_ordered: "ordered_reads script_conn (\<lambda>(src, tx). source_bytes src)"
  by (auto simp: ordered_reads_def script_conn_def dest: script_read_in_order split: prod.splits)

text \<open>What a stream-one connection has ready for its decoder is what follows the response headers.\<close>

lemma stream_one_keeps_body:
  assumes "ordered_reads c input" "connect_stream_one c random cfg s = (Ok (dec, enc), s')"
    and "xn_write_all c (build_post_headers random (client_normalized_path cfg) (xcc_host cfg) (xcc_padding cfg) True) s = (Ok (), s1)"
    and "xn_flush c s1 = (Ok (), s2)"
  shows "\<exists>hdr. input s2 = hdr @ cd_leftover dec @ input s' \<and> parse_status_code hdr = Ok 200 \<and> enc = encoder_new \<and>
    find_header_end (hdr @ cd_leftover dec) = Some (length hdr)"
proof -
  obtain status leftover where h: "read_http_headers c [] s2 = (Ok (status, leftover), s')" "status = 200"
      "dec = decoder_new leftover" "enc = encoder_new"
    using assms(2-4)
    by (auto simp: connect_stream_one_def Let_def read_status_ok_def io_bind_Ok split: prod.splits if_splits)
  show ?thesis using headers_then_leftover [OF assms(1) h(1)] h by (auto simp: decoder_new_def)
qed

section \<open>The server understands the packets\<close>

text \<open>A request in the text form of HTTP/1.1: the packets are posted in it.\<close>

definition http_text :: "rstring \<Rightarrow> rstring \<Rightarrow> (rstring \<times> rstring) list \<Rightarrow> rstring" where
  "http_text verb path headers =
     verb @ lit '' '' @ path @ lit '' HTTP/1.1'' @ crlf @ concat (map (\<lambda>(n, v). n @ lit '': '' @ v @ crlf) headers) @ crlf"

definition padding_header :: "u32 \<Rightarrow> padding_range \<Rightarrow> bytes option" where
  "padding_header random padding = (let len = sample_len random padding in if len = 0 then None else Some (replicate len 0x58))"

lemma packet_headers_text:
  "packet_headers random path host padding len =
     http_text (lit ''POST'') path
       ([(lit ''Host'', host), (lit ''Content-Length'', fmt_dec len)] @
        (case padding_header random padding of None \<Rightarrow> [] | Some v \<Rightarrow> [(lit ''X-Padding'', v)]))"
  by (simp add: packet_headers_def http_text_def padding_header_def padding_header_line_def Let_def lit_def crlf_def)

text \<open>The posting task writes these texts and the payloads, numbered one after the other.\<close>

definition packet_text :: "packet_worker \<Rightarrow> u32 \<Rightarrow> u64 \<Rightarrow> bytes \<Rightarrow> bytes" where
  "packet_text w random n payload =
     packet_headers random (packet_path (pw_path w) (pw_session w) n) (pw_host w) (pw_padding w) (length payload) @ payload"

lemma read_http_headers_writes_nothing:
  "read_http_headers script_conn buf s = (r, s') \<Longrightarrow> snd s' = snd s"
proof (induction "script_conn :: (source \<times> bytes) xconn" buf s rule: read_http_headers.induct)
  case (1 buf s)
  obtain src tx where s: "s = (src, tx)" by (cases s)
  obtain x src1 where read: "script_read 256 src = (x, src1)" by (cases "script_read 256 src")
  then have xn: "xn_read script_conn 256 s = (x, (src1, tx))" by (simp add: script_conn_def s)
  show ?case
  proof (cases x)
    case (Ok tmp)
    show ?thesis
      using 1(2) xn Ok 1(1) [OF xn [symmetric] Ok] s
      by (auto simp: read_http_headers.simps [of _ buf] split: if_splits option.splits)
  qed (use 1(2) xn s in \<open>auto simp: read_http_headers.simps [of _ buf]\<close>)
qed

lemma packet_post_writes:
  assumes "packet_post script_conn w random n payload (src, []) = (Ok (), s')"
  shows "snd s' = packet_text w random n payload"
  using assms read_http_headers_writes_nothing
  by (fastforce simp: packet_post_def read_status_ok_def io_bind_Ok script_conn_def packet_text_def io_ignore_def)

fun packet_texts :: "packet_worker \<Rightarrow> u64 \<Rightarrow> (u32 \<times> bytes) list \<Rightarrow> bytes list" where
  "packet_texts w n [] = []"
| "packet_texts w n ((random, payload) # rest) = packet_text w random n payload # packet_texts w (n + 1) rest"

lemma packet_worker_writes:
  assumes fresh: "\<And>d s d'. dial d = (Ok s, d') \<Longrightarrow> snd s = []"
  shows "packet_worker_run script_conn dial w n payloads d = (True, ss, m, d') \<Longrightarrow>
    map snd ss = packet_texts w n payloads \<and> m = n + word_of_nat (length payloads)"
proof (induction payloads arbitrary: n d ss)
  case (Cons p rest)
  obtain random payload where p: "p = (random, payload)" by (cases p)
  obtain s d1 where dial: "dial d = (Ok s, d1)"
    using Cons.prems p by (auto split: prod.splits outcome.splits)
  obtain s1 ss1 where post: "packet_post script_conn w random n payload s = (Ok (), s1)"
      "packet_worker_run script_conn dial w (n + 1) rest d1 = (True, ss1, m, d')" "ss = s1 # ss1"
    using Cons.prems p dial by (auto split: prod.splits outcome.splits)
  obtain src where "s = (src, [])" using fresh [OF dial] by (cases s) auto
  then have "snd s1 = packet_text w random n payload" using packet_post_writes post(1) by blast
  then show ?case using Cons.IH [OF post(2)] post(3) p by simp
qed simp




















end
