(* ===== verification/Spec2Isabelle.thy ===== *)
theory Spec2Isabelle
  imports Vless_Handler Socks5_Relay Mux_Relay Conn_Gate Api_Service Accept_Loop Startup Xhttp_Client
begin

text \<open>
  \<^bold>\<open>SkadiCore\<close> is a proxy server in Rust. A client connects over plain TCP, TLS, or REALITY (TLS that
  hides behind a cover site), optionally with XHTTP (a duplex stream carried by HTTP requests) on top,
  and speaks SOCKS5 or VLESS. The server authenticates it, connects to the target it asks for, as far as
  the address policy permits, and relays; VLESS may carry many sessions in one connection (Mux). A gRPC
  service manages the users, a metrics service reports, and sidecar programs (AmneziaWG, Hysteria2,
  TUIC) are configured and started. This development translates the Rust code into HOL functions and
  proves what makes it correct. All paths below are relative to \<open>src/crates\<close>.

  \<^bold>\<open>Conventions.\<close> A Rust function that may fail returns \<open>outcome\<close> (\<open>Prelude\<close>): \<open>Ok\<close>, \<open>Err\<close>, \<open>Panic\<close>
  for an index out of range or another panic, and \<open>Pending\<close> for a future that never becomes ready or a
  poll that must be repeated. Bytes are \<open>8 word\<close>, texts are their UTF-8 bytes, and integers keep their
  width. Code with a stream has the type \<open>io\<close> of \<open>Stream_IO\<close>, a state transformer that takes
  \<open>read_exact\<close> and \<open>write_all\<close> as arguments; the locale \<open>byte_stream\<close> says what is expected of them,
  and is interpreted on the two prefixed streams of the code. Shared state is passed explicitly, and
  where tasks interleave there is a step relation (\<open>Conn_Gate\<close>, \<open>Xhttp_Accept\<close>) or a list of timed
  events (\<open>Relay\<close>, \<open>Udp_Relay\<close>, \<open>Mux_Relay\<close>, \<open>Socks5_Relay\<close>, \<open>Accept_Loop\<close>). Third-party code
  (cryptography, TLS, X.509, HTTP, TOML, DNS, sockets) is a parameter of the definitions that call it;
  where a theorem needs its documented behaviour, this is a named hypothesis (\<open>crypto_laws\<close>,
  \<open>cert_laws\<close>, \<open>host_ready\<close>, \<open>ct_eq_spec\<close>) and the witness has an instance.

  \<^bold>\<open>Foundations.\<close>
  \<^item> \<open>Prelude\<close>: outcomes, checked indexing, big-endian words, UTF-8. \<open>Text_Format\<close>, \<open>Net_Text\<close>: the
    parts of Rust's text, number and address formatting and parsing that the code uses. \<open>Wire\<close>, \<open>Clock\<close>:
    byte-level parsers and time.
  \<^item> \<open>Endpoint\<close> (\<open>skadi-core/src/endpoint.rs\<close>, \<open>error.rs\<close>): targets and the address policy.
  \<^item> \<open>Stream_IO\<close> (\<open>skadi-server/src/prefixed.rs\<close>, \<open>skadi-transport/src/reality/prefixed.rs\<close>).

  \<^bold>\<open>Protocols\<close> (\<open>skadi-protocol/src\<close>).
  \<^item> \<open>Socks5_Parse\<close>, \<open>Socks5_Handler\<close> (\<open>socks5/parse.rs\<close>, \<open>socks5.rs\<close>): parsers, negotiation and
    password check. The handshake over any stream equals its description by the parsers on the whole
    input; it always returns; exactly which passwords pass.
  \<^item> \<open>Vless_Parse\<close>, \<open>Vless_Addons\<close>, \<open>Vless_Auth\<close>, \<open>Vless_Handler\<close> (\<open>vless/\<close>): requests, protobuf addons,
    users and both handshakes. Client and server agree; rejected clients receive nothing.
  \<^item> \<open>Mux_Frame\<close> (\<open>vless/mux/frame.rs\<close>): frames are determined by their bytes.
  \<^item> \<open>Inbound\<close> (\<open>inbound.rs\<close>): dispatch and the recognition of failed logins by their texts.

  \<^bold>\<open>Transports\<close> (\<open>skadi-transport/src\<close>).
  \<^item> \<open>Outbound\<close> (\<open>outbound_policy.rs\<close>, \<open>tcp.rs\<close>, \<open>outbound.rs\<close>, \<open>tls_client.rs\<close>,
    \<open>reality_tls_client.rs\<close>): only permitted addresses are contacted.
  \<^item> \<open>Relay\<close> (\<open>relay.rs\<close>), \<open>Udp_Relay\<close> (\<open>udp.rs\<close>), \<open>Mux_Relay\<close> (\<open>mux.rs\<close>), \<open>Xudp\<close> (\<open>xudp.rs\<close>): the
    relay loops as functions of the events that arrive. Data is delivered in order and once, sessions
    do not disturb each other, and the places where the code loses or blocks are stated.
  \<^item> \<open>Tls_Inbound\<close> (\<open>tls.rs\<close>, \<open>crypto.rs\<close>): certificates, their choice by server name, accept.
  \<^item> \<open>Reality_Hello\<close>, \<open>Reality_Auth\<close>, \<open>Reality_Cert\<close>, \<open>Reality_Server\<close> (\<open>reality/\<close> and the REALITY files of
    \<open>src/third_party/rustls-reality/rustls/src\<close>): the hello parser never panics and finds the fields of
    every well-formed hello; what the client seals the server opens; the generated certificate is
    accepted by that client; TLS starts for verified clients only and everybody else reaches the cover
    site with nothing lost.
  \<^item> \<open>Xhttp_Config\<close>, \<open>Xhttp_Chunked\<close>, \<open>Xhttp_Session\<close>, \<open>Xhttp_Accept\<close>, \<open>Xhttp_Client\<close> (\<open>xhttp/\<close>): the chunked coding
    at the level of single polls with a round trip for every fragmentation, packet reassembly for every
    order of arrival, the request handlers with the registry of sessions, the writers, and the client's
    requests, response headers and three modes. The server understands the packets of the client, one reader per
    session, refused requests change nothing, and the downlink writer repeats data on a full queue.
  \<^item> \<open>Sidecar\<close> (\<open>awg/\<close>, \<open>hysteria2/\<close>, \<open>tuic/\<close>): the rendered configuration texts and the NAT set-up.

  \<^bold>\<open>Server\<close> (\<open>skadi-server/src\<close>, \<open>skadi-config/src\<close>, \<open>skadi-core/src\<close>).
  \<^item> \<open>Conn_Gate\<close>, \<open>Auth_Rate_Limit\<close>, \<open>User_Store\<close>, \<open>Api_Service\<close> (\<open>connection_gate.rs\<close>,
    \<open>auth_rate_limit.rs\<close>, \<open>store.rs\<close>, \<open>api/\<close>): the limit holds in every interleaving, bans, the store as
    a refinement of a map, the API calls as implementations of their specification behind the token.
  \<^item> \<open>Observability\<close> (\<open>observability/\<close>, \<open>skadi-core/src/secret.rs\<close>): counters, redaction of tokens.
  \<^item> \<open>Server\<close>, \<open>Socks5_Relay\<close>, \<open>Accept_Loop\<close> (\<open>lib.rs\<close>, \<open>socks5_relay.rs\<close>): a connection from its first
    byte to its end and the accept loop with its sessions.
  \<^item> \<open>Config\<close>, \<open>Startup\<close> (\<open>skadi-config/src/lib.rs\<close>, \<open>lib.rs\<close>): validation, the builders, and that a
    validated configuration starts.

  \<^bold>\<open>Bounds and fuel.\<close> Loops are structural recursions on the input or the list of events, or carry a
  termination proof; the decoder of \<open>Xhttp_Chunked\<close> terminates by the unread bytes, the buffered bytes
  and the state, lexicographically, the packet loop of \<open>Xhttp_Session\<close> by the packets that wait, and the header loop of
  \<open>Xhttp_Client\<close> because each read adds a byte and 64 KiB end it.
  \<open>read_to_end\<close>, \<open>encoder_write_all\<close> and \<open>encoder_close\<close> are the callers that poll again after \<open>Pending\<close>:
  their fuel is the number of polls, and the round trip shows that one more than the entries and bytes of
  the script is enough. Packet numbers are \<open>u64\<close> and the theorem about them bounds the number of arrivals
  by \<open>2 ^ 64\<close>. Everywhere else the sizes are those of the code: queues of 64 and 256, frames of 8192,
  headers of 16384 bytes.

  \<^bold>\<open>Not modelled.\<close> The client program \<open>skadi-client\<close> (configuration, DNS, TUN device, front end), whose
  protocol code is modelled where it is defined; the processes of the sidecars; \<open>hybrid_kx.rs\<close>, which joins two library calls; command line, signals, log
  output; generated gRPC code; the TLS handshake and the rest of the vendored TLS library; HTTP itself.
  Scheduling is modelled by the order of events, never by real time, except where a deadline is part of
  the code.
\<close>

end
